(* ===== verification/Prelude.thy ===== *)
theory Prelude
  imports Main "HOL-Library.Word" "HOL-Library.Sublist"
begin

section \<open>Prelude: machine integers, lists, and the collections of rules\<close>

text \<open>
  Shared by every component: the widths of the Rust integers the code computes with, the
  saturating addition of \<^verbatim>\<open>u64\<close>, the index and drain operations of
  \<^verbatim>\<open>Vec\<close>, and the named collections of rules the component proofs use.
  \<^item> \<open>u64\<close>, \<open>u32\<close>, \<open>u8\<close> are words, so that \<open>+\<close> and \<open>*\<close> wrap as
    \<^verbatim>\<open>wrapping_add\<close> and \<^verbatim>\<open>wrapping_mul\<close> do.
  \<^item> Lengths, indices and the counters the code only ever increments by one
    (\<^verbatim>\<open>usize\<close>, sequence numbers, task and timer identifiers, the count of dispatched
    events) are \<open>nat\<close>: they overflow only after \<open>2 ^ 64\<close> steps.
\<close>

type_synonym u64 = "64 word"
type_synonym u32 = "32 word"
type_synonym u8 = "8 word"

named_theorems frame_simps "fields an operation leaves alone"
named_theorems inv_intros "operations that keep an invariant"
named_theorems tape_intros "operations that respect the entropy tape"

subsection \<open>Saturating arithmetic on u64\<close>

definition u64_max :: nat where
  "u64_max = 2 ^ 64 - 1"

definition u64_saturating_add :: "u64 \<Rightarrow> u64 \<Rightarrow> u64" where
  "u64_saturating_add a b = (if unat a + unat b \<le> u64_max then a + b else - 1)"

lemma unat_u64_le_max: "unat (a :: u64) \<le> u64_max"
  using unsigned_less [of a, where ?'a = nat] by (simp add: u64_max_def)

lemma unat_u64_minus_one: "unat (- 1 :: u64) = u64_max"
  by (simp add: u64_max_def unsigned_minus_1_eq_mask mask_eq_exp_minus_1)

lemma unat_u64_saturating_add:
  "unat (u64_saturating_add a b) = min (unat a + unat b) u64_max"
proof (cases "unat a + unat b \<le> u64_max")
  case True
  then have "unat a + unat b < 2 ^ LENGTH(64)"
    by (simp add: u64_max_def)
  then show ?thesis
    using True by (simp add: u64_saturating_add_def unat_word_ariths u64_max_def)
next
  case False
  then show ?thesis
    by (simp add: u64_saturating_add_def unat_u64_minus_one)
qed

lemma u64_saturating_add_ge: "a \<le> u64_saturating_add a b"
  using unat_u64_le_max [of a]
  by (simp add: word_le_nat_alt unat_u64_saturating_add)

lemma unat_of_nat_u64: "n \<le> u64_max \<Longrightarrow> unat (of_nat n :: u64) = n"
  by (simp add: unat_of_nat u64_max_def)

subsection \<open>Vec operations\<close>

text \<open>
  \<^verbatim>\<open>v.drain(i..i + n)\<close> (the removed elements dropped) and
  \<^verbatim>\<open>v.remove(i)\<close>. Rust panics on a range past the end; every caller checks the range
  first.
\<close>

definition vec_drain :: "nat \<Rightarrow> nat \<Rightarrow> 'a list \<Rightarrow> 'a list" where
  "vec_drain i n xs = take i xs @ drop (i + n) xs"

definition vec_remove :: "nat \<Rightarrow> 'a list \<Rightarrow> 'a list" where
  "vec_remove i xs = take i xs @ drop (Suc i) xs"

lemma vec_remove_drain: "vec_remove i xs = vec_drain i 1 xs"
  by (simp add: vec_remove_def vec_drain_def)

lemma map_vec_drain: "map f (vec_drain i n xs) = vec_drain i n (map f xs)"
  by (simp add: vec_drain_def take_map drop_map)

lemma map_vec_remove: "map f (vec_remove i xs) = vec_remove i (map f xs)"
  by (simp add: vec_remove_def take_map drop_map)

lemma length_vec_drain: "i + n \<le> length xs \<Longrightarrow> length (vec_drain i n xs) = length xs - n"
  by (simp add: vec_drain_def)

lemma length_vec_remove: "i < length xs \<Longrightarrow> length (vec_remove i xs) = length xs - 1"
  by (simp add: vec_remove_def)

lemma subseq_vec_drain: "subseq (vec_drain i n xs) xs"
proof -
  have "subseq (drop n (drop i xs)) (drop i xs)"
    by (rule suffix_imp_subseq [OF suffix_drop])
  then have "subseq (take i xs @ drop n (drop i xs)) (take i xs @ drop i xs)"
    by (simp only: subseq_append')
  then show ?thesis
    by (simp add: vec_drain_def add.commute)
qed

lemma subseq_vec_remove: "subseq (vec_remove i xs) xs"
  by (simp add: vec_remove_drain subseq_vec_drain)

lemma subseq_vec_drainI: "subseq ys (vec_drain i n xs) \<Longrightarrow> subseq ys xs"
  using subseq_vec_drain subseq_order.order_trans by blast

lemma subseq_vec_removeI: "subseq ys (vec_remove i xs) \<Longrightarrow> subseq ys xs"
  using subseq_vec_remove subseq_order.order_trans by blast

lemma nth_map_upt_id: "map ((!) xs) [0..<length xs] = xs"
  by (rule map_nth)

lemma sorted_wrt_subseq:
  assumes "subseq xs ys" and "sorted_wrt P ys"
  shows "sorted_wrt P xs"
  using assms
proof (induction xs ys)
  case (list_emb_Cons2 x y xs ys)
  then show ?case
    by (auto dest: list_emb_set)
qed auto

end
