(* ===== verification/Ordered_Map.thy ===== *)
theory Ordered_Map
  imports Prelude
begin

section \<open>BTreeMap: finite maps in key order\<close>

text \<open>
  The Rust code keeps nearly all its tables in \<^verbatim>\<open>std::collections::BTreeMap\<close>, for
  the deterministic iteration order. The model is the list of the map's entries in increasing key
  order, so that iteration, \<^verbatim>\<open>len\<close> and \<^verbatim>\<open>==\<close> are those of the list.
  The locale \<open>finite_map_laws\<close> is the interface the components rely on; its interpretation
  \<open>btm\<close> discharges it for the list. \<^verbatim>\<open>BTreeSet\<close> is \<open>'a set\<close>.
\<close>

type_synonym ('k, 'v) btree_map = "('k \<times> 'v) list"

fun btm_insert :: "'k::linorder \<Rightarrow> 'v \<Rightarrow> ('k, 'v) btree_map \<Rightarrow> ('k, 'v) btree_map" where
  "btm_insert k v [] = [(k, v)]"
| "btm_insert k v ((k', v') # m) =
     (if k < k' then (k, v) # (k', v') # m
      else if k = k' then (k, v) # m
      else (k', v') # btm_insert k v m)"

abbreviation btm_get :: "('k, 'v) btree_map \<Rightarrow> 'k \<Rightarrow> 'v option" where
  "btm_get \<equiv> map_of"

definition btm_remove :: "'k \<Rightarrow> ('k, 'v) btree_map \<Rightarrow> ('k, 'v) btree_map" where
  "btm_remove k m = filter (\<lambda>(k', _). k' \<noteq> k) m"

definition btm_retain :: "('k \<Rightarrow> 'v \<Rightarrow> bool) \<Rightarrow> ('k, 'v) btree_map \<Rightarrow> ('k, 'v) btree_map" where
  "btm_retain P m = filter (\<lambda>(k, v). P k v) m"

definition btm_map_values :: "('v \<Rightarrow> 'w) \<Rightarrow> ('k, 'v) btree_map \<Rightarrow> ('k, 'w) btree_map" where
  "btm_map_values f m = map (\<lambda>(k, v). (k, f v)) m"

definition btm_contains :: "'k \<Rightarrow> ('k, 'v) btree_map \<Rightarrow> bool" where
  "btm_contains k m = (btm_get m k \<noteq> None)"

definition btm_keys :: "('k, 'v) btree_map \<Rightarrow> 'k set" where
  "btm_keys m = set (map fst m)"

text \<open>\<^verbatim>\<open>m.entry(k).or_insert(d)\<close> and \<^verbatim>\<open>or_default\<close>: the value read.\<close>

definition btm_get_or :: "'v \<Rightarrow> ('k, 'v) btree_map \<Rightarrow> 'k \<Rightarrow> 'v" where
  "btm_get_or d m k = (case btm_get m k of None \<Rightarrow> d | Some v \<Rightarrow> v)"

definition btm_wf :: "('k::linorder, 'v) btree_map \<Rightarrow> bool" where
  "btm_wf m \<longleftrightarrow> sorted_wrt (<) (map fst m)"

subsection \<open>Lookups after updates\<close>

lemma btm_get_insert [simp]:
  "btm_get (btm_insert k v m) k' = (if k' = k then Some v else btm_get m k')"
  by (induction m) auto

lemma btm_get_remove [simp]:
  "btm_get (btm_remove k m) k' = (if k' = k then None else btm_get m k')"
  by (induction m) (auto simp: btm_remove_def)

lemma btm_contains_get: "btm_contains k m \<longleftrightarrow> (\<exists>v. btm_get m k = Some v)"
  by (simp add: btm_contains_def)

lemma btm_contains_insert [simp]: "btm_contains k' (btm_insert k v m) \<longleftrightarrow> k' = k \<or> btm_contains k' m"
  by (auto simp: btm_contains_def)

lemma btm_contains_remove [simp]: "btm_contains k' (btm_remove k m) \<longleftrightarrow> k' \<noteq> k \<and> btm_contains k' m"
  by (auto simp: btm_contains_def)

lemma btm_contains_Nil [simp]: "\<not> btm_contains k []"
  by (simp add: btm_contains_def)

lemma btm_get_map_values [simp]: "btm_get (btm_map_values f m) k = map_option f (btm_get m k)"
  by (induction m) (auto simp: btm_map_values_def)

lemma btm_keys_dom: "btm_keys m = dom (btm_get m)"
  by (simp add: btm_keys_def dom_map_of_conv_image_fst)

lemma btm_keys_Cons [simp]: "btm_keys ((k, v) # m) = insert k (btm_keys m)"
  by (simp add: btm_keys_def)

lemma btm_keys_insert [simp]: "btm_keys (btm_insert k v m) = insert k (btm_keys m)"
  by (auto simp: btm_keys_dom dom_def)

lemma btm_keys_remove [simp]: "btm_keys (btm_remove k m) = btm_keys m - {k}"
  by (auto simp: btm_keys_dom dom_def)

lemma btm_keys_retain: "btm_keys (btm_retain P m) \<subseteq> btm_keys m"
  by (auto simp: btm_keys_def btm_retain_def)

lemma btm_contains_keys: "btm_contains k m \<longleftrightarrow> k \<in> btm_keys m"
  by (auto simp: btm_contains_def btm_keys_def map_of_eq_None_iff)

lemma btm_get_in_keys: "btm_get m k = Some v \<Longrightarrow> k \<in> btm_keys m"
  by (auto simp: btm_keys_def dest: map_of_SomeD intro: image_eqI [rotated])

lemma btm_set_insert: "set (btm_insert k v m) \<subseteq> insert (k, v) (set m)"
  by (induction m) (auto split: if_splits)

lemma btm_set_remove: "set (btm_remove k m) \<subseteq> set m"
  by (auto simp: btm_remove_def)

subsection \<open>Well-formedness\<close>

lemma btm_wf_Nil [simp]: "btm_wf []"
  by (simp add: btm_wf_def)

lemma btm_wf_Cons: "btm_wf ((k, v) # m) \<longleftrightarrow> (\<forall>k' \<in> btm_keys m. k < k') \<and> btm_wf m"
  by (simp add: btm_wf_def btm_keys_def)

lemma btm_wf_insert [simp]: "btm_wf m \<Longrightarrow> btm_wf (btm_insert k v m)"
proof (induction m)
  case (Cons e m)
  then show ?case
    by (cases e) (force simp: btm_wf_Cons)
qed (simp add: btm_wf_def)

lemma btm_wf_remove [simp]: "btm_wf m \<Longrightarrow> btm_wf (btm_remove k m)"
proof (induction m)
  case (Cons e m)
  then have "btm_keys (btm_remove k m) \<subseteq> btm_keys m" by auto
  with Cons show ?case
    by (cases e) (auto simp: btm_wf_Cons btm_remove_def)
qed (simp add: btm_remove_def)

lemma btm_wf_retain [simp]: "btm_wf m \<Longrightarrow> btm_wf (btm_retain P m)"
proof (induction m)
  case (Cons e m)
  then show ?case
    using btm_keys_retain [of P m]
    by (cases e) (auto simp: btm_wf_Cons btm_retain_def)
qed (simp add: btm_retain_def)

lemma btm_wf_map_values [simp]: "btm_wf m \<Longrightarrow> btm_wf (btm_map_values f m)"
  by (simp add: btm_wf_def btm_map_values_def comp_def case_prod_beta)

lemma btm_wf_distinct: "btm_wf m \<Longrightarrow> distinct (map fst m)"
  by (simp add: btm_wf_def strict_sorted_iff)

lemma btm_get_iff_mem: "btm_wf m \<Longrightarrow> btm_get m k = Some v \<longleftrightarrow> (k, v) \<in> set m"
  by (simp add: btm_wf_distinct)

lemma btm_get_retain:
  "btm_wf m \<Longrightarrow> btm_get (btm_retain P m) k =
     (case btm_get m k of None \<Rightarrow> None | Some v \<Rightarrow> if P k v then Some v else None)"
proof (induction m)
  case (Cons e m)
  obtain k' v' where e: "e = (k', v')" by (cases e)
  have "k' \<notin> btm_keys m"
    using Cons.prems e by (auto simp: btm_wf_Cons)
  then have "btm_get m k' = None"
    by (simp add: btm_keys_def map_of_eq_None_iff)
  with Cons e show ?case
    by (auto simp: btm_retain_def btm_wf_Cons)
qed (simp add: btm_retain_def)

lemma btm_contains_retain: "btm_contains k (btm_retain P m) \<Longrightarrow> btm_contains k m"
  using btm_keys_retain [of P m] by (auto simp: btm_contains_keys)

text \<open>Two well-formed maps with the same lookups are equal: \<^verbatim>\<open>==\<close> on the maps.\<close>

lemma btm_ext:
  assumes "btm_wf m" and "btm_wf m'" and "\<And>k. btm_get m k = btm_get m' k"
  shows "m = m'"
  using assms
proof (induction m arbitrary: m')
  case Nil
  show ?case
  proof (cases m')
    case (Cons e m'')
    with Nil.prems(3) [of "fst e"] show ?thesis by simp
  qed simp
next
  case (Cons e m)
  obtain k v where e: "e = (k, v)" by (cases e)
  have "m' \<noteq> []"
    using Cons.prems(3) [of k] e by auto
  then obtain k' v' m'' where m': "m' = (k', v') # m''"
    by (metis list.exhaust surj_pair)
  have small: "\<And>j w. btm_get m j = Some w \<Longrightarrow> k < j" "\<And>j w. btm_get m'' j = Some w \<Longrightarrow> k' < j"
    using Cons.prems(1,2) e m' by (auto simp: btm_wf_Cons dest: btm_get_in_keys)
  have k: "k = k'"
  proof (rule ccontr)
    assume "k \<noteq> k'"
    with Cons.prems(3) [of k] Cons.prems(3) [of k'] e m'
    have "btm_get m'' k = Some v" "btm_get m k' = Some v'" by auto
    with small show False by fastforce
  qed
  then have "v = v'" using Cons.prems(3) [of k] e m' by simp
  moreover have "btm_get m j = btm_get m'' j" for j
    using Cons.prems(3) [of j] small [of j] e m' k by (cases "j = k") (auto split: if_splits, force+)
  then have "m = m''"
    using Cons.IH [of m''] Cons.prems(1,2) e m' by (auto simp: btm_wf_Cons)
  ultimately show ?case using e m' k by simp
qed

subsection \<open>The interface\<close>

locale finite_map_laws =
  fixes empty_map :: 'm
    and put :: "'k \<Rightarrow> 'v \<Rightarrow> 'm \<Rightarrow> 'm"
    and del :: "'k \<Rightarrow> 'm \<Rightarrow> 'm"
    and look :: "'m \<Rightarrow> 'k \<Rightarrow> 'v option"
    and wf :: "'m \<Rightarrow> bool"
  assumes look_empty: "look empty_map k = None"
    and look_put: "look (put k v m) k' = (if k' = k then Some v else look m k')"
    and look_del: "look (del k m) k' = (if k' = k then None else look m k')"
    and wf_empty: "wf empty_map"
    and wf_put: "wf m \<Longrightarrow> wf (put k v m)"
    and wf_del: "wf m \<Longrightarrow> wf (del k m)"
    and look_ext: "wf m \<Longrightarrow> wf m' \<Longrightarrow> (\<And>k. look m k = look m' k) \<Longrightarrow> m = m'"
begin

text \<open>What the components use: writes to different keys commute, a second write wins, a write
  after a removal is the write.\<close>

lemma put_put: "wf m \<Longrightarrow> put k v (put k w m) = put k v m"
  by (rule look_ext) (simp_all add: look_put wf_put)

lemma put_commute: "wf m \<Longrightarrow> k \<noteq> k' \<Longrightarrow> put k v (put k' v' m) = put k' v' (put k v m)"
  by (rule look_ext) (auto simp: look_put wf_put)

lemma put_same: "wf m \<Longrightarrow> look m k = Some v \<Longrightarrow> put k v m = m"
  by (rule look_ext) (auto simp: look_put wf_put)

lemma del_put: "wf m \<Longrightarrow> del k (put k v m) = del k m"
  by (rule look_ext) (simp_all add: look_put look_del wf_put wf_del)

lemma del_absent: "wf m \<Longrightarrow> look m k = None \<Longrightarrow> del k m = m"
  by (rule look_ext) (auto simp: look_del wf_del)

end

interpretation btm: finite_map_laws "[]" btm_insert btm_remove btm_get btm_wf
proof unfold_locales
  fix m m' :: "('a::linorder, 'b) btree_map"
  assume "btm_wf m" "btm_wf m'" "\<And>k. btm_get m k = btm_get m' k"
  then show "m = m'" by (rule btm_ext)
qed simp_all

end
