(* ===== verification/Core_Rng.thy ===== *)
theory Core_Rng
  imports Complex_Main Prelude
begin

unbundle bit_operations_syntax

section \<open>detersim-core: logical time and the SplitMix64 generator\<close>

text \<open>
  Models \<^verbatim>\<open>crates/detersim-core/src/rng.rs\<close> and \<^verbatim>\<open>time.rs\<close>. The
  generator keeps one \<^verbatim>\<open>u64\<close> of state; every operation that draws returns the
  value and the generator after the draw. \<^verbatim>\<open>gen_bool\<close> compares a 53-bit fraction,
  which a double represents exactly, with a probability that is a \<open>real\<close> here (the code's
  \<^verbatim>\<open>f64\<close> without NaN). \<^verbatim>\<open>gen_range_u64\<close> returns \<open>None\<close> where its
  assertion fails. \<^verbatim>\<open>SimTime\<close> is its nanosecond count; a
  \<^verbatim>\<open>Duration\<close> is its total number of nanoseconds, a \<open>nat\<close>.
\<close>

subsection \<open>SplitMix64\<close>

record split_mix64 =
  sm_state :: u64

definition sm_new :: "u64 \<Rightarrow> split_mix64" where
  "sm_new s = \<lparr>sm_state = s\<rparr>"

definition golden_gamma :: u64 where
  "golden_gamma = 0x9E3779B97F4A7C15"

definition xor_shift :: "nat \<Rightarrow> u64 \<Rightarrow> u64" where
  "xor_shift k z = z XOR drop_bit k z"

definition sm_mix :: "u64 \<Rightarrow> u64" where
  "sm_mix z0 =
     (let z1 = xor_shift 30 z0 * 0xBF58476D1CE4E5B9;
          z2 = xor_shift 27 z1 * 0x94D049BB133111EB
      in xor_shift 31 z2)"

definition next_u64 :: "split_mix64 \<Rightarrow> u64 \<times> split_mix64" where
  "next_u64 r =
     (let s = sm_state r + golden_gamma
      in (sm_mix s, \<lparr>sm_state = s\<rparr>))"

definition sm_fork :: "split_mix64 \<Rightarrow> split_mix64 \<times> split_mix64" where
  "sm_fork r = (let (v, r') = next_u64 r in (sm_new v, r'))"

definition gen_range_u64 :: "u64 \<Rightarrow> u64 \<Rightarrow> split_mix64 \<Rightarrow> (u64 \<times> split_mix64) option" where
  "gen_range_u64 lo hi r =
     (if lo < hi then (let (v, r') = next_u64 r in Some (lo + v mod (hi - lo), r')) else None)"

definition gen_bool :: "real \<Rightarrow> split_mix64 \<Rightarrow> bool \<times> split_mix64" where
  "gen_bool p r =
     (let q = max 0 (min 1 p);
          (v, r') = next_u64 r;
          x = real (unat (drop_bit 11 v)) / 2 ^ 53
      in (x < q, r'))"

text \<open>The draws of a run, in order.\<close>

fun sm_draws :: "nat \<Rightarrow> split_mix64 \<Rightarrow> u64 list" where
  "sm_draws 0 r = []"
| "sm_draws (Suc n) r = (let (v, r') = next_u64 r in v # sm_draws n r')"

subsection \<open>The mixing function is a bijection\<close>

lemma unat_drop_bit_u64: "unat (drop_bit k (d :: u64)) = unat d div 2 ^ k"
  by (simp add: unat_drop_bit_eq drop_bit_nat_def take_bit_nat_eq_self)

lemma drop_bit_fixpoint_zero:
  assumes "0 < k" and "d = drop_bit k (d :: u64)"
  shows "d = 0"
proof (rule ccontr)
  assume "d \<noteq> 0"
  then have "0 < unat d" by (simp add: unat_gt_0)
  moreover have "1 < (2 :: nat) ^ k" using assms(1) by (simp only: one_less_power)
  ultimately have "unat d div 2 ^ k < unat d" by (rule div_less_dividend [rotated])
  with assms(2) show False by (metis unat_drop_bit_u64 less_irrefl)
qed

lemma word_xor_eq_0_iff: "x XOR y = 0 \<longleftrightarrow> x = (y :: u64)"
proof
  assume "x XOR y = 0"
  then have "(x XOR y) XOR y = y" by simp
  then show "x = y" by (simp add: xor.assoc)
qed simp

lemma xor_shift_inj:
  assumes "0 < k" and "xor_shift k x = xor_shift k y"
  shows "x = y"
proof -
  have "(x XOR y) XOR drop_bit k (x XOR y) = xor_shift k x XOR xor_shift k y"
    by (simp only: xor_shift_def drop_bit_xor xor.assoc xor.commute xor.left_commute)
  also have "\<dots> = 0" using assms(2) by simp
  finally have "x XOR y = drop_bit k (x XOR y)"
    by (simp only: word_xor_eq_0_iff)
  with assms(1) have "x XOR y = 0" by (rule drop_bit_fixpoint_zero)
  then show ?thesis by (simp only: word_xor_eq_0_iff)
qed

lemma times_unit_inj:
  fixes c d x y :: u64
  assumes "d * c = 1" and "x * c = y * c"
  shows "x = y"
proof -
  have "x = x * (d * c)" by (simp only: assms(1) mult_1_right)
  also have "\<dots> = (x * c) * d" by (simp only: mult.assoc mult.commute mult.left_commute)
  also have "\<dots> = (y * c) * d" by (simp only: assms(2))
  also have "\<dots> = y * (d * c)" by (simp only: mult.assoc mult.commute mult.left_commute)
  also have "\<dots> = y" by (simp only: assms(1) mult_1_right)
  finally show ?thesis .
qed

lemma sm_mix_injective: "sm_mix x = sm_mix y \<Longrightarrow> x = y"
  unfolding sm_mix_def Let_def
  apply (drule xor_shift_inj [rotated], simp)
  apply (drule times_unit_inj [rotated, where d = "0x319642b2d24d8ec3"], simp)
  apply (drule xor_shift_inj [rotated], simp)
  apply (drule times_unit_inj [rotated, where d = "0x96de1b173f119089"], simp)
  apply (drule xor_shift_inj [rotated], simp)
  apply assumption
  done

lemma inj_sm_mix: "inj sm_mix"
  by (rule injI) (rule sm_mix_injective)

lemma bij_sm_mix: "bij sm_mix"
  using inj_sm_mix by (simp add: bij_def finite_UNIV_inj_surj)

subsection \<open>Period of the state and distinctness of the draws\<close>

lemma length_sm_draws [simp]: "length (sm_draws n r) = n"
  by (induction n arbitrary: r) (auto simp: next_u64_def Let_def)

lemma sm_draws_nth:
  "i < n \<Longrightarrow> sm_draws n r ! i = sm_mix (sm_state r + of_nat (Suc i) * golden_gamma)"
proof (induction n arbitrary: i r)
  case (Suc n)
  then show ?case
    by (cases i) (auto simp: next_u64_def Let_def algebra_simps)
qed simp

lemma golden_gamma_cancel:
  assumes "of_nat i * golden_gamma = of_nat j * golden_gamma" and "i < 2 ^ 64" and "j < 2 ^ 64"
  shows "i = j"
proof -
  have "of_nat i = (of_nat j :: u64)"
    by (rule times_unit_inj [of "0xf1de83e19937733d" golden_gamma])
      (use assms(1) in \<open>simp_all add: golden_gamma_def\<close>)
  then have "unat (of_nat i :: u64) = unat (of_nat j :: u64)" by simp
  with assms(2,3) show ?thesis by (simp add: unat_of_nat)
qed

lemma golden_gamma_shift_cancel:
  assumes "s + of_nat i * golden_gamma = s + of_nat j * golden_gamma" and "i < 2 ^ 64" and "j < 2 ^ 64"
  shows "i = j"
  using assms by (intro golden_gamma_cancel) simp_all

text \<open>C38
  A generator does not repeat a value within its first 2^64 draws: for every seed and every
  number of draws up to 2^64, the values drawn are pairwise distinct.\<close>

theorem sm_draws_distinct:
  assumes "n \<le> 2 ^ 64"
  shows "distinct (sm_draws n r)"
  unfolding distinct_conv_nth
proof (intro allI impI notI)
  fix i j
  assume ij: "i < length (sm_draws n r)" "j < length (sm_draws n r)" and "i \<noteq> j"
    and eq: "sm_draws n r ! i = sm_draws n r ! j"
  from eq ij have "sm_mix (sm_state r + of_nat (Suc i) * golden_gamma) =
      sm_mix (sm_state r + of_nat (Suc j) * golden_gamma)"
    by (simp only: length_sm_draws sm_draws_nth)
  then have "sm_state r + of_nat (Suc i) * golden_gamma = sm_state r + of_nat (Suc j) * golden_gamma"
    by (rule sm_mix_injective)
  then have "(sm_state r + golden_gamma) + of_nat i * golden_gamma =
      (sm_state r + golden_gamma) + of_nat j * golden_gamma"
    by (simp add: algebra_simps)
  then have "i = j"
    by (rule golden_gamma_shift_cancel) (use ij assms in simp_all)
  with \<open>i \<noteq> j\<close> show False ..
qed

theorem sm_draws_distinct_witness: "distinct (sm_draws 3 (sm_new 7))"
  by (rule sm_draws_distinct) simp

subsection \<open>Ranges and probabilities\<close>

lemma next_u64_state: "sm_state (snd (next_u64 r)) = sm_state r + golden_gamma"
  by (simp add: next_u64_def Let_def)

lemma lo_plus_mod_range:
  fixes lo hi v :: u64
  assumes "lo < hi"
  shows "lo \<le> lo + v mod (hi - lo) \<and> lo + v mod (hi - lo) < hi"
proof -
  have diff: "unat (hi - lo) = unat hi - unat lo"
    using assms by (simp add: unat_sub less_imp_le)
  have lt: "unat (v mod (hi - lo)) < unat hi - unat lo"
    using assms by (simp add: unat_mod_distrib diff word_less_nat_alt)
  then have "unat lo + unat (v mod (hi - lo)) < unat hi" by linarith
  moreover from this have "unat lo + unat (v mod (hi - lo)) < 2 ^ LENGTH(64)"
    using unat_u64_le_max [of hi] by (simp add: u64_max_def)
  then have "unat (lo + v mod (hi - lo)) = unat lo + unat (v mod (hi - lo))"
    by (simp add: unat_word_ariths)
  ultimately show ?thesis
    by (simp add: word_less_nat_alt word_le_nat_alt)
qed

text \<open>C39
  \<^verbatim>\<open>gen_range_u64\<close> returns, exactly when \<^verbatim>\<open>lo < hi\<close>, a value of the
  half-open range, having consumed one draw; otherwise its assertion fails.\<close>

theorem gen_range_u64_spec:
  "case gen_range_u64 lo hi r of
     None \<Rightarrow> hi \<le> lo
   | Some (v, r') \<Rightarrow> lo \<le> v \<and> v < hi \<and> r' = snd (next_u64 r)"
  using lo_plus_mod_range [of lo hi "fst (next_u64 r)"]
  by (auto simp: gen_range_u64_def split: prod.splits)

lemma gen_bool_fraction: "0 \<le> real (unat (drop_bit 11 (v :: u64))) / 2 ^ 53
    \<and> real (unat (drop_bit 11 v)) / 2 ^ 53 < 1"
proof -
  have "unat v div 2 ^ 11 < 2 ^ 53"
    using unat_u64_le_max [of v] by (simp add: u64_max_def div_less_iff_less_mult)
  then have "real (unat (drop_bit 11 v)) < 2 ^ 53"
    by (simp only: unat_drop_bit_u64 of_nat_less_numeral_power_cancel_iff)
  moreover have "0 \<le> real n / 2 ^ 53 \<and> real n / 2 ^ 53 < 1" if "real n < 2 ^ 53" for n
    using that by simp
  ultimately show ?thesis by blast
qed

text \<open>Probability 0 (or less) never fires, 1 (or more) always does, and raising the probability
  never turns a hit into a miss.\<close>

lemma gen_bool_extremes:
  "p \<le> 0 \<Longrightarrow> \<not> fst (gen_bool p r)"
  "1 \<le> p \<Longrightarrow> fst (gen_bool p r)"
  "p \<le> q \<Longrightarrow> fst (gen_bool p r) \<Longrightarrow> fst (gen_bool q r)"
  using gen_bool_fraction [of "fst (next_u64 r)"]
  by (auto simp: gen_bool_def Let_def split: prod.splits)

lemma gen_bool_state: "snd (gen_bool p r) = snd (next_u64 r)"
  by (simp add: gen_bool_def Let_def split: prod.splits)

lemma sm_fork_state: "snd (sm_fork r) = snd (next_u64 r) \<and> sm_state (fst (sm_fork r)) = fst (next_u64 r)"
  by (simp add: sm_fork_def sm_new_def split: prod.splits)

subsection \<open>SimTime\<close>

type_synonym sim_time = u64
type_synonym duration = nat

definition time_zero :: sim_time where
  "time_zero = 0"

text \<open>\<^verbatim>\<open>Duration::from_millis(ms).as_nanos()\<close>\<close>

definition duration_from_millis :: "nat \<Rightarrow> duration" where
  "duration_from_millis ms = ms * 1000000"

definition time_saturating_add :: "sim_time \<Rightarrow> duration \<Rightarrow> sim_time" where
  "time_saturating_add t dur =
     (let add = (of_nat (min dur u64_max) :: u64)
      in u64_saturating_add t add)"

lemma unat_time_saturating_add:
  "unat (time_saturating_add t d) = min (unat t + d) u64_max"
proof -
  have "unat (of_nat (min d u64_max) :: u64) = min d u64_max"
    by (rule unat_of_nat_u64) simp
  then show ?thesis
    by (simp add: time_saturating_add_def unat_u64_saturating_add Let_def)
qed

lemma time_saturating_add_ge: "t \<le> time_saturating_add t d"
  by (simp add: time_saturating_add_def u64_saturating_add_ge)

lemma time_saturating_add_mono: "d \<le> d' \<Longrightarrow> time_saturating_add t d \<le> time_saturating_add t d'"
  by (simp add: word_le_nat_alt unat_time_saturating_add)

lemma time_saturating_add_add:
  "time_saturating_add (time_saturating_add t d) d' = time_saturating_add t (d + d')"
  by (rule word_unat_eq_iff [THEN iffD2]) (simp add: unat_time_saturating_add)

end
