(* ===== verification/Entropy_Tape.thy ===== *)
theory Entropy_Tape
  imports Core_Rng
begin

section \<open>The entropy tape\<close>

text \<open>
  Models \<^verbatim>\<open>crates/detersim-sim/src/tape.rs\<close>. Every control-plane decision is one
  \<open>draw\<close>: in \<open>Generate\<close> mode from the seeded generator, in \<open>Replay\<close> mode from a
  recorded tape, 0 past its end. \<open>rep_tape L t\<close> is the replay-mode tape over the recording
  \<open>L\<close> at the point where \<open>t\<close> stands; the property \<open>tape_step\<close> says of a
  state-passing operation that it draws in the same way from both, which is what the replay theorem
  of the simulator is built from.
\<close>

subsection \<open>Labels and events\<close>

datatype tape_label =
    NetDelay | DropDecision | DuplicateDecision | ExtraDelay | CrashPoint | PartitionDraw
  | RestartDraw | ClockSkewDraw | Jitter | NemesisDraw | OtherDraw

primrec label_index :: "tape_label \<Rightarrow> nat" where
  "label_index NetDelay = 0"
| "label_index DropDecision = 1"
| "label_index DuplicateDecision = 2"
| "label_index ExtraDelay = 3"
| "label_index CrashPoint = 4"
| "label_index PartitionDraw = 5"
| "label_index RestartDraw = 6"
| "label_index ClockSkewDraw = 7"
| "label_index Jitter = 8"
| "label_index NemesisDraw = 9"
| "label_index OtherDraw = 10"

lemma label_index_inj: "label_index a = label_index b \<Longrightarrow> a = b"
  by (cases a; cases b) simp_all

text \<open>The derived \<^verbatim>\<open>Ord\<close>: declaration order.\<close>

instantiation tape_label :: linorder
begin

definition less_eq_tape_label :: "tape_label \<Rightarrow> tape_label \<Rightarrow> bool" where
  "less_eq_tape_label a b \<longleftrightarrow> label_index a \<le> label_index b"

definition less_tape_label :: "tape_label \<Rightarrow> tape_label \<Rightarrow> bool" where
  "less_tape_label a b \<longleftrightarrow> label_index a < label_index b"

instance
  by standard (auto simp: less_eq_tape_label_def less_tape_label_def dest: label_index_inj)

end

primrec label_as_str :: "tape_label \<Rightarrow> string" where
  "label_as_str NetDelay = ''net-delay''"
| "label_as_str DropDecision = ''drop-decision''"
| "label_as_str DuplicateDecision = ''duplicate-decision''"
| "label_as_str ExtraDelay = ''extra-delay''"
| "label_as_str CrashPoint = ''crash-point''"
| "label_as_str PartitionDraw = ''partition''"
| "label_as_str RestartDraw = ''restart''"
| "label_as_str ClockSkewDraw = ''clock-skew''"
| "label_as_str Jitter = ''jitter''"
| "label_as_str NemesisDraw = ''nemesis''"
| "label_as_str OtherDraw = ''other''"

lemma label_as_str_inj: "label_as_str a = label_as_str b \<Longrightarrow> a = b"
  by (cases a; cases b) simp_all

record tape_event =
  te_index :: nat
  te_label :: tape_label
  te_value :: u64

datatype entropy_tape =
    Generate split_mix64 "u64 list" "tape_event list"
  | Replay "u64 list" nat "u64 list" "tape_event list"

record tape_diagnostics =
  td_replaying :: bool
  td_input_len :: "nat option"
  td_cursor :: nat
  td_consumed_all :: bool
  td_exhausted :: bool

subsection \<open>Operations\<close>

definition tape_generate :: "u64 \<Rightarrow> entropy_tape" where
  "tape_generate s = Generate (sm_new (s XOR 0xA5A55A5ADEADBEEF)) [] []"

definition tape_replay :: "u64 list \<Rightarrow> entropy_tape" where
  "tape_replay tp = Replay tp 0 [] []"

fun draw :: "tape_label \<Rightarrow> entropy_tape \<Rightarrow> u64 \<times> entropy_tape" where
  "draw lab (Generate rng lg ev) =
     (let (v, rng') = next_u64 rng;
          index = length lg
      in (v, Generate rng' (lg @ [v]) (ev @ [\<lparr>te_index = index, te_label = lab, te_value = v\<rparr>])))"
| "draw lab (Replay tp cursor lg ev) =
     (let v = (if cursor < length tp then tp ! cursor else 0);
          index = cursor
      in (v, Replay tp (Suc cursor) (lg @ [v])
               (ev @ [\<lparr>te_index = index, te_label = lab, te_value = v\<rparr>])))"

primrec tape_log :: "entropy_tape \<Rightarrow> u64 list" where
  "tape_log (Generate rng lg ev) = lg"
| "tape_log (Replay tp cursor lg ev) = lg"

primrec tape_events :: "entropy_tape \<Rightarrow> tape_event list" where
  "tape_events (Generate rng lg ev) = ev"
| "tape_events (Replay tp cursor lg ev) = ev"

primrec tape_diagnostics_of :: "entropy_tape \<Rightarrow> tape_diagnostics" where
  "tape_diagnostics_of (Generate rng lg ev) =
     \<lparr>td_replaying = False, td_input_len = None, td_cursor = length lg,
      td_consumed_all = True, td_exhausted = False\<rparr>"
| "tape_diagnostics_of (Replay tp cursor lg ev) =
     \<lparr>td_replaying = True, td_input_len = Some (length tp), td_cursor = cursor,
      td_consumed_all = (length tp \<le> cursor), td_exhausted = (length tp < cursor)\<rparr>"

text \<open>A run of draws, with the labels the caller gives.\<close>

fun draws :: "tape_label list \<Rightarrow> entropy_tape \<Rightarrow> u64 list \<times> entropy_tape" where
  "draws [] t = ([], t)"
| "draws (lab # labs) t =
     (let (v, t') = draw lab t; (vs, t'') = draws labs t' in (v # vs, t''))"

subsection \<open>Well-formed tapes\<close>

primrec is_generate :: "entropy_tape \<Rightarrow> bool" where
  "is_generate (Generate rng lg ev) = True"
| "is_generate (Replay tp cursor lg ev) = False"

definition tape_wf :: "entropy_tape \<Rightarrow> bool" where
  "tape_wf t \<longleftrightarrow>
     map te_index (tape_events t) = [0..<length (tape_log t)]
     \<and> map te_value (tape_events t) = tape_log t
     \<and> td_cursor (tape_diagnostics_of t) = length (tape_log t)"

lemma tape_wf_generate [simp]: "tape_wf (tape_generate s)"
  by (simp add: tape_wf_def tape_generate_def)

lemma tape_wf_replay [simp]: "tape_wf (tape_replay tp)"
  by (simp add: tape_wf_def tape_replay_def)

lemma draw_log: "tape_log (snd (draw lab t)) = tape_log t @ [fst (draw lab t)]"
  by (cases t) (auto simp: Let_def split: prod.splits)

lemma draw_events:
  "tape_wf t \<Longrightarrow> tape_events (snd (draw lab t)) =
     tape_events t @ [\<lparr>te_index = length (tape_log t), te_label = lab, te_value = fst (draw lab t)\<rparr>]"
  by (cases t) (auto simp: tape_wf_def Let_def split: prod.splits)

lemma draw_is_generate [simp]: "is_generate (snd (draw lab t)) = is_generate t"
  by (cases t) (auto simp: Let_def split: prod.splits)

lemma draw_tape_wf: "tape_wf t \<Longrightarrow> tape_wf (snd (draw lab t))"
  by (cases t) (auto simp: tape_wf_def Let_def split: prod.splits)

lemma draws_log: "tape_log (snd (draws labs t)) = tape_log t @ fst (draws labs t)"
  by (induction labs arbitrary: t) (simp_all add: draw_log Let_def split_beta)

lemma draws_tape_wf: "tape_wf t \<Longrightarrow> tape_wf (snd (draws labs t))"
  by (induction labs arbitrary: t) (simp_all add: draw_tape_wf Let_def split_beta)

lemma draws_is_generate [simp]: "is_generate (snd (draws labs t)) = is_generate t"
  by (induction labs arbitrary: t) (simp_all add: Let_def split_beta)

lemma length_draws [simp]: "length (fst (draws labs t)) = length labs"
  by (induction labs arbitrary: t) (simp_all add: Let_def split_beta)

lemma draws_event_labels:
  "tape_wf t \<Longrightarrow> map te_label (tape_events (snd (draws labs t))) = map te_label (tape_events t) @ labs"
  by (induction labs arbitrary: t) (simp_all add: draw_events draw_tape_wf Let_def split_beta)

lemma tape_event_eqI:
  "te_index e = te_index e' \<Longrightarrow> te_label e = te_label e' \<Longrightarrow> te_value e = te_value e' \<Longrightarrow> e = (e' :: tape_event)"
  by simp

lemma tape_wf_events_eq:
  assumes "tape_wf t" and "tape_wf u" and "tape_log t = tape_log u"
    and "map te_label (tape_events t) = map te_label (tape_events u)"
  shows "tape_events t = tape_events u"
proof (rule nth_equalityI)
  have len: "length (tape_events t) = length (tape_log t)" "length (tape_events u) = length (tape_log u)"
    using assms(1,2) by (auto simp: tape_wf_def dest: arg_cong [where f = length])
  then show "length (tape_events t) = length (tape_events u)" using assms(3) by simp
  fix i
  assume i: "i < length (tape_events t)"
  then have iu: "i < length (tape_events u)" using len assms(3) by simp
  have nth: "map f (tape_events t) ! i = f (tape_events t ! i)"
    "map f (tape_events u) ! i = f (tape_events u ! i)" for f :: "tape_event \<Rightarrow> 'a"
    using i iu by simp_all
  show "tape_events t ! i = tape_events u ! i"
  proof (rule tape_event_eqI)
    show "te_index (tape_events t ! i) = te_index (tape_events u ! i)"
      using assms(1-3) i iu len nth(1) [of te_index] nth(2) [of te_index] by (simp add: tape_wf_def)
    show "te_label (tape_events t ! i) = te_label (tape_events u ! i)"
      using assms(4) nth(1) [of te_label] nth(2) [of te_label] by simp
    show "te_value (tape_events t ! i) = te_value (tape_events u ! i)"
      using assms(1-3) nth(1) [of te_value] nth(2) [of te_value] by (simp add: tape_wf_def)
  qed
qed

subsection \<open>Replaying a recording\<close>

definition rep_tape :: "u64 list \<Rightarrow> entropy_tape \<Rightarrow> entropy_tape" where
  "rep_tape L t = Replay L (length (tape_log t)) (tape_log t) (tape_events t)"

lemma rep_tape_log [simp]: "tape_log (rep_tape L t) = tape_log t"
  by (simp add: rep_tape_def)

lemma rep_tape_events [simp]: "tape_events (rep_tape L t) = tape_events t"
  by (simp add: rep_tape_def)

lemma rep_tape_start: "tape_log t = [] \<Longrightarrow> tape_events t = [] \<Longrightarrow> rep_tape L t = tape_replay L"
  by (simp add: rep_tape_def tape_replay_def)

lemma prefix_snoc_nth:
  assumes "prefix (xs @ [x]) L"
  shows "length xs < length L" and "L ! length xs = x"
  using assms by (auto simp: prefix_def nth_append)

lemma draw_rep_tape:
  assumes "tape_wf t" and "prefix (tape_log (snd (draw lab t))) L"
  shows "draw lab (rep_tape L t) = (fst (draw lab t), rep_tape L (snd (draw lab t)))"
proof -
  have pre: "prefix (tape_log t @ [fst (draw lab t)]) L"
    using assms(2) by (simp add: draw_log)
  show ?thesis
    using prefix_snoc_nth [OF pre] assms(1)
    by (simp add: rep_tape_def draw_log draw_events Let_def)
qed

lemma draws_rep_tape:
  "tape_wf t \<Longrightarrow> prefix (tape_log (snd (draws labs t))) L \<Longrightarrow>
     draws labs (rep_tape L t) = (fst (draws labs t), rep_tape L (snd (draws labs t)))"
proof (induction labs arbitrary: t)
  case (Cons lab labs)
  let ?t = "snd (draw lab t)"
  have wf: "tape_wf ?t" using Cons.prems(1) by (rule draw_tape_wf)
  have pre: "prefix (tape_log (snd (draws labs ?t))) L"
    using Cons.prems(2) by (simp add: Let_def split_beta)
  then have "prefix (tape_log ?t) L"
    by (simp add: draws_log) (rule append_prefixD)
  with Cons.prems(1) have "draw lab (rep_tape L t) = (fst (draw lab t), rep_tape L ?t)"
    by (rule draw_rep_tape)
  moreover have "draws labs (rep_tape L ?t) = (fst (draws labs ?t), rep_tape L (snd (draws labs ?t)))"
    using wf pre by (rule Cons.IH)
  ultimately show ?case by (simp add: Let_def split_beta)
qed simp

lemma rep_tape_diagnostics:
  "tape_diagnostics_of (rep_tape L t) =
     \<lparr>td_replaying = True, td_input_len = Some (length L), td_cursor = length (tape_log t),
      td_consumed_all = (length L \<le> length (tape_log t)), td_exhausted = (length L < length (tape_log t))\<rparr>"
  by (simp add: rep_tape_def)

text \<open>C20
  Recording and replay: whatever is drawn from a freshly seeded tape, under whatever labels, the tape
  that replays the recording yields the same values and the same labelled events, and ends with its
  input consumed and not exhausted.\<close>

theorem tape_replay_roundtrip:
  "let (vs, t) = draws labs (tape_generate s);
       (vs', t') = draws labs (tape_replay (tape_log t))
   in vs' = vs \<and> tape_log t' = tape_log t \<and> tape_events t' = tape_events t
      \<and> td_consumed_all (tape_diagnostics_of t') \<and> \<not> td_exhausted (tape_diagnostics_of t')"
proof -
  let ?r = "draws labs (tape_generate s)"
  let ?L = "tape_log (snd ?r)"
  have start: "rep_tape ?L (tape_generate s) = tape_replay ?L"
    by (rule rep_tape_start) (simp_all add: tape_generate_def)
  have "draws labs (rep_tape ?L (tape_generate s)) = (fst ?r, rep_tape ?L (snd ?r))"
    by (rule draws_rep_tape) simp_all
  then have "draws labs (tape_replay ?L) = (fst ?r, rep_tape ?L (snd ?r))"
    by (simp only: start)
  then show ?thesis
    by (simp add: Let_def split_beta rep_tape_diagnostics)
qed

text \<open>C32
  Replay is total and calm: the k-th value drawn from a replayed tape is the k-th value of the input,
  or 0 once the input is used up, whatever the labels are; and \<^verbatim>\<open>exhausted\<close> reports
  exactly that more values were drawn than the input holds.\<close>

theorem tape_replay_values:
  "fst (draws labs (tape_replay tp)) = map (\<lambda>k. if k < length tp then tp ! k else 0) [0..<length labs]
   \<and> td_exhausted (tape_diagnostics_of (snd (draws labs (tape_replay tp)))) = (length tp < length labs)
   \<and> td_consumed_all (tape_diagnostics_of (snd (draws labs (tape_replay tp)))) = (length tp \<le> length labs)"
proof -
  have "\<exists>lg' ev'. draws labs (Replay tp c lg ev) =
      (map (\<lambda>k. if k < length tp then tp ! k else 0) [c..<c + length labs],
       Replay tp (c + length labs) lg' ev')" for c lg ev
  proof (induction labs arbitrary: c lg ev)
    case (Cons lab labs)
    let ?v = "if c < length tp then tp ! c else 0"
    from Cons.IH [of "Suc c" "lg @ [?v]" "ev @ [\<lparr>te_index = c, te_label = lab, te_value = ?v\<rparr>]"]
    show ?case
      by (auto simp: Let_def upt_conv_Cons simp del: upt_Suc)
  qed simp
  from this [of 0 "[]" "[]"] show ?thesis
    by (auto simp: tape_replay_def)
qed

end
