(* ===== verification/Nemesis.thy ===== *)
theory Nemesis
  imports Core_Rng Ordered_Map "HOL-Library.Multiset"
begin

section \<open>Fault plans: connectivity, actions and plans\<close>

text \<open>
  Models \<^verbatim>\<open>crates/detersim-nemesis/src/lib.rs\<close>: the directed connectivity matrix,
  the fault actions, and the plans. \<open>plan\<close> has one constructor per implementation of
  \<^verbatim>\<open>NemesisPlan\<close>; \<open>next_action\<close> takes the \<^verbatim>\<open>NemesisDraw\<close> of the caller as a
  state-passing function and returns the emitted action, the plan after the call and the caller's
  state after its draws. The lemmas say which pairs a partition leaves connected, that
  \<^verbatim>\<open>RandomPartition\<close> splits the live nodes in two non-empty parts, and that
  \<^verbatim>\<open>Composite\<close> merges its children by time.
\<close>

type_synonym node_id = u32

subsection \<open>ConnectivityMatrix\<close>

record connectivity_matrix =
  cm_nodes :: "node_id set"
  cm_blocked :: "(node_id \<times> node_id) set"

definition cm_new :: connectivity_matrix where
  "cm_new = \<lparr>cm_nodes = {}, cm_blocked = {}\<rparr>"

definition cm_add_node :: "node_id \<Rightarrow> connectivity_matrix \<Rightarrow> connectivity_matrix" where
  "cm_add_node node c = c\<lparr>cm_nodes := insert node (cm_nodes c)\<rparr>"

definition is_connected :: "connectivity_matrix \<Rightarrow> node_id \<Rightarrow> node_id \<Rightarrow> bool" where
  "is_connected c a b \<longleftrightarrow> a \<in> cm_nodes c \<and> b \<in> cm_nodes c \<and> (a, b) \<notin> cm_blocked c"

definition cm_block :: "node_id \<Rightarrow> node_id \<Rightarrow> connectivity_matrix \<Rightarrow> connectivity_matrix" where
  "cm_block a b c = c\<lparr>cm_blocked := insert (a, b) (cm_blocked c)\<rparr>"

definition cm_allow :: "node_id \<Rightarrow> node_id \<Rightarrow> connectivity_matrix \<Rightarrow> connectivity_matrix" where
  "cm_allow a b c = c\<lparr>cm_blocked := cm_blocked c - {(a, b)}\<rparr>"

definition set_link :: "node_id \<Rightarrow> node_id \<Rightarrow> bool \<Rightarrow> connectivity_matrix \<Rightarrow> connectivity_matrix" where
  "set_link a b up c =
     (let c1 = cm_add_node b (cm_add_node a c)
      in if up then cm_allow a b c1 else cm_block a b c1)"

definition heal_all :: "connectivity_matrix \<Rightarrow> connectivity_matrix" where
  "heal_all c = c\<lparr>cm_blocked := {}\<rparr>"

text \<open>The \<^verbatim>\<open>group_of\<close> table of \<^verbatim>\<open>partition\<close>: a node listed twice belongs to the last group
  that lists it.\<close>

fun group_table :: "nat \<Rightarrow> node_id list list \<Rightarrow> (node_id, nat) btree_map \<Rightarrow> (node_id, nat) btree_map" where
  "group_table idx [] m = m"
| "group_table idx (gr # groups) m =
     group_table (Suc idx) groups (fold (\<lambda>node. btm_insert node idx) gr m)"

definition cm_partition :: "node_id list list \<Rightarrow> connectivity_matrix \<Rightarrow> connectivity_matrix" where
  "cm_partition groups c0 =
     (let c1 = heal_all c0;
          group_of = group_table 0 groups [];
          c2 = fold (\<lambda>gr. fold cm_add_node gr) groups c1;
          nodes = sorted_list_of_set (cm_nodes c2)
      in fold (\<lambda>a. fold (\<lambda>b c. if btm_get group_of a = btm_get group_of b then c else cm_block a b c) nodes)
           nodes c2)"

lemma is_connected_add_node [simp]:
  "is_connected (cm_add_node n c) a b \<longleftrightarrow>
     (a \<in> cm_nodes c \<or> a = n) \<and> (b \<in> cm_nodes c \<or> b = n) \<and> (a, b) \<notin> cm_blocked c"
  by (auto simp: is_connected_def cm_add_node_def)

lemma is_connected_set_link:
  "is_connected (set_link a b up c) x y \<longleftrightarrow>
     (if (x, y) = (a, b) then up
      else x \<in> insert a (insert b (cm_nodes c)) \<and> y \<in> insert a (insert b (cm_nodes c))
        \<and> (x, y) \<notin> cm_blocked c)"
  by (auto simp: is_connected_def set_link_def cm_add_node_def cm_allow_def cm_block_def Let_def)

lemma is_connected_heal_all:
  "is_connected (heal_all c) a b \<longleftrightarrow> a \<in> cm_nodes c \<and> b \<in> cm_nodes c"
  by (simp add: is_connected_def heal_all_def)

lemma fold_cm_add_node: "fold cm_add_node ns c = c\<lparr>cm_nodes := set ns \<union> cm_nodes c\<rparr>"
  by (induction ns arbitrary: c) (simp_all add: cm_add_node_def)

lemma fold_fold_cm_add_node:
  "fold (\<lambda>g. fold cm_add_node g) groups c = c\<lparr>cm_nodes := set (concat groups) \<union> cm_nodes c\<rparr>"
  by (induction groups arbitrary: c) (auto simp: fold_cm_add_node Un_ac)

lemma fold_cm_block:
  "fold (\<lambda>b c. if P b then c else cm_block a b c) ns c =
     c\<lparr>cm_blocked := {(a, b) |b. b \<in> set ns \<and> \<not> P b} \<union> cm_blocked c\<rparr>"
  by (induction ns arbitrary: c) (auto simp: cm_block_def intro!: arg_cong [where f = "\<lambda>s. cm_blocked_update (\<lambda>_. s) c" for c])

lemma fold_fold_cm_block:
  "fold (\<lambda>a. fold (\<lambda>b c. if P a b then c else cm_block a b c) ms) ns c =
     c\<lparr>cm_blocked := {(a, b). a \<in> set ns \<and> b \<in> set ms \<and> \<not> P a b} \<union> cm_blocked c\<rparr>"
  by (induction ns arbitrary: c)
    (auto simp: fold_cm_block intro!: arg_cong [where f = "\<lambda>s. cm_blocked_update (\<lambda>_. s) c" for c])

lemma cm_partition_nodes: "cm_nodes (cm_partition groups c) = set (concat groups) \<union> cm_nodes c"
  by (simp add: cm_partition_def Let_def fold_fold_cm_add_node fold_fold_cm_block heal_all_def)

lemma is_connected_partition_table:
  assumes "finite (cm_nodes c)"
  shows "is_connected (cm_partition groups c) a b \<longleftrightarrow>
     a \<in> cm_nodes (cm_partition groups c) \<and> b \<in> cm_nodes (cm_partition groups c)
     \<and> btm_get (group_table 0 groups []) a = btm_get (group_table 0 groups []) b"
  using assms
  by (auto simp: is_connected_def cm_partition_def Let_def fold_fold_cm_add_node fold_fold_cm_block heal_all_def)

lemma in_set_concat_nth: "k \<in> set (concat gs) \<longleftrightarrow> (\<exists>i < length gs. k \<in> set (gs ! i))"
  by (force simp: set_conv_nth [of gs])

lemma btm_get_fold_insert:
  "btm_get (fold (\<lambda>n. btm_insert n v) ns m) k = (if k \<in> set ns then Some v else btm_get m k)"
  by (induction ns arbitrary: m) auto

text \<open>The last group that lists a node.\<close>

definition last_group :: "node_id list list \<Rightarrow> node_id \<Rightarrow> nat option" where
  "last_group groups k =
     (let listing = filter (\<lambda>i. k \<in> set (groups ! i)) [0..<length groups]
      in if listing = [] then None else Some (last listing))"

lemma last_group_simps [simp]:
  "last_group [] k = None"
  "last_group (g # gs) k =
     (case last_group gs k of Some i \<Rightarrow> Some (Suc i) | None \<Rightarrow> if k \<in> set g then Some 0 else None)"
proof -
  have "[0..<length (g # gs)] = 0 # map Suc [0..<length gs]" by (simp add: upt_conv_Cons map_Suc_upt del: upt_Suc)
  then show "last_group (g # gs) k =
     (case last_group gs k of Some i \<Rightarrow> Some (Suc i) | None \<Rightarrow> if k \<in> set g then Some 0 else None)"
    by (simp add: last_group_def Let_def filter_map comp_def last_map del: upt_Suc)
qed (simp add: last_group_def)

lemma group_table_last:
  "btm_get (group_table idx groups m) k =
     (case last_group groups k of None \<Rightarrow> btm_get m k | Some i \<Rightarrow> Some (idx + i))"
  by (induction groups arbitrary: idx m) (auto simp: btm_get_fold_insert split: option.split)

lemma last_group_None: "last_group groups k = None \<longleftrightarrow> k \<notin> set (concat groups)"
  by (induction groups) (auto split: option.split)

lemma last_group_Some: "last_group groups k = Some i \<Longrightarrow> i < length groups \<and> k \<in> set (groups ! i)"
  by (induction groups arbitrary: i) (auto split: option.splits if_splits)

definition disjoint_groups :: "node_id list list \<Rightarrow> bool" where
  "disjoint_groups groups \<longleftrightarrow>
     (\<forall>i < length groups. \<forall>j < length groups. i \<noteq> j \<longrightarrow> set (groups ! i) \<inter> set (groups ! j) = {})"

lemma disjoint_groups_unique:
  "disjoint_groups groups \<Longrightarrow> i < length groups \<Longrightarrow> j < length groups \<Longrightarrow>
     k \<in> set (groups ! i) \<Longrightarrow> k \<in> set (groups ! j) \<Longrightarrow> j = i"
  unfolding disjoint_groups_def by blast

lemma last_group_disjoint:
  assumes "disjoint_groups groups"
  shows "last_group groups a = last_group groups b \<longleftrightarrow>
     (\<exists>gr \<in> set groups. a \<in> set gr \<and> b \<in> set gr) \<or> (a \<notin> set (concat groups) \<and> b \<notin> set (concat groups))"
proof (cases "last_group groups a")
  case None
  then show ?thesis using last_group_None [of groups a] last_group_None [of groups b] by auto
next
  case (Some i)
  then have i: "i < length groups" "a \<in> set (groups ! i)" using last_group_Some by blast+
  have "last_group groups b = Some i \<longleftrightarrow> b \<in> set (groups ! i)"
  proof
    assume b: "b \<in> set (groups ! i)"
    then have "last_group groups b \<noteq> None" using i(1) unfolding last_group_None by (auto intro: nth_mem)
    then obtain j where j: "last_group groups b = Some j" by blast
    then have "j = i" using disjoint_groups_unique [OF assms i(1) _ b] last_group_Some [OF j] by blast
    with j show "last_group groups b = Some i" by simp
  qed (simp add: last_group_Some)
  also have "\<dots> \<longleftrightarrow> (\<exists>gr \<in> set groups. a \<in> set gr \<and> b \<in> set gr)"
    using i disjoint_groups_unique [OF assms i(1) _ i(2)] by (metis in_set_conv_nth)
  finally show ?thesis using Some last_group_None [of groups a] by (auto dest: sym)
qed

lemma group_table_same:
  "btm_get (group_table 0 groups []) a = btm_get (group_table 0 groups []) b \<longleftrightarrow>
     last_group groups a = last_group groups b"
  by (simp add: group_table_last split: option.split)

text \<open>C37. After a partition two nodes are connected exactly when both are known, listed in a group or
  registered before, and the last group that lists them is the same one; the nodes no group lists form one further
  group. So the links inside a group are up, all cross-group links are blocked in both directions, whatever was blocked
  before is healed, and a node that several groups list belongs to the last of them. For pairwise disjoint groups this
  says that one group lists both nodes or no group lists either.\<close>

theorem partition_connects_groups:
  assumes "finite (cm_nodes c)"
  shows "(is_connected (cm_partition groups c) a b \<longleftrightarrow>
      {a, b} \<subseteq> set (concat groups) \<union> cm_nodes c \<and> last_group groups a = last_group groups b)
    \<and> (disjoint_groups groups \<longrightarrow>
      (last_group groups a = last_group groups b \<longleftrightarrow>
        (\<exists>gr \<in> set groups. a \<in> set gr \<and> b \<in> set gr)
        \<or> a \<notin> set (concat groups) \<and> b \<notin> set (concat groups)))"
  using last_group_disjoint [of groups a b]
  by (simp add: is_connected_partition_table [OF assms] cm_partition_nodes group_table_same del: set_concat)

theorem partition_connects_groups_witness:
  "let c = cm_partition [[0, 1], [0, 2]] cm_new in
     is_connected c 0 2 \<and> \<not> is_connected c 0 1 \<and> \<not> is_connected c 0 3"
proof -
  have fin: "finite (cm_nodes cm_new)" by (simp add: cm_new_def)
  note pc = partition_connects_groups [OF fin, of "[[0, 1], [0, 2]]", THEN conjunct1]
  show ?thesis by (simp add: pc Let_def)
qed

subsection \<open>Actions and views\<close>

datatype nemesis_action =
    Partition "node_id list list"
  | AsymmetricPartition node_id node_id
  | SetLink node_id node_id bool
  | HealAll
  | Crash node_id
  | Restart node_id
  | ClockSkew node_id int
  | BitRot node_id
  | TornWrite node_id
  | LostOnCrash node_id
  | PreFsyncReorder node_id

record world_view =
  wv_now :: sim_time
  wv_nodes :: "node_id list"
  wv_crashed :: "node_id set"
  wv_connectivity :: connectivity_matrix

definition world_view_new ::
  "sim_time \<Rightarrow> node_id list \<Rightarrow> node_id set \<Rightarrow> connectivity_matrix \<Rightarrow> world_view" where
  "world_view_new now nodes crashed c =
     \<lparr>wv_now = now, wv_nodes = remdups_adj (sort nodes), wv_crashed = crashed, wv_connectivity = c\<rparr>"

definition live_nodes :: "world_view \<Rightarrow> node_id list" where
  "live_nodes view = filter (\<lambda>node. node \<notin> wv_crashed view) (wv_nodes view)"

lemma distinct_remdups_adj_sorted: "sorted xs \<Longrightarrow> distinct (remdups_adj xs)"
  by (induction xs rule: remdups_adj.induct) (auto simp: order_antisym)

lemma live_nodes_view:
  "distinct (live_nodes (world_view_new now nodes crashed c))"
  "sorted (live_nodes (world_view_new now nodes crashed c))"
  "set (live_nodes (world_view_new now nodes crashed c)) = set nodes - crashed"
proof -
  have "sorted_wrt (<) (remdups_adj (sort nodes))"
    by (simp add: strict_sorted_iff distinct_remdups_adj_sorted)
  then have "sorted_wrt (<) (live_nodes (world_view_new now nodes crashed c))"
    by (simp add: live_nodes_def world_view_new_def sorted_wrt_filter)
  then show "distinct (live_nodes (world_view_new now nodes crashed c))"
    "sorted (live_nodes (world_view_new now nodes crashed c))"
    by (simp_all add: strict_sorted_iff)
qed (auto simp: live_nodes_def world_view_new_def)

subsection \<open>Plans\<close>

text \<open>
  \<open>Scripted actions cursor\<close>, \<open>RandomLink at_time candidates up emitted\<close>,
  \<open>RandomPart next_at interval_ns remaining\<close> and \<open>Composite plans pending\<close> are the
  structs \<^verbatim>\<open>ScriptedPlan\<close>, \<^verbatim>\<open>RandomLinkFault\<close>, \<^verbatim>\<open>RandomPartition\<close> and
  \<^verbatim>\<open>Composite\<close>, fields in their order.
\<close>

type_synonym timed_action = "sim_time \<times> nemesis_action"

datatype plan =
    Scripted "timed_action list" nat
  | RandomLink sim_time "(node_id \<times> node_id) list" bool bool
  | RandomPart sim_time u64 nat
  | Composite "plan list" "(nat \<times> timed_action) list"

definition scripted_plan_new :: "timed_action list \<Rightarrow> plan" where
  "scripted_plan_new actions = Scripted actions 0"

definition random_link_fault_new :: "sim_time \<Rightarrow> (node_id \<times> node_id) list \<Rightarrow> bool \<Rightarrow> plan" where
  "random_link_fault_new at_time candidates up = RandomLink at_time candidates up False"

definition random_partition_new :: "sim_time \<Rightarrow> u64 \<Rightarrow> nat \<Rightarrow> plan" where
  "random_partition_new start_at interval_ns actions = RandomPart start_at interval_ns actions"

definition composite_new :: "plan list \<Rightarrow> plan" where
  "composite_new plans = Composite plans []"

type_synonym 'd draw_fun = "string \<Rightarrow> 'd \<Rightarrow> u64 \<times> 'd"

definition scripted_next :: "timed_action list \<Rightarrow> nat \<Rightarrow> timed_action option \<times> nat" where
  "scripted_next actions cursor =
     (let next = (if cursor < length actions then Some (actions ! cursor) else None)
      in (next, cursor + (if next \<noteq> None then 1 else 0)))"

definition random_link_next ::
  "'d draw_fun \<Rightarrow> sim_time \<Rightarrow> (node_id \<times> node_id) list \<Rightarrow> bool \<Rightarrow> bool \<Rightarrow> 'd
     \<Rightarrow> timed_action option \<times> bool \<times> 'd" where
  "random_link_next dr at_time candidates up emitted d =
     (if emitted \<or> candidates = [] then (None, emitted, d)
      else let (v, d') = dr ''nemesis.link'' d;
               idx = unat v mod length candidates;
               (from_node, to_node) = candidates ! idx
           in (Some (at_time, SetLink from_node to_node up), True, d'))"

definition random_partition_next ::
  "'d draw_fun \<Rightarrow> world_view \<Rightarrow> sim_time \<Rightarrow> u64 \<Rightarrow> nat \<Rightarrow> 'd
     \<Rightarrow> timed_action option \<times> sim_time \<times> nat \<times> 'd" where
  "random_partition_next dr view next_at interval_ns remaining d =
     (if remaining = 0 then (None, next_at, remaining, d)
      else let nodes = live_nodes view in
        if length nodes < 2 then (None, next_at, remaining, d)
        else let at_time = next_at;
                 next_at' = time_saturating_add next_at (unat interval_ns);
                 (v, d') = dr ''nemesis.partition'' d;
                 pivot = 1 + unat v mod (length nodes - 1);
                 left = take pivot nodes;
                 right = drop pivot nodes
             in (Some (at_time, Partition [left, right]), next_at', remaining - 1, d'))"

text \<open>\<^verbatim>\<open>min_by_key(|(idx, (time, _))| (time, idx))\<close>: the first minimum.\<close>

fun min_pending :: "(nat \<times> timed_action) list \<Rightarrow> nat option" where
  "min_pending [] = None"
| "min_pending ((idx, (time, act)) # rest) =
     (case min_pending rest of
        None \<Rightarrow> Some idx
      | Some idx' \<Rightarrow>
          (case btm_get rest idx' of
             None \<Rightarrow> Some idx
           | Some (time', _) \<Rightarrow>
               if time < time' \<or> time = time' \<and> idx \<le> idx' then Some idx else Some idx'))"

fun next_action :: "'d draw_fun \<Rightarrow> world_view \<Rightarrow> plan \<Rightarrow> 'd \<Rightarrow> timed_action option \<times> plan \<times> 'd"
  and refill :: "'d draw_fun \<Rightarrow> world_view \<Rightarrow> nat \<Rightarrow> plan list \<Rightarrow> (nat, timed_action) btree_map \<Rightarrow> 'd
     \<Rightarrow> plan list \<times> (nat, timed_action) btree_map \<times> 'd" where
  "next_action dr view (Scripted actions cursor) d =
     (let (next, cursor') = scripted_next actions cursor in (next, Scripted actions cursor', d))"
| "next_action dr view (RandomLink at_time candidates up emitted) d =
     (let (next, emitted', d') = random_link_next dr at_time candidates up emitted d
      in (next, RandomLink at_time candidates up emitted', d'))"
| "next_action dr view (RandomPart next_at interval_ns remaining) d =
     (let (next, next_at', remaining', d') = random_partition_next dr view next_at interval_ns remaining d
      in (next, RandomPart next_at' interval_ns remaining', d'))"
| "next_action dr view (Composite plans pending) d =
     (let (plans', pending', d') = refill dr view 0 plans pending d
      in case min_pending pending' of
           None \<Rightarrow> (None, Composite plans' pending', d')
         | Some selected \<Rightarrow>
             (btm_get pending' selected, Composite plans' (btm_remove selected pending'), d'))"
| "refill dr view idx [] pending d = ([], pending, d)"
| "refill dr view idx (p # ps) pending d =
     (let (p', pending', d') =
        (if btm_contains idx pending then (p, pending, d)
         else let (next, p', d') = next_action dr view p d
              in (p', (case next of None \<Rightarrow> pending | Some a \<Rightarrow> btm_insert idx a pending), d'))
      in let (ps', pending'', d'') = refill dr view (Suc idx) ps pending' d'
         in (p' # ps', pending'', d''))"

text \<open>\<^verbatim>\<open>RandomPartition\<close> emits exactly while actions remain and at least two nodes
  live; the action splits the live nodes, in order, into two non-empty groups, at the scheduled
  time, with one draw, and the next action is one interval later. Otherwise nothing changes.\<close>

lemma random_partition_splits_live:
  "case random_partition_next dr view next_at interval_ns remaining d of (emitted, next_at', remaining', d') \<Rightarrow>
     (if 0 < remaining \<and> 2 \<le> length (live_nodes view)
      then \<exists>left right. emitted = Some (next_at, Partition [left, right])
             \<and> left \<noteq> [] \<and> right \<noteq> [] \<and> left @ right = live_nodes view
             \<and> next_at' = time_saturating_add next_at (unat interval_ns) \<and> remaining' = remaining - 1
             \<and> d' = snd (dr ''nemesis.partition'' d)
      else emitted = None \<and> next_at' = next_at \<and> remaining' = remaining \<and> d' = d)"
proof (cases "0 < remaining \<and> 2 \<le> length (live_nodes view)")
  case True
  let ?n = "length (live_nodes view)"
  let ?pivot = "1 + unat (fst (dr ''nemesis.partition'' d)) mod (?n - 1)"
  have "unat (fst (dr ''nemesis.partition'' d)) mod (?n - 1) < ?n - 1"
    using True by (intro mod_less_divisor) simp
  then have "0 < ?pivot \<and> ?pivot < ?n" by simp
  then have "take ?pivot (live_nodes view) \<noteq> []" "drop ?pivot (live_nodes view) \<noteq> []" by auto
  then show ?thesis
    using True by (simp add: random_partition_next_def Let_def split_beta)
qed (auto simp: random_partition_next_def Let_def)

subsection \<open>The merge of a Composite\<close>

lemma min_pending_None: "min_pending m = None \<longleftrightarrow> m = []"
  by (cases m rule: min_pending.cases) (auto split: option.splits prod.splits)

lemma min_pending_Some:
  assumes "btm_wf m" and "min_pending m = Some i"
  shows "\<exists>time act. btm_get m i = Some (time, act)
     \<and> (\<forall>j time' act'. btm_get m j = Some (time', act') \<longrightarrow> time < time' \<or> time = time' \<and> i \<le> j)"
  using assms
proof (induction m arbitrary: i rule: min_pending.induct)
  case (2 idx time act rest)
  have wf: "btm_wf rest" and fresh: "btm_get rest idx = None"
    using 2(2) by (auto simp: btm_wf_Cons btm_keys_dom)
  show ?case
  proof (cases "min_pending rest")
    case None
    then show ?thesis using 2(3) by (simp add: min_pending_None)
  next
    case (Some k)
    from 2(1) [OF wf Some] obtain t a where k: "btm_get rest k = Some (t, a)"
      and least: "\<And>j t' a'. btm_get rest j = Some (t', a') \<Longrightarrow> t < t' \<or> t = t' \<and> k \<le> j" by blast
    have "k \<noteq> idx" using k fresh by auto
    then show ?thesis
      using 2(3) Some k least by (fastforce split: if_splits)
  qed
qed simp

primrec is_scripted :: "plan \<Rightarrow> bool" where
  "is_scripted (Scripted actions cursor) = True"
| "is_scripted (RandomLink t cs up e) = False"
| "is_scripted (RandomPart t iv r) = False"
| "is_scripted (Composite ps pend) = False"

fun script_rest :: "plan \<Rightarrow> timed_action list" where
  "script_rest (Scripted actions cursor) = drop cursor actions"
| "script_rest _ = []"

text \<open>What child \<open>idx\<close> has still to emit: its pending action and the rest of its script.\<close>

definition child_rest :: "(nat, timed_action) btree_map \<Rightarrow> plan list \<Rightarrow> nat \<Rightarrow> nat \<Rightarrow> timed_action list" where
  "child_rest pending plans idx i =
     (case btm_get pending (idx + i) of None \<Rightarrow> [] | Some a \<Rightarrow> [a]) @ script_rest (plans ! i)"

lemma next_action_scripted:
  assumes "is_scripted p" and "next_action dr view p d = (next, p', d')"
  shows "is_scripted p'" and "d' = d"
    and "script_rest p = (case next of None \<Rightarrow> [] | Some a \<Rightarrow> [a]) @ script_rest p'"
    and "next = None \<Longrightarrow> script_rest p = []"
proof -
  obtain acts c where p: "p = Scripted acts c" using assms(1) by (cases p) simp_all
  have "is_scripted p' \<and> d' = d
      \<and> script_rest p = (case next of None \<Rightarrow> [] | Some a \<Rightarrow> [a]) @ script_rest p'
      \<and> (next = None \<longrightarrow> script_rest p = [])"
  proof (cases "c < length acts")
    case True
    then show ?thesis using assms(2) by (auto simp: p scripted_next_def Let_def Cons_nth_drop_Suc)
  qed (use assms(2) in \<open>auto simp: p scripted_next_def Let_def\<close>)
  then show "is_scripted p'" and "d' = d"
    and "script_rest p = (case next of None \<Rightarrow> [] | Some a \<Rightarrow> [a]) @ script_rest p'"
    and "next = None \<Longrightarrow> script_rest p = []" by blast+
qed

text \<open>Refilling keeps what every child has still to emit, and leaves a child without a pending
  action only when its script is over.\<close>

lemma refill_scripted:
  assumes "\<forall>p \<in> set ps. is_scripted p" and "btm_wf pending"
    and "refill dr view idx ps pending d = (ps', pending', d')"
  shows "d' = d \<and> length ps' = length ps \<and> (\<forall>p \<in> set ps'. is_scripted p) \<and> btm_wf pending'
    \<and> (\<forall>j. j < idx \<or> idx + length ps \<le> j \<longrightarrow> btm_get pending' j = btm_get pending j)
    \<and> (\<forall>i < length ps. child_rest pending' ps' idx i = child_rest pending ps idx i
         \<and> (btm_get pending' (idx + i) = None \<longrightarrow> child_rest pending' ps' idx i = []))"
  using assms
proof (induction ps arbitrary: idx pending d ps' pending' d')
  case (Cons p ps)
  define r where "r = (if btm_contains idx pending then (p, pending, d)
      else let (next, p', d') = next_action dr view p d
           in (p', (case next of None \<Rightarrow> pending | Some a \<Rightarrow> btm_insert idx a pending), d'))"
  obtain q pend1 d1 where r: "r = (q, pend1, d1)" by (cases r)
  obtain qs pend2 d2 where rec: "refill dr view (Suc idx) ps pend1 d1 = (qs, pend2, d2)"
    by (cases "refill dr view (Suc idx) ps pend1 d1")
  have res: "ps' = q # qs" "pending' = pend2" "d' = d2"
    using Cons.prems(3) r rec by (simp_all add: r_def [symmetric])
  have p: "is_scripted p" using Cons.prems(1) by simp
  have step: "d1 = d \<and> is_scripted q \<and> btm_wf pend1 \<and> (\<forall>j. j \<noteq> idx \<longrightarrow> btm_get pend1 j = btm_get pending j)
      \<and> (case btm_get pend1 idx of None \<Rightarrow> [] | Some a \<Rightarrow> [a]) @ script_rest q
        = (case btm_get pending idx of None \<Rightarrow> [] | Some a \<Rightarrow> [a]) @ script_rest p
      \<and> (btm_get pend1 idx = None \<longrightarrow> script_rest q = [])"
  proof (cases "btm_contains idx pending")
    case True
    then show ?thesis using r Cons.prems(2) p by (auto simp: r_def btm_contains_def)
  next
    case False
    obtain nx' p' e where na: "next_action dr view p d = (nx', p', e)"
      by (cases "next_action dr view p d")
    have none: "btm_get pending idx = None" using False unfolding btm_contains_def by blast
    show ?thesis
      using r False na next_action_scripted [OF p na] Cons.prems(2)
      by (cases nx') (auto simp: r_def none)
  qed
  have ih: "d2 = d1 \<and> length qs = length ps \<and> (\<forall>p \<in> set qs. is_scripted p) \<and> btm_wf pend2
    \<and> (\<forall>j. j < Suc idx \<or> Suc idx + length ps \<le> j \<longrightarrow> btm_get pend2 j = btm_get pend1 j)
    \<and> (\<forall>i < length ps. child_rest pend2 qs (Suc idx) i = child_rest pend1 ps (Suc idx) i
         \<and> (btm_get pend2 (Suc idx + i) = None \<longrightarrow> child_rest pend2 qs (Suc idx) i = []))"
    using Cons.prems(1) step rec by (intro Cons.IH) auto
  have child: "child_rest pend2 (q # qs) idx i = child_rest pending (p # ps) idx i
      \<and> (btm_get pend2 (idx + i) = None \<longrightarrow> child_rest pend2 (q # qs) idx i = [])"
    if "i < Suc (length ps)" for i
  proof (cases i)
    case 0
    then show ?thesis using step ih by (simp add: child_rest_def)
  next
    case (Suc i')
    then have "i' < length ps" using that by simp
    with ih step Suc show ?thesis by (auto simp: child_rest_def)
  qed
  have "\<forall>i < length (p # ps). child_rest pend2 (q # qs) idx i = child_rest pending (p # ps) idx i
      \<and> (btm_get pend2 (idx + i) = None \<longrightarrow> child_rest pend2 (q # qs) idx i = [])"
    using child by (metis length_Cons)
  moreover have "\<forall>j. j < idx \<or> idx + length (p # ps) \<le> j \<longrightarrow> btm_get pend2 j = btm_get pending j"
    using step ih by auto
  moreover have "d2 = d" "length (q # qs) = length (p # ps)" "\<forall>p \<in> set (q # qs). is_scripted p" "btm_wf pend2"
    using step ih by simp_all
  ultimately show ?case
    unfolding res by (intro conjI)
qed simp

text \<open>The loop of a driver that asks the plan for at most \<open>n\<close> actions.\<close>

fun plan_run :: "'d draw_fun \<Rightarrow> world_view \<Rightarrow> nat \<Rightarrow> plan \<Rightarrow> 'd \<Rightarrow> timed_action list" where
  "plan_run dr view 0 p d = []"
| "plan_run dr view (Suc n) p d =
     (case next_action dr view p d of
        (None, p', d') \<Rightarrow> []
      | (Some a, p', d') \<Rightarrow> a # plan_run dr view n p' d')"

definition composite_rest :: "(nat, timed_action) btree_map \<Rightarrow> plan list \<Rightarrow> timed_action multiset" where
  "composite_rest pending plans = (\<Sum>i < length plans. mset (child_rest pending plans 0 i))"

definition composite_ok :: "(nat, timed_action) btree_map \<Rightarrow> plan list \<Rightarrow> bool" where
  "composite_ok pending plans \<longleftrightarrow>
     btm_wf pending \<and> (\<forall>p \<in> set plans. is_scripted p)
     \<and> (\<forall>j. length plans \<le> j \<longrightarrow> btm_get pending j = None)
     \<and> (\<forall>i < length plans. sorted (map fst (child_rest pending plans 0 i)))"

lemma composite_rest_refill:
  assumes ok: "composite_ok pending ps" and refill: "refill dr view 0 ps pending d = (ps', pending', d')"
  shows "composite_ok pending' ps'" and "composite_rest pending' ps' = composite_rest pending ps"
    and "\<And>i. i < length ps' \<Longrightarrow> btm_get pending' i = None \<Longrightarrow> child_rest pending' ps' 0 i = []"
proof -
  have wf: "\<forall>p \<in> set ps. is_scripted p" "btm_wf pending"
    using ok by (simp_all add: composite_ok_def)
  note rf = refill_scripted [OF wf refill, simplified]
  have len: "length ps' = length ps" using rf by blast
  have same: "child_rest pending' ps' 0 i = child_rest pending ps 0 i" if "i < length ps" for i
    using rf that by blast
  have far: "btm_get pending' j = None" if "length ps \<le> j" for j
  proof -
    from rf that have "btm_get pending' j = btm_get pending j" by blast
    then show ?thesis using ok that by (simp add: composite_ok_def)
  qed
  show "composite_ok pending' ps'"
    unfolding composite_ok_def len
  proof (intro conjI allI impI)
    show "btm_wf pending'" "\<forall>p \<in> set ps'. is_scripted p" using rf by blast+
    show "btm_get pending' j = None" if "length ps \<le> j" for j using far that .
    show "sorted (map fst (child_rest pending' ps' 0 i))" if "i < length ps" for i
      using ok that by (simp add: same composite_ok_def)
  qed
  show "composite_rest pending' ps' = composite_rest pending ps"
    unfolding composite_rest_def len by (rule sum.cong) (simp_all add: same)
  show "child_rest pending' ps' 0 i = []" if "i < length ps'" "btm_get pending' i = None" for i
    using rf that len by metis
qed

lemma composite_rest_remove:
  assumes "i < length ps" and "btm_get pending i = Some a"
  shows "composite_rest pending ps = add_mset a (composite_rest (btm_remove i pending) ps)"
proof -
  have i: "i \<in> {..<length ps}" using assms(1) by simp
  have at_i: "mset (child_rest pending ps 0 i) = add_mset a (mset (child_rest (btm_remove i pending) ps 0 i))"
    using assms(2) by (simp add: child_rest_def)
  have others: "(\<Sum>j \<in> {..<length ps} - {i}. mset (child_rest pending ps 0 j))
      = (\<Sum>j \<in> {..<length ps} - {i}. mset (child_rest (btm_remove i pending) ps 0 j))"
    by (rule sum.cong) (simp_all add: child_rest_def)
  show ?thesis
    unfolding composite_rest_def sum.remove [OF finite_lessThan i] at_i others by simp
qed

lemma composite_ok_remove:
  assumes "composite_ok pending ps"
  shows "composite_ok (btm_remove i pending) ps"
proof -
  have "sorted (map fst (child_rest (btm_remove i pending) ps 0 j))"
    if "sorted (map fst (child_rest pending ps 0 j))" for j
    using that by (auto simp: child_rest_def split: option.splits)
  then show ?thesis using assms by (auto simp: composite_ok_def)
qed

lemma composite_rest_ge:
  assumes ok: "composite_ok pending ps"
    and full: "\<And>j. j < length ps \<Longrightarrow> btm_get pending j = None \<Longrightarrow> child_rest pending ps 0 j = []"
    and least: "\<And>j time' act'. btm_get pending j = Some (time', act') \<Longrightarrow> (time :: sim_time) \<le> time'"
    and x: "x \<in># composite_rest pending ps"
  shows "time \<le> fst x"
proof -
  obtain j where j: "j < length ps" "x \<in> set (child_rest pending ps 0 j)"
    using x by (auto simp: composite_rest_def set_mset_sum)
  obtain t' a' where p: "btm_get pending j = Some (t', a')"
  proof (cases "btm_get pending j")
    case None
    with full [OF j(1)] j(2) show ?thesis by simp
  next
    case (Some h)
    with that show ?thesis by (cases h) simp
  qed
  have "sorted (map fst (child_rest pending ps 0 j))"
    using ok j(1) by (simp add: composite_ok_def)
  then have "t' \<le> fst x" using j(2) p by (auto simp: child_rest_def)
  moreover have "time \<le> t'" using least [OF p] .
  ultimately show ?thesis by (rule order_trans [rotated])
qed

lemma plan_run_composite:
  assumes "composite_ok pending ps" and "size (composite_rest pending ps) \<le> n"
  shows "sorted (map fst (plan_run dr view n (Composite ps pending) d))
    \<and> mset (plan_run dr view n (Composite ps pending) d) = composite_rest pending ps"
  using assms
proof (induction n arbitrary: ps pending d)
  case (Suc n)
  obtain ps' pend' d' where refill: "refill dr view 0 ps pending d = (ps', pend', d')"
    by (cases "refill dr view 0 ps pending d")
  note rf = composite_rest_refill [OF Suc.prems(1) refill]
  have wf: "btm_wf pend'" using rf(1) by (simp add: composite_ok_def)
  show ?case
  proof (cases "min_pending pend'")
    case None
    then have "pend' = []" by (simp add: min_pending_None)
    then have "composite_rest pend' ps' = {#}"
      using rf(3) by (simp add: composite_rest_def)
    then show ?thesis using refill None rf(2) by simp
  next
    case (Some i)
    from min_pending_Some [OF wf Some] obtain t a where i: "btm_get pend' i = Some (t, a)"
      and least: "\<And>j t' a'. btm_get pend' j = Some (t', a') \<Longrightarrow> t \<le> t'"
      by (metis order_less_imp_le order_refl)
    have i_len: "i < length ps'"
      using rf(1) i by (auto simp: composite_ok_def not_less [symmetric])
    let ?next = "btm_remove i pend'"
    have rest: "composite_rest pending ps = add_mset (t, a) (composite_rest ?next ps')"
      using composite_rest_remove [of i ps' pend', OF i_len i] rf(2) by simp
    have ok: "composite_ok ?next ps'" using rf(1) by (rule composite_ok_remove)
    have ih: "sorted (map fst (plan_run dr view n (Composite ps' ?next) d'))
        \<and> mset (plan_run dr view n (Composite ps' ?next) d') = composite_rest ?next ps'"
      using ok Suc.prems(2) rest by (intro Suc.IH) simp_all
    have "t \<le> fst x" if "x \<in> set (plan_run dr view n (Composite ps' ?next) d')" for x
    proof -
      have "x \<in># composite_rest ?next ps'" using that ih by (metis set_mset_mset)
      then have "x \<in># composite_rest pend' ps'" using rest rf(2) by simp
      with rf(1) rf(3) least show ?thesis by (rule composite_rest_ge)
    qed
    with ih rest refill Some i show ?thesis by simp
  qed
qed simp

text \<open>C27
  A \<^verbatim>\<open>Composite\<close> of scripts that are each in time order is their merge: asked
  for enough actions, it emits every action of every script exactly once, in time order.\<close>

theorem composite_merges_scripts:
  assumes "\<forall>actions \<in> set scripts. sorted (map fst actions)" and "length (concat scripts) \<le> n"
  shows "sorted (map fst (plan_run dr view n (composite_new (map scripted_plan_new scripts)) d))
    \<and> mset (plan_run dr view n (composite_new (map scripted_plan_new scripts)) d) = mset (concat scripts)"
proof -
  let ?ps = "map scripted_plan_new scripts"
  have child: "child_rest [] ?ps 0 i = scripts ! i" if "i < length scripts" for i
    using that by (simp add: child_rest_def scripted_plan_new_def)
  have "composite_rest [] ?ps = (\<Sum>i < length scripts. mset (scripts ! i))"
    unfolding composite_rest_def length_map by (rule sum.cong) (simp_all add: child)
  also have "\<dots> = mset (concat scripts)"
    by (simp add: mset_concat sum_list_sum_nth atLeast0LessThan)
  finally have rest: "composite_rest [] ?ps = mset (concat scripts)" .
  have "sorted (map fst (child_rest [] ?ps 0 i))" if "i < length scripts" for i
    unfolding child [OF that] using assms(1) that by simp
  then have "composite_ok [] ?ps"
    by (auto simp: composite_ok_def scripted_plan_new_def)
  then show ?thesis
    using plan_run_composite [of "[]" ?ps n dr view d] assms(2)
    by (simp add: rest composite_new_def)
qed

theorem composite_merges_scripts_witness:
  "mset (plan_run (\<lambda>_ d. (0, d)) (world_view_new 0 [] {} cm_new) 3
     (composite_new (map scripted_plan_new [[(1, HealAll), (5, Crash 2)], [(3, Restart 2)]])) ())
   = mset [(1, HealAll), (5, Crash 2), (3, Restart 2)]"
  using composite_merges_scripts [of "[[(1, HealAll), (5, Crash 2)], [(3, Restart 2)]]" 3 "\<lambda>_ d. (0, d)" "world_view_new 0 [] {} cm_new" "()"]
  by simp

end
