(* ===== verification/Page_Store.thy ===== *)
theory Page_Store
  imports Prelude
begin

unbundle bit_operations_syntax

section \<open>The storage device of a node\<close>

text \<open>
  Models \<^verbatim>\<open>PageStore\<close> and \<^verbatim>\<open>apply_bytes\<close> of
  \<^verbatim>\<open>crates/detersim-sim/src/lib.rs\<close>: the bytes a reader sees (pending), the bytes a
  crash falls back to (committed), and the writes since the last flush. \<open>None\<close> is a panic: a
  buffer longer than \<^verbatim>\<open>isize::MAX\<close> bytes, or a slice that starts past the end. The
  invariant \<open>ps_wf\<close> says that pending is committed with the logged writes applied in order.
\<close>

type_synonym byte_write = "u64 \<times> u8 list"

record page_store =
  ps_pending :: "u8 list"
  ps_committed :: "u8 list"
  ps_write_log :: "byte_write list"

definition page_store_default :: page_store where
  "page_store_default = \<lparr>ps_pending = [], ps_committed = [], ps_write_log = []\<rparr>"

definition isize_max :: nat where
  "isize_max = 2 ^ 63 - 1"

definition apply_bytes :: "u8 list \<Rightarrow> u64 \<Rightarrow> u8 list \<Rightarrow> u8 list option" where
  "apply_bytes target offset data =
     (let start = unat offset;
          finish = start + length data
      in if isize_max < finish then None
         else let resized = (if length target < finish
                             then target @ replicate (finish - length target) 0 else target)
              in Some (take start resized @ data @ drop finish resized))"

fun apply_log :: "byte_write list \<Rightarrow> u8 list \<Rightarrow> u8 list option" where
  "apply_log [] target = Some target"
| "apply_log ((offset, data) # log) target =
     (case apply_bytes target offset data of None \<Rightarrow> None | Some target' \<Rightarrow> apply_log log target')"

definition ps_write_at :: "u64 \<Rightarrow> u8 list \<Rightarrow> bool \<Rightarrow> page_store \<Rightarrow> page_store option" where
  "ps_write_at offset data torn s =
     (let data_len = (if torn \<and> 1 < length data then (length data + 1) div 2 else length data);
          written = take data_len data
      in case apply_bytes (ps_pending s) offset written of
           None \<Rightarrow> None
         | Some pending \<Rightarrow>
             Some (s\<lparr>ps_pending := pending, ps_write_log := ps_write_log s @ [(offset, written)]\<rparr>))"

text \<open>The number of bytes read and the caller's buffer afterwards.\<close>

definition ps_read_at :: "page_store \<Rightarrow> u64 \<Rightarrow> u8 list \<Rightarrow> (nat \<times> u8 list) option" where
  "ps_read_at s offset out =
     (let start = unat offset;
          avail = length (ps_pending s) - start;
          n = min (length out) avail
      in if length (ps_pending s) < start then None
         else Some (n, take n (drop start (ps_pending s)) @ drop n out))"

definition ps_flush :: "bool \<Rightarrow> page_store \<Rightarrow> page_store option" where
  "ps_flush pre_fsync_reorder s =
     (if pre_fsync_reorder \<and> 1 < length (ps_write_log s)
      then (case apply_log (rev (ps_write_log s)) (ps_committed s) of
              None \<Rightarrow> None
            | Some committed \<Rightarrow>
                Some \<lparr>ps_pending = committed, ps_committed = committed, ps_write_log = []\<rparr>)
      else Some (s\<lparr>ps_committed := ps_pending s, ps_write_log := []\<rparr>))"

definition ps_len :: "page_store \<Rightarrow> nat" where
  "ps_len s = length (ps_pending s)"

definition ps_crash_recover :: "bool \<Rightarrow> page_store \<Rightarrow> page_store" where
  "ps_crash_recover bit_rot s =
     (let pending = ps_committed s
      in if bit_rot
         then let rotten = (case pending of [] \<Rightarrow> [] | b # bs \<Rightarrow> (b XOR 1) # bs)
              in \<lparr>ps_pending = rotten, ps_committed = rotten, ps_write_log = []\<rparr>
         else s\<lparr>ps_pending := pending, ps_write_log := []\<rparr>)"

subsection \<open>One write\<close>

lemma apply_bytes_None_iff: "apply_bytes t off d = None \<longleftrightarrow> isize_max < unat off + length d"
  by (simp add: apply_bytes_def Let_def)

lemma length_apply_bytes:
  "apply_bytes t off d = Some t' \<Longrightarrow> length t' = max (length t) (unat off + length d)"
  by (auto simp: apply_bytes_def Let_def split: if_splits)

lemma nth_apply_bytes:
  assumes "apply_bytes t off d = Some t'" and "i < length t'"
  shows "t' ! i = (if unat off \<le> i \<and> i < unat off + length d then d ! (i - unat off)
                   else if i < length t then t ! i else 0)"
proof -
  let ?start = "unat off" and ?finish = "unat off + length d"
  define r where "r = (if length t < ?finish then t @ replicate (?finish - length t) 0 else t)"
  have len: "length r = max (length t) ?finish" by (simp add: r_def)
  have r: "j < length r \<Longrightarrow> r ! j = (if j < length t then t ! j else 0)" for j
    by (auto simp: r_def nth_append)
  have t': "t' = take ?start r @ d @ drop ?finish r"
    using assms(1) by (simp add: apply_bytes_def Let_def r_def split: if_splits)
  have take: "length (take ?start r) = ?start" using len by simp
  show ?thesis
  proof (cases "i < ?start")
    case True
    then show ?thesis using r [of i] take len by (simp add: t' nth_append)
  next
    case False
    have "length t' = max (length t) ?finish" using assms(1) by (rule length_apply_bytes)
    then show ?thesis
      using False r [of i] assms(2) len unfolding t' nth_append take by auto
  qed
qed

definition write_range :: "byte_write \<Rightarrow> nat set" where
  "write_range w = {unat (fst w)..<unat (fst w) + length (snd w)}"

lemma apply_bytes_commute:
  assumes "apply_bytes t o1 d1 = Some t1" and "apply_bytes t1 o2 d2 = Some t12"
    and "write_range (o1, d1) \<inter> write_range (o2, d2) = {}"
  shows "\<exists>t2. apply_bytes t o2 d2 = Some t2 \<and> apply_bytes t2 o1 d1 = Some t12"
proof -
  have ok1: "\<not> isize_max < unat o1 + length d1" and ok2: "\<not> isize_max < unat o2 + length d2"
    using assms(1,2) by (auto simp: apply_bytes_def Let_def split: if_splits)
  obtain t2 where t2: "apply_bytes t o2 d2 = Some t2" using ok2 by (simp add: apply_bytes_def Let_def)
  obtain t21 where t21: "apply_bytes t2 o1 d1 = Some t21" using ok1 by (simp add: apply_bytes_def Let_def)
  have len: "length t21 = length t12"
    using assms(1,2) t2 t21 by (simp add: length_apply_bytes)
  have "t21 = t12"
  proof (rule nth_equalityI [OF len])
    fix i
    assume i: "i < length t21"
    have apart: "\<not> (unat o1 \<le> i \<and> i < unat o1 + length d1 \<and> unat o2 \<le> i \<and> i < unat o2 + length d2)"
      using assms(3) by (auto simp: write_range_def)
    show "t21 ! i = t12 ! i"
      using i len apart nth_apply_bytes [OF t21, of i] nth_apply_bytes [OF assms(2), of i]
        nth_apply_bytes [OF t2, of i] nth_apply_bytes [OF assms(1), of i]
        length_apply_bytes [OF assms(1)] length_apply_bytes [OF t2]
        length_apply_bytes [OF t21] length_apply_bytes [OF assms(2)]
      by (auto simp: max_def split: if_splits)
  qed
  with t2 t21 show ?thesis by blast
qed

lemma apply_log_append:
  "apply_log (l @ l') t = (case apply_log l t of None \<Rightarrow> None | Some t' \<Rightarrow> apply_log l' t')"
  by (induction l arbitrary: t) (auto split: option.splits)

subsection \<open>Disjoint writes in any order\<close>

definition disjoint_writes :: "byte_write list \<Rightarrow> bool" where
  "disjoint_writes log \<longleftrightarrow> sorted_wrt (\<lambda>w w'. write_range w \<inter> write_range w' = {}) log"

lemma apply_log_move_last:
  assumes "apply_log ((off, d) # log) t = Some t'"
    and "\<forall>w \<in> set log. write_range (off, d) \<inter> write_range w = {}"
  shows "apply_log (log @ [(off, d)]) t = Some t'"
  using assms
proof (induction log arbitrary: t)
  case Nil
  then show ?case by (simp split: option.splits)
next
  case (Cons w log)
  obtain o2 d2 where w: "w = (o2, d2)" by (cases w)
  obtain t1 t12 where t1: "apply_bytes t off d = Some t1" and t12: "apply_bytes t1 o2 d2 = Some t12"
    and rest: "apply_log log t12 = Some t'"
    using Cons.prems(1) w by (auto split: option.splits)
  obtain t2 where t2: "apply_bytes t o2 d2 = Some t2" "apply_bytes t2 off d = Some t12"
    using apply_bytes_commute [OF t1 t12] Cons.prems(2) w by auto
  have "apply_log ((off, d) # log) t2 = Some t'" using t2(2) rest by simp
  then have "apply_log (log @ [(off, d)]) t2 = Some t'"
    using Cons.prems(2) by (intro Cons.IH) simp_all
  then show ?case using w t2(1) by simp
qed

lemma apply_log_rev:
  assumes "disjoint_writes log" and "apply_log log t = Some t'"
  shows "apply_log (rev log) t = Some t'"
  using assms
proof (induction log arbitrary: t)
  case (Cons w log)
  obtain off d where w: "w = (off, d)" by (cases w)
  obtain t1 where t1: "apply_bytes t off d = Some t1" "apply_log log t1 = Some t'"
    using Cons.prems(2) w by (auto split: option.splits)
  have "apply_log (rev log) t1 = Some t'"
    using Cons.prems(1) t1(2) by (intro Cons.IH) (simp_all add: disjoint_writes_def)
  with t1(1) have "apply_log ((off, d) # rev log) t = Some t'" by simp
  then have "apply_log (rev log @ [(off, d)]) t = Some t'"
    by (rule apply_log_move_last) (use Cons.prems(1) w in \<open>auto simp: disjoint_writes_def\<close>)
  then show ?case using w by simp
qed simp

subsection \<open>The invariant\<close>

definition ps_wf :: "page_store \<Rightarrow> bool" where
  "ps_wf s \<longleftrightarrow> apply_log (ps_write_log s) (ps_committed s) = Some (ps_pending s)"

datatype device_op =
    DeviceWrite u64 "u8 list" bool
  | DeviceFlush bool
  | DeviceCrash bool

primrec is_device_write :: "device_op \<Rightarrow> bool" where
  "is_device_write (DeviceWrite offset data torn) = True"
| "is_device_write (DeviceFlush reorder) = False"
| "is_device_write (DeviceCrash bit_rot) = False"

fun device_step :: "device_op \<Rightarrow> page_store \<Rightarrow> page_store option" where
  "device_step (DeviceWrite offset data torn) s = ps_write_at offset data torn s"
| "device_step (DeviceFlush reorder) s = ps_flush reorder s"
| "device_step (DeviceCrash bit_rot) s = Some (ps_crash_recover bit_rot s)"

lemma ps_wf_default [simp]: "ps_wf page_store_default"
  by (simp add: ps_wf_def page_store_default_def)

lemma ps_wf_write: "ps_wf s \<Longrightarrow> ps_write_at off d torn s = Some s' \<Longrightarrow> ps_wf s'"
  by (auto simp: ps_wf_def ps_write_at_def Let_def apply_log_append split: option.splits)

lemma ps_wf_flush: "ps_wf s \<Longrightarrow> ps_flush r s = Some s' \<Longrightarrow> ps_wf s'"
  by (auto simp: ps_wf_def ps_flush_def split: option.splits if_splits)

lemma ps_wf_crash [simp]: "ps_wf (ps_crash_recover b s)"
  by (simp add: ps_wf_def ps_crash_recover_def Let_def)

lemma ps_wf_step: "ps_wf s \<Longrightarrow> device_step e s = Some s' \<Longrightarrow> ps_wf s'"
  by (cases e) (auto intro: ps_wf_write ps_wf_flush)

lemma apply_log_None_iff:
  "apply_log l t = None \<longleftrightarrow> (\<exists>w \<in> set l. isize_max < unat (fst w) + length (snd w))"
proof (induction l arbitrary: t)
  case (Cons w l)
  obtain off d where w: "w = (off, d)" by (cases w)
  show ?case
    using Cons.IH apply_bytes_None_iff [of t off d] by (auto simp: w split: option.splits)
qed simp

text \<open>A flush of a well-formed device never panics.\<close>

lemma ps_flush_total: "ps_wf s \<Longrightarrow> \<exists>s'. ps_flush r s = Some s'"
proof -
  assume "ps_wf s"
  then have "apply_log (ps_write_log s) (ps_committed s) \<noteq> None" by (simp add: ps_wf_def)
  then have "apply_log (rev (ps_write_log s)) (ps_committed s) \<noteq> None"
    unfolding apply_log_None_iff by simp
  then show ?thesis by (auto simp: ps_flush_def)
qed

fun device_run :: "device_op list \<Rightarrow> page_store \<Rightarrow> page_store option" where
  "device_run [] s = Some s"
| "device_run (e # es) s = (case device_step e s of None \<Rightarrow> None | Some s' \<Rightarrow> device_run es s')"

lemma device_run_wf: "ps_wf s \<Longrightarrow> device_run es s = Some s' \<Longrightarrow> ps_wf s'"
  by (induction es arbitrary: s) (auto split: option.splits dest: ps_wf_step)

lemma ps_flush_result: "ps_flush r s = Some s' \<Longrightarrow> ps_write_log s' = [] \<and> ps_pending s' = ps_committed s'"
  by (auto simp: ps_flush_def split: if_splits option.splits)

lemma ps_write_committed: "ps_write_at off d torn s = Some s' \<Longrightarrow> ps_committed s' = ps_committed s"
  by (auto simp: ps_write_at_def Let_def split: option.splits)

lemma device_run_writes_committed:
  "\<forall>e \<in> set es. is_device_write e \<Longrightarrow> device_run es s = Some s' \<Longrightarrow>
     ps_committed s' = ps_committed s"
proof (induction es arbitrary: s)
  case (Cons e es)
  then obtain off d torn s1 where "e = DeviceWrite off d torn" "ps_write_at off d torn s = Some s1"
      "device_run es s1 = Some s'"
    by (cases e) (auto split: option.splits)
  with Cons ps_write_committed show ?case by simp
qed simp

text \<open>C18
  The device invariant holds after every sequence of writes (torn or not), flushes (reordered or not)
  and crashes (with bit rot or not): what a reader sees is the committed bytes with the writes since
  the last flush applied in order; and in such a state a flush never panics.\<close>

theorem page_store_invariant:
  assumes "device_run es page_store_default = Some s"
  shows "apply_log (ps_write_log s) (ps_committed s) = Some (ps_pending s) \<and> ps_flush r s \<noteq> None"
  using device_run_wf [OF ps_wf_default assms] ps_flush_total [of s r] by (auto simp: ps_wf_def)

theorem page_store_invariant_witness:
  "ps_flush True \<lparr>ps_pending = [0, 7, 8], ps_committed = [], ps_write_log = [(1, [7, 8])]\<rparr> \<noteq> None"
  using page_store_invariant [of "[DeviceWrite 1 [7, 8, 9] True]"
      "\<lparr>ps_pending = [0, 7, 8], ps_committed = [], ps_write_log = [(1, [7, 8])]\<rparr>" True]
  by (simp add: ps_write_at_def apply_bytes_def isize_max_def page_store_default_def Let_def)

lemma flush_then_crash:
  assumes "ps_flush r s = Some s1" and "\<forall>e \<in> set es. is_device_write e" and "device_run es s1 = Some s2"
  shows "ps_crash_recover rot s2 = (if rot then ps_crash_recover True s1 else s1)"
  using device_run_writes_committed [OF assms(2,3)] ps_flush_result [OF assms(1)]
  by (auto simp: ps_crash_recover_def Let_def intro!: page_store.equality)

lemma plain_flush_pending: "\<not> r \<Longrightarrow> ps_flush r s = Some s1 \<Longrightarrow> ps_pending s1 = ps_pending s"
  by (auto simp: ps_flush_def)

text \<open>C26
  The reordering fault is invisible to a program whose unflushed writes do not overlap: a reordered
  flush then gives the same device as a plain one.\<close>

theorem reordered_flush_disjoint:
  assumes "device_run es page_store_default = Some s" and "disjoint_writes (ps_write_log s)"
  shows "ps_flush True s = ps_flush False s"
proof -
  have "apply_log (ps_write_log s) (ps_committed s) = Some (ps_pending s)"
    using device_run_wf [OF ps_wf_default assms(1)] by (simp add: ps_wf_def)
  with assms(2) have "apply_log (rev (ps_write_log s)) (ps_committed s) = Some (ps_pending s)"
    by (rule apply_log_rev)
  then show ?thesis by (simp add: ps_flush_def)
qed

theorem reordered_flush_disjoint_witness:
  "ps_flush True \<lparr>ps_pending = [1, 2], ps_committed = [], ps_write_log = [(1, [2]), (0, [1])]\<rparr>
   = ps_flush False \<lparr>ps_pending = [1, 2], ps_committed = [], ps_write_log = [(1, [2]), (0, [1])]\<rparr>"
  by (rule reordered_flush_disjoint [of "[DeviceWrite 1 [2] False, DeviceWrite 0 [1] False]"])
    (simp_all add: ps_write_at_def apply_bytes_def isize_max_def page_store_default_def Let_def
      disjoint_writes_def write_range_def)

text \<open>C35
  Reading back: after an untorn write of \<open>data\<close> at \<open>offset\<close>, a read there of at most
  that many bytes returns exactly the bytes written; a torn write of several bytes leaves the first
  half (rounded up) readable.\<close>

theorem write_read_roundtrip:
  assumes "ps_write_at offset data torn s = Some s'"
    and "length out \<le> (if torn then (length data + 1) div 2 else length data)"
  shows "ps_read_at s' offset out = Some (length out, take (length out) data)"
proof -
  define k where "k = (if torn \<and> 1 < length data then (length data + 1) div 2 else length data)"
  have k: "k \<le> length data" "length out \<le> k" using assms(2) by (auto simp: k_def split: if_splits)
  obtain p where p: "apply_bytes (ps_pending s) offset (take k data) = Some p" "ps_pending s' = p"
    using assms(1) by (auto simp: ps_write_at_def k_def Let_def split: option.splits)
  have len: "length p = max (length (ps_pending s)) (unat offset + k)"
    using length_apply_bytes [OF p(1)] k(1) by simp
  have "take (length out) (drop (unat offset) p) = take (length out) data"
  proof (rule nth_equalityI)
    show "length (take (length out) (drop (unat offset) p)) = length (take (length out) data)"
      using len k by simp
    fix i
    assume "i < length (take (length out) (drop (unat offset) p))"
    then show "take (length out) (drop (unat offset) p) ! i = take (length out) data ! i"
      using nth_apply_bytes [OF p(1), of "unat offset + i"] k len by simp
  qed
  then show ?thesis
    using len k p(2) by (simp add: ps_read_at_def Let_def)
qed

theorem write_read_roundtrip_witness:
  "ps_read_at \<lparr>ps_pending = [0, 7, 8], ps_committed = [], ps_write_log = [(1, [7, 8])]\<rparr> 1 [0, 0]
     = Some (2, [7, 8])"
  using write_read_roundtrip [of 1 "[7, 8, 9]" True page_store_default
      "\<lparr>ps_pending = [0, 7, 8], ps_committed = [], ps_write_log = [(1, [7, 8])]\<rparr>" "[0, 0]"]
  by (simp add: ps_write_at_def apply_bytes_def isize_max_def page_store_default_def Let_def)

end
