(* ===== verification/Event_Queue.thy ===== *)
theory Event_Queue
  imports Nemesis "HOL-Library.Multiset"
begin

section \<open>The event queue\<close>

text \<open>
  Models \<^verbatim>\<open>EventKind\<close>, \<^verbatim>\<open>Keyed\<close> with its order, and the
  \<^verbatim>\<open>BinaryHeap<Reverse<Keyed>>\<close> of \<^verbatim>\<open>crates/detersim-sim/src/lib.rs\<close>.
  The heap is the list of its events in dispatch order. The locale \<open>event_queue_laws\<close> states what
  the simulator relies on: a pop returns a least event by (time, seq) and leaves the others.
  Sequence numbers are \<open>nat\<close> (the code's \<^verbatim>\<open>u64\<close> counter only ever counts up by one).
\<close>

type_synonym message = "u8 list"
type_synonym task_id = nat
type_synonym timer_id = nat

datatype event_kind =
    PollTask task_id
  | TimerFire timer_id
  | DeliverMsg node_id node_id message
  | NemesisEvent nemesis_action

record keyed =
  k_time :: sim_time
  k_seq :: nat
  k_kind :: event_kind

definition keyed_less :: "keyed \<Rightarrow> keyed \<Rightarrow> bool" where
  "keyed_less a b \<longleftrightarrow> k_time a < k_time b \<or> k_time a = k_time b \<and> k_seq a < k_seq b"

fun queue_push :: "keyed \<Rightarrow> keyed list \<Rightarrow> keyed list" where
  "queue_push e [] = [e]"
| "queue_push e (x # q) = (if keyed_less e x then e # x # q else x # queue_push e q)"

fun queue_pop :: "keyed list \<Rightarrow> (keyed \<times> keyed list) option" where
  "queue_pop [] = None"
| "queue_pop (e # q) = Some (e, q)"

text \<open>The heap rebuilt from the events that pass a test.\<close>

definition queue_filter :: "(keyed \<Rightarrow> bool) \<Rightarrow> keyed list \<Rightarrow> keyed list" where
  "queue_filter P q = fold queue_push (filter P q) []"

lemma keyed_less_trans: "keyed_less a b \<Longrightarrow> keyed_less b c \<Longrightarrow> keyed_less a c"
  by (auto simp: keyed_less_def)

lemma keyed_less_total: "k_seq a \<noteq> k_seq b \<Longrightarrow> keyed_less a b \<or> keyed_less b a"
  by (auto simp: keyed_less_def)

lemma keyed_less_irrefl: "\<not> keyed_less a a"
  by (simp add: keyed_less_def)

definition queue_wf :: "keyed list \<Rightarrow> bool" where
  "queue_wf q \<longleftrightarrow> sorted_wrt keyed_less q \<and> distinct (map k_seq q)"

lemma mset_queue_push [simp]: "mset (queue_push e q) = add_mset e (mset q)"
  by (induction q) auto

lemma set_queue_push [simp]: "set (queue_push e q) = insert e (set q)"
  by (metis mset_queue_push set_mset_add_mset_insert set_mset_mset)

lemma queue_push_not_Nil [simp]: "queue_push e q \<noteq> []"
  by (cases q) auto

lemma sorted_queue_push:
  assumes "sorted_wrt keyed_less q" and "k_seq e \<notin> k_seq ` set q"
  shows "sorted_wrt keyed_less (queue_push e q)"
  using assms
proof (induction q)
  case (Cons x q)
  show ?case
  proof (cases "keyed_less e x")
    case True
    then show ?thesis using Cons.prems(1) by (auto intro: keyed_less_trans)
  next
    case False
    then have "keyed_less x e" using keyed_less_total [of e x] Cons.prems(2) by auto
    then show ?thesis using False Cons by simp
  qed
qed simp

lemma distinct_queue_push:
  "distinct (map k_seq (queue_push e q)) \<longleftrightarrow> k_seq e \<notin> k_seq ` set q \<and> distinct (map k_seq q)"
  by (induction q) (auto simp: image_iff)

lemma queue_wf_push: "queue_wf q \<Longrightarrow> k_seq e \<notin> k_seq ` set q \<Longrightarrow> queue_wf (queue_push e q)"
  by (simp add: queue_wf_def sorted_queue_push distinct_queue_push)

lemma queue_push_last:
  "\<forall>x \<in> set q. keyed_less x e \<Longrightarrow> queue_push e q = q @ [e]"
  by (induction q) (auto dest: keyed_less_trans simp: keyed_less_irrefl)

lemma fold_queue_push_sorted:
  "sorted_wrt keyed_less (acc @ q) \<Longrightarrow> fold queue_push q acc = acc @ q"
proof (induction q arbitrary: acc)
  case (Cons e q)
  then have "queue_push e acc = acc @ [e]"
    by (intro queue_push_last) (auto simp: sorted_wrt_append)
  with Cons show ?case by simp
qed simp

lemma queue_filter_wf:
  assumes "queue_wf q"
  shows "queue_filter P q = filter P q" and "queue_wf (queue_filter P q)"
proof -
  have s: "sorted_wrt keyed_less ([] @ filter P q)" "distinct (map k_seq (filter P q))"
    using assms by (auto simp: queue_wf_def sorted_wrt_filter distinct_map_filter)
  show "queue_filter P q = filter P q"
    unfolding queue_filter_def using fold_queue_push_sorted [OF s(1)] by simp
  with s show "queue_wf (queue_filter P q)" by (simp add: queue_wf_def)
qed

subsection \<open>The interface\<close>

locale event_queue_laws =
  fixes none_queued :: 'q
    and push :: "'e \<Rightarrow> 'q \<Rightarrow> 'q"
    and pop :: "'q \<Rightarrow> ('e \<times> 'q) option"
    and contents :: "'q \<Rightarrow> 'e multiset"
    and key :: "'e \<Rightarrow> 'k"
    and before :: "'e \<Rightarrow> 'e \<Rightarrow> bool"
    and wf :: "'q \<Rightarrow> bool"
  assumes contents_none: "contents none_queued = {#}"
    and contents_push: "contents (push e q) = add_mset e (contents q)"
    and pop_None: "pop q = None \<longleftrightarrow> contents q = {#}"
    and pop_contents: "pop q = Some (e, q') \<Longrightarrow> contents q = add_mset e (contents q')"
    and pop_before: "wf q \<Longrightarrow> pop q = Some (e, q') \<Longrightarrow> x \<in># contents q' \<Longrightarrow> before e x"
    and wf_none: "wf none_queued"
    and wf_push: "wf q \<Longrightarrow> key e \<notin> key ` set_mset (contents q) \<Longrightarrow> wf (push e q)"
    and wf_pop: "wf q \<Longrightarrow> pop q = Some (e, q') \<Longrightarrow> wf q'"
    and before_trans: "before a b \<Longrightarrow> before b c \<Longrightarrow> before a c"
    and before_irrefl: "\<not> before a a"
begin

text \<open>Popping until the queue is empty.\<close>

fun drain :: "nat \<Rightarrow> 'q \<Rightarrow> 'e list" where
  "drain 0 q = []"
| "drain (Suc n) q = (case pop q of None \<Rightarrow> [] | Some (e, q') \<Rightarrow> e # drain n q')"

lemma drain_all: "size (contents q) \<le> n \<Longrightarrow> mset (drain n q) = contents q"
proof (induction n arbitrary: q)
  case 0
  then show ?case by simp
next
  case (Suc n)
  show ?case
  proof (cases "pop q")
    case None
    then have "contents q = {#}" by (simp only: pop_None)
    with None show ?thesis by simp
  next
    case (Some r)
    obtain e q' where r: "r = (e, q')" by (cases r)
    with Some have "contents q = add_mset e (contents q')" by (simp add: pop_contents)
    with Suc Some r show ?thesis by simp
  qed
qed

lemma drain_subset: "x \<in> set (drain n q) \<Longrightarrow> x \<in># contents q"
proof (induction n arbitrary: q)
  case (Suc n)
  then obtain e q' where "pop q = Some (e, q')" "x = e \<or> x \<in> set (drain n q')"
    by (cases "pop q") auto
  with Suc.IH [of q'] show ?case by (auto simp: pop_contents)
qed simp

lemma drain_sorted: "wf q \<Longrightarrow> sorted_wrt before (drain n q)"
proof (induction n arbitrary: q)
  case (Suc n)
  show ?case
  proof (cases "pop q")
    case (Some r)
    obtain e q' where r: "r = (e, q')" by (cases r)
    with Suc.prems Some have "wf q'" by (auto intro: wf_pop)
    moreover have "before e x" if "x \<in> set (drain n q')" for x
      using drain_subset [OF that] pop_before [OF Suc.prems, of e q' x] Some r by auto
    ultimately show ?thesis using Some r Suc.IH by simp
  qed simp
qed simp

text \<open>An event pushed before all others is the next one popped.\<close>

lemma pop_push_first:
  assumes "wf q" and "key e \<notin> key ` set_mset (contents q)" and "\<And>x. x \<in># contents q \<Longrightarrow> before e x"
  shows "\<exists>q'. pop (push e q) = Some (e, q') \<and> contents q' = contents q"
proof -
  have wf: "wf (push e q)" using assms(1,2) by (rule wf_push)
  have "pop (push e q) \<noteq> None" by (simp add: pop_None contents_push)
  then obtain x q' where p: "pop (push e q) = Some (x, q')" by auto
  then have c: "add_mset e (contents q) = add_mset x (contents q')"
    using pop_contents [of "push e q"] by (simp add: contents_push)
  have "x = e"
  proof (rule ccontr)
    assume ne: "x \<noteq> e"
    then have "e \<in># contents q'" "x \<in># contents q" using c by (auto simp: add_eq_conv_ex)
    then have "before x e" "before e x" using pop_before [OF wf p] assms(3) by blast+
    then show False using before_trans before_irrefl by blast
  qed
  with c p show ?thesis by simp
qed

end

interpretation eq: event_queue_laws "[]" queue_push queue_pop mset k_seq keyed_less queue_wf
proof unfold_locales
  fix q :: "keyed list" and e q'
  show "(queue_pop q = None) = (mset q = {#})" by (cases q) auto
  show "queue_pop q = Some (e, q') \<Longrightarrow> mset q = add_mset e (mset q')" by (cases q) auto
  show "queue_wf q \<Longrightarrow> queue_pop q = Some (e, q') \<Longrightarrow> x \<in># mset q' \<Longrightarrow> keyed_less e x" for x
    by (cases q) (auto simp: queue_wf_def)
  show "queue_wf q \<Longrightarrow> queue_pop q = Some (e, q') \<Longrightarrow> queue_wf q'"
    by (cases q) (auto simp: queue_wf_def)
  show "queue_wf q \<Longrightarrow> k_seq e \<notin> k_seq ` set_mset (mset q) \<Longrightarrow> queue_wf (queue_push e q)"
    by (simp add: queue_wf_push)
next
  show "keyed_less a b \<Longrightarrow> keyed_less b c \<Longrightarrow> keyed_less a c" for a b c by (rule keyed_less_trans)
qed (simp_all add: queue_wf_def keyed_less_irrefl)

lemma mset_queue_filter [simp]: "mset (queue_filter P q) = filter_mset P (mset q)"
proof -
  have "mset (fold queue_push xs ys) = mset xs + mset ys" for xs ys
    by (induction xs arbitrary: ys) simp_all
  then show ?thesis by (simp add: queue_filter_def)
qed

lemma set_queue_filter: "set (queue_filter P q) = {e \<in> set q. P e}"
proof -
  have "set_mset (mset (queue_filter P q)) = {e \<in> set q. P e}" by simp
  then show ?thesis by (simp only: set_mset_mset)
qed

end
