(* ===== verification/Sim_State.thy ===== *)
theory Sim_State
  imports Event_Queue Entropy_Tape Page_Store Text_Format
begin

unbundle bit_operations_syntax

section \<open>The simulator's state and its operations\<close>

text \<open>
  Models the state \<^verbatim>\<open>Inner\<close> of \<^verbatim>\<open>crates/detersim-sim/src/lib.rs\<close> and the
  operations of \<^verbatim>\<open>impl Inner\<close>. The record \<open>inner\<close> has the fields of the struct in
  their order. Three things differ from the struct: \<open>'f\<close> stands for the futures of the system under
  test, which a task slot holds as a \<open>box_fut\<close> (a node's own future, or the wrapper that
  \<^verbatim>\<open>spawn\<close> puts around one); the join slots, which the code keeps on the heap behind
  \<^verbatim>\<open>Rc<RefCell<..>>\<close>, are a table \<open>in_join_slots\<close> indexed by allocation order; and the
  text lines of the two traces are kept as values (\<open>trace_entry\<close>, \<open>nemesis_action\<close>).
  Counters are \<open>nat\<close>, times are \<open>u64\<close>, clock skews (\<^verbatim>\<open>i64\<close>, computed with as
  \<^verbatim>\<open>i128\<close>) are \<open>int\<close>. A panic is a value of \<open>panic\<close>; arithmetic is checked, as in
  the profiles the tests run with.
\<close>

subsection \<open>Types\<close>

datatype panic =
    SleepOutsideTask
  | RecvOutsideTask
  | JoinOutsideTask
  | JoinOutputTaken
  | SliceOutOfRange
  | BufferTooLong
  | ArithmeticOverflow
  | NodeRegisteredTwice

record world_config =
  wc_horizon_ns :: u64
  wc_max_events :: nat

definition world_config_default :: world_config where
  "world_config_default = \<lparr>wc_horizon_ns = 60000000000, wc_max_events = 5000000\<rparr>"

datatype 'f box_fut =
    NodeFut node_id 'f
  | SpawnFut node_id 'f nat

primrec fut_node :: "'f box_fut \<Rightarrow> node_id" where
  "fut_node (NodeFut node f) = node"
| "fut_node (SpawnFut node f slot) = node"

record 'f task_slot =
  ts_node :: node_id
  ts_future :: "'f box_fut option"

record timer_waiter =
  tw_task :: task_id

record 'v join_slot =
  js_done :: bool
  js_output :: "'v option"
  js_joiners :: "task_id list"

record fault_config =
  fc_connectivity :: connectivity_matrix
  fc_drop_percent :: u32
  fc_duplicate_percent :: u32
  fc_extra_delay_ms :: u64
  fc_clock_skew_ns :: "(node_id, int) btree_map"
  fc_bit_rot_nodes :: "node_id set"
  fc_torn_write_nodes :: "node_id set"
  fc_lost_on_crash_nodes :: "node_id set"
  fc_pre_fsync_reorder_nodes :: "node_id set"

definition fault_config_default :: fault_config where
  "fault_config_default =
     \<lparr>fc_connectivity = cm_new, fc_drop_percent = 0, fc_duplicate_percent = 0, fc_extra_delay_ms = 0,
      fc_clock_skew_ns = [], fc_bit_rot_nodes = {}, fc_torn_write_nodes = {},
      fc_lost_on_crash_nodes = {}, fc_pre_fsync_reorder_nodes = {}\<rparr>"

datatype restart_outcome =
    Restarted node_id
  | NodeMissing node_id
  | NodeNotCrashed node_id
  | MissingFactory node_id

text \<open>A line of the trace: a dispatched event as \<^verbatim>\<open>render\<close> prints it, or a message that was
  dropped, or not sent.\<close>

datatype trace_entry =
    Dispatched sim_time nat event_kind
  | DropUnregistered sim_time nat node_id node_id
  | DropCrashed sim_time nat node_id node_id
  | DropPartition sim_time nat node_id node_id
  | DropRandom sim_time nat node_id node_id
  | SendFromCrashed node_id node_id

type_synonym 'f node_factory = "node_id \<Rightarrow> 'f"

record ('f, 'v) inner =
  in_now :: sim_time
  in_seq :: nat
  in_queue :: "keyed list"
  in_tasks :: "(task_id, 'f task_slot) btree_map"
  in_next_task_id :: task_id
  in_current_task :: "task_id option"
  in_nodes :: "node_id set"
  in_factories :: "(node_id, 'f node_factory) btree_map"
  in_crashed :: "node_id set"
  in_inboxes :: "(node_id, (node_id \<times> message) list) btree_map"
  in_recv_waiters :: "(node_id, task_id list) btree_map"
  in_timers :: "(timer_id, timer_waiter) btree_map"
  in_next_timer_id :: timer_id
  in_storage :: "(node_id, page_store) btree_map"
  in_faults :: fault_config
  in_tape :: entropy_tape
  in_rng_counter :: "(node_id, nat) btree_map"
  in_last_local_now :: "(node_id, sim_time) btree_map"
  in_config :: world_config
  in_seed :: u64
  in_trace :: "trace_entry list"
  in_nemesis_trace :: "nemesis_action list"
  in_history :: "string list"
  in_dispatched :: nat
  in_join_slots :: "'v join_slot list"

subsection \<open>Events, tasks, timers\<close>

definition push_event :: "sim_time \<Rightarrow> event_kind \<Rightarrow> ('f, 'v) inner \<Rightarrow> ('f, 'v) inner" where
  "push_event time kind g =
     g\<lparr>in_seq := Suc (in_seq g),
       in_queue := queue_push \<lparr>k_time = time, k_seq = in_seq g, k_kind = kind\<rparr> (in_queue g)\<rparr>"

definition enqueue_poll_now :: "task_id \<Rightarrow> ('f, 'v) inner \<Rightarrow> ('f, 'v) inner" where
  "enqueue_poll_now task g = push_event (in_now g) (PollTask task) g"

definition add_task :: "node_id \<Rightarrow> 'f box_fut \<Rightarrow> ('f, 'v) inner \<Rightarrow> task_id \<times> ('f, 'v) inner" where
  "add_task node fut g =
     (let task = in_next_task_id g
      in (task, g\<lparr>in_next_task_id := Suc task,
                  in_tasks := btm_insert task \<lparr>ts_node = node, ts_future = Some fut\<rparr> (in_tasks g)\<rparr>))"

definition tape_draw :: "tape_label \<Rightarrow> ('f, 'v) inner \<Rightarrow> u64 \<times> ('f, 'v) inner" where
  "tape_draw lab g = (let (v, t) = draw lab (in_tape g) in (v, g\<lparr>in_tape := t\<rparr>))"

definition draw_net_delay_ms :: "('f, 'v) inner \<Rightarrow> panic + (nat \<times> ('f, 'v) inner)" where
  "draw_net_delay_ms g =
     (let (v, g1) = tape_draw NetDelay g;
          base = 1 + unat v mod 100;
          extra = unat (fc_extra_delay_ms (in_faults g))
      in if extra = 0 then Inr (base, g1)
         else let (w, g2) = tape_draw ExtraDelay g1
              in if extra = u64_max then Inl ArithmeticOverflow
                 else let delay = base + unat w mod (extra + 1)
                      in if u64_max < delay then Inl ArithmeticOverflow else Inr (delay, g2))"

definition draw_percent :: "u32 \<Rightarrow> tape_label \<Rightarrow> ('f, 'v) inner \<Rightarrow> bool \<times> ('f, 'v) inner" where
  "draw_percent percent lab g =
     (if 0 < percent
      then let (v, g') = tape_draw lab g in (unat v mod 100 < min (unat percent) 100, g')
      else (False, g))"

definition register_recv_waiter :: "node_id \<Rightarrow> task_id \<Rightarrow> ('f, 'v) inner \<Rightarrow> ('f, 'v) inner" where
  "register_recv_waiter node task g =
     (let waiters = btm_get_or [] (in_recv_waiters g) node;
          waiters' = (if task \<in> set waiters then waiters else waiters @ [task])
      in g\<lparr>in_recv_waiters := btm_insert node waiters' (in_recv_waiters g)\<rparr>)"

definition unregister_recv_waiter :: "node_id \<Rightarrow> task_id \<Rightarrow> ('f, 'v) inner \<Rightarrow> ('f, 'v) inner" where
  "unregister_recv_waiter node task g =
     (case btm_get (in_recv_waiters g) node of
        None \<Rightarrow> g
      | Some waiters \<Rightarrow>
          g\<lparr>in_recv_waiters := btm_insert node (filter (\<lambda>t. t \<noteq> task) waiters) (in_recv_waiters g)\<rparr>)"

definition register_timer :: "task_id \<Rightarrow> sim_time \<Rightarrow> ('f, 'v) inner \<Rightarrow> timer_id \<times> ('f, 'v) inner" where
  "register_timer task deadline g =
     (let timer = in_next_timer_id g;
          g1 = g\<lparr>in_next_timer_id := Suc timer,
                 in_timers := btm_insert timer \<lparr>tw_task = task\<rparr> (in_timers g)\<rparr>
      in (timer, push_event deadline (TimerFire timer) g1))"

definition cancel_timer :: "timer_id \<Rightarrow> ('f, 'v) inner \<Rightarrow> ('f, 'v) inner" where
  "cancel_timer timer g = g\<lparr>in_timers := btm_remove timer (in_timers g)\<rparr>"

subsection \<open>Generators and clocks\<close>

definition sut_rng_seed :: "u64 \<Rightarrow> node_id \<Rightarrow> nat \<Rightarrow> u64" where
  "sut_rng_seed s node n =
     s * 0xD1B54A32D192ED03 XOR word_rotl 32 (ucast node) XOR of_nat n * 0x2545F4914F6CDD1D"

definition next_sut_rng :: "node_id \<Rightarrow> ('f, 'v) inner \<Rightarrow> split_mix64 \<times> ('f, 'v) inner" where
  "next_sut_rng node g =
     (let n = btm_get_or 0 (in_rng_counter g) node
      in (sm_new (sut_rng_seed (in_seed g) node n),
          g\<lparr>in_rng_counter := btm_insert node (Suc n) (in_rng_counter g)\<rparr>))"

text \<open>\<^verbatim>\<open>raw.clamp(0, u64::MAX) as u64\<close>\<close>

definition clamp_u64 :: "int \<Rightarrow> u64" where
  "clamp_u64 raw = (if raw < 0 then 0 else if int u64_max < raw then - 1 else of_int raw)"

definition clock_skew :: "node_id \<Rightarrow> ('f, 'v) inner \<Rightarrow> int" where
  "clock_skew node g = btm_get_or 0 (fc_clock_skew_ns (in_faults g)) node"

definition local_now :: "node_id \<Rightarrow> ('f, 'v) inner \<Rightarrow> sim_time \<times> ('f, 'v) inner" where
  "local_now node g =
     (let candidate = clamp_u64 (int (unat (in_now g)) + clock_skew node g);
          last = btm_get_or time_zero (in_last_local_now g) node;
          last' = (if last < candidate then candidate else last)
      in (last', g\<lparr>in_last_local_now := btm_insert node last' (in_last_local_now g)\<rparr>))"

definition global_from_local_deadline :: "node_id \<Rightarrow> sim_time \<Rightarrow> ('f, 'v) inner \<Rightarrow> sim_time" where
  "global_from_local_deadline node local_time g =
     max (clamp_u64 (int (unat local_time) - clock_skew node g)) (in_now g)"

definition world_view_of :: "('f, 'v) inner \<Rightarrow> world_view" where
  "world_view_of g =
     world_view_new (in_now g) (sorted_list_of_set (in_nodes g)) (in_crashed g)
       (fc_connectivity (in_faults g))"

subsection \<open>Crashes and faults\<close>

primrec event_is_live_after_crash ::
  "event_kind \<Rightarrow> node_id \<Rightarrow> task_id set \<Rightarrow> (timer_id, timer_waiter) btree_map \<Rightarrow> bool" where
  "event_is_live_after_crash (PollTask task) crashed_node removed_tasks timers = (task \<notin> removed_tasks)"
| "event_is_live_after_crash (TimerFire timer) crashed_node removed_tasks timers = btm_contains timer timers"
| "event_is_live_after_crash (DeliverMsg from_node to_node msg) crashed_node removed_tasks timers =
     (from_node \<noteq> crashed_node \<and> to_node \<noteq> crashed_node)"
| "event_is_live_after_crash (NemesisEvent action) crashed_node removed_tasks timers = True"

definition tasks_of_node :: "node_id \<Rightarrow> ('f, 'v) inner \<Rightarrow> task_id set" where
  "tasks_of_node node g = fst ` {e \<in> set (in_tasks g). ts_node (snd e) = node}"

text \<open>
  Dropping the futures of the removed tasks drops the join handles they were parked on, which take
  the task off the joiners of the handle's slot; sleeps and receives find the state borrowed and
  leave it alone.
\<close>

definition drop_joiners :: "task_id set \<Rightarrow> 'v join_slot list \<Rightarrow> 'v join_slot list" where
  "drop_joiners removed slots =
     map (\<lambda>s. s\<lparr>js_joiners := filter (\<lambda>t. t \<notin> removed) (js_joiners s)\<rparr>) slots"

definition crash_storage :: "node_id \<Rightarrow> ('f, 'v) inner \<Rightarrow> ('f, 'v) inner" where
  "crash_storage node g =
     (let bit_rot = (node \<in> fc_bit_rot_nodes (in_faults g))
      in if node \<in> fc_lost_on_crash_nodes (in_faults g) \<or> bit_rot
         then g\<lparr>in_storage := btm_insert node
                  (ps_crash_recover bit_rot (btm_get_or page_store_default (in_storage g) node)) (in_storage g)\<rparr>
         else g)"

definition crash_node :: "node_id \<Rightarrow> ('f, 'v) inner \<Rightarrow> ('f, 'v) inner" where
  "crash_node node g =
     (if node \<notin> in_nodes g then g
      else let removed = tasks_of_node node g;
               waiters = btm_map_values (filter (\<lambda>t. t \<notin> removed)) (btm_remove node (in_recv_waiters g));
               timers = btm_retain (\<lambda>_ waiter. tw_task waiter \<notin> removed) (in_timers g);
               g1 = g\<lparr>in_crashed := insert node (in_crashed g),
                      in_inboxes := btm_remove node (in_inboxes g),
                      in_recv_waiters := waiters,
                      in_tasks := btm_retain (\<lambda>_ slot. ts_node slot \<noteq> node) (in_tasks g),
                      in_join_slots := drop_joiners removed (in_join_slots g),
                      in_timers := timers\<rparr>;
               g2 = crash_storage node g1
           in g2\<lparr>in_queue :=
                   queue_filter (\<lambda>e. event_is_live_after_crash (k_kind e) node removed timers) (in_queue g2)\<rparr>)"

definition restart_precheck :: "node_id \<Rightarrow> ('f, 'v) inner \<Rightarrow> restart_outcome" where
  "restart_precheck node g =
     (if node \<notin> in_nodes g then NodeMissing node
      else if node \<notin> in_crashed g then NodeNotCrashed node
      else if \<not> btm_contains node (in_factories g) then MissingFactory node
      else Restarted node)"

definition with_faults :: "(fault_config \<Rightarrow> fault_config) \<Rightarrow> ('f, 'v) inner \<Rightarrow> ('f, 'v) inner" where
  "with_faults f g = g\<lparr>in_faults := f (in_faults g)\<rparr>"

definition with_connectivity ::
  "(connectivity_matrix \<Rightarrow> connectivity_matrix) \<Rightarrow> ('f, 'v) inner \<Rightarrow> ('f, 'v) inner" where
  "with_connectivity f = with_faults (\<lambda>fc. fc\<lparr>fc_connectivity := f (fc_connectivity fc)\<rparr>)"

definition log_nemesis :: "nemesis_action \<Rightarrow> ('f, 'v) inner \<Rightarrow> ('f, 'v) inner" where
  "log_nemesis action g = g\<lparr>in_nemesis_trace := in_nemesis_trace g @ [action]\<rparr>"

definition bit_rot_storage :: "node_id \<Rightarrow> ('f, 'v) inner \<Rightarrow> ('f, 'v) inner" where
  "bit_rot_storage node g =
     (case btm_get (in_storage g) node of
        None \<Rightarrow> g
      | Some store \<Rightarrow> g\<lparr>in_storage := btm_insert node (ps_crash_recover True store) (in_storage g)\<rparr>)"

primrec apply_action :: "nemesis_action \<Rightarrow> ('f, 'v) inner \<Rightarrow> restart_outcome option \<times> ('f, 'v) inner" where
  "apply_action (Partition groups) g = (None, with_connectivity (cm_partition groups) g)"
| "apply_action (AsymmetricPartition a b) g = (None, with_connectivity (cm_block a b) g)"
| "apply_action (SetLink a b up) g = (None, with_connectivity (set_link a b up) g)"
| "apply_action HealAll g = (None, with_connectivity heal_all g)"
| "apply_action (Crash node) g = (None, crash_node node g)"
| "apply_action (Restart node) g = (Some (restart_precheck node g), g)"
| "apply_action (ClockSkew node offset_ns) g =
     (None, with_faults (\<lambda>fc. fc\<lparr>fc_clock_skew_ns := btm_insert node offset_ns (fc_clock_skew_ns fc)\<rparr>) g)"
| "apply_action (BitRot node) g = (None, bit_rot_storage node g)"
| "apply_action (TornWrite node) g =
     (None, with_faults (\<lambda>fc. fc\<lparr>fc_torn_write_nodes := insert node (fc_torn_write_nodes fc)\<rparr>) g)"
| "apply_action (LostOnCrash node) g =
     (None, with_faults (\<lambda>fc. fc\<lparr>fc_lost_on_crash_nodes := insert node (fc_lost_on_crash_nodes fc)\<rparr>) g)"
| "apply_action (PreFsyncReorder node) g =
     (None, with_faults (\<lambda>fc. fc\<lparr>fc_pre_fsync_reorder_nodes := insert node (fc_pre_fsync_reorder_nodes fc)\<rparr>) g)"

definition apply_nemesis :: "nemesis_action \<Rightarrow> ('f, 'v) inner \<Rightarrow> restart_outcome option \<times> ('f, 'v) inner" where
  "apply_nemesis action g = apply_action action (log_nemesis action g)"

end
