(* ===== verification/Sim_Env.thy ===== *)
theory Sim_Env
  imports Sim_State
begin

section \<open>SimEnv: what a polled future can do to the simulator\<close>

text \<open>
  Models the futures and handles of \<^verbatim>\<open>crates/detersim-sim/src/lib.rs\<close>
  (\<^verbatim>\<open>SleepFuture\<close>, \<^verbatim>\<open>RecvFuture\<close>, \<^verbatim>\<open>SimJoinHandle\<close>), the
  capabilities \<^verbatim>\<open>Clock\<close>, \<^verbatim>\<open>Network\<close>, \<^verbatim>\<open>Storage\<close> and
  \<^verbatim>\<open>Env\<close> of \<^verbatim>\<open>SimEnv\<close>, and the poll of a task's future.

  The system under test is a parameter: a state type \<open>'f\<close> of its futures and a function
  \<open>nx :: 'f \<Rightarrow> ('f, 'v) fut_step\<close> that says what a future does when polled, up to its next call of the
  environment: it is ready with a value, it is pending, or it makes one call and goes on with the
  response. This is all Rust lets a future do that touches the world only through its
  \<^verbatim>\<open>Env\<close>. One constructor of \<open>env_call\<close> stands for each place where the futures and
  handles of the code enter the simulator (their \<^verbatim>\<open>poll\<close> and \<^verbatim>\<open>drop\<close> included).
\<close>

subsection \<open>Leaf futures and handles\<close>

record sleep_future =
  sf_deadline :: sim_time
  sf_timer :: "timer_id option"
  sf_done :: bool

record recv_future =
  rf_registered_task :: "task_id option"

record sim_join_handle =
  jh_slot :: nat
  jh_waiting_task :: "task_id option"

definition sleep_until :: "sim_time \<Rightarrow> sleep_future" where
  "sleep_until deadline = \<lparr>sf_deadline = deadline, sf_timer = None, sf_done = False\<rparr>"

definition recv_start :: recv_future where
  "recv_start = \<lparr>rf_registered_task = None\<rparr>"

text \<open>The result \<open>True\<close> is \<^verbatim>\<open>Poll::Ready(())\<close>.\<close>

definition sleep_poll ::
  "node_id \<Rightarrow> sleep_future \<Rightarrow> ('f, 'v) inner \<Rightarrow> panic + (bool \<times> sleep_future \<times> ('f, 'v) inner)" where
  "sleep_poll node this g =
     (let (local_time, g1) = local_now node g
      in if sf_deadline this \<le> local_time
         then let g2 = (case sf_timer this of None \<Rightarrow> g1 | Some timer \<Rightarrow> cancel_timer timer g1)
              in Inr (True, this\<lparr>sf_timer := None, sf_done := True\<rparr>, g2)
         else let timer = (case sf_timer this of None \<Rightarrow> None
                 | Some t \<Rightarrow> if btm_contains t (in_timers g1) then Some t else None)
              in case timer of
                   Some t \<Rightarrow> Inr (False, this\<lparr>sf_timer := timer\<rparr>, g1)
                 | None \<Rightarrow>
                     (case in_current_task g1 of
                        None \<Rightarrow> Inl SleepOutsideTask
                      | Some task \<Rightarrow>
                          let (t, g2) = register_timer task
                                (global_from_local_deadline node (sf_deadline this) g1) g1
                          in Inr (False, this\<lparr>sf_timer := Some t\<rparr>, g2)))"

definition sleep_drop :: "sleep_future \<Rightarrow> ('f, 'v) inner \<Rightarrow> ('f, 'v) inner" where
  "sleep_drop this g =
     (if sf_done this then g
      else case sf_timer this of None \<Rightarrow> g | Some timer \<Rightarrow> cancel_timer timer g)"

definition recv_poll ::
  "node_id \<Rightarrow> recv_future \<Rightarrow> ('f, 'v) inner
     \<Rightarrow> panic + ((node_id \<times> message) option \<times> recv_future \<times> ('f, 'v) inner)" where
  "recv_poll node this g =
     (case btm_get_or [] (in_inboxes g) node of
        msg # rest \<Rightarrow>
          let g1 = g\<lparr>in_inboxes := btm_insert node rest (in_inboxes g)\<rparr>;
              g2 = (case rf_registered_task this of None \<Rightarrow> g1
                    | Some task \<Rightarrow> unregister_recv_waiter node task g1)
          in Inr (Some msg, this\<lparr>rf_registered_task := None\<rparr>, g2)
      | [] \<Rightarrow>
          (case in_current_task g of
             None \<Rightarrow> Inl RecvOutsideTask
           | Some task \<Rightarrow>
               Inr (None, this\<lparr>rf_registered_task := Some task\<rparr>, register_recv_waiter node task g)))"

definition recv_drop :: "node_id \<Rightarrow> recv_future \<Rightarrow> ('f, 'v) inner \<Rightarrow> ('f, 'v) inner" where
  "recv_drop node this g =
     (case rf_registered_task this of None \<Rightarrow> g | Some task \<Rightarrow> unregister_recv_waiter node task g)"

definition join_poll ::
  "sim_join_handle \<Rightarrow> ('f, 'v) inner \<Rightarrow> panic + ('v option \<times> sim_join_handle \<times> ('f, 'v) inner)" where
  "join_poll this g =
     (let slot = in_join_slots g ! jh_slot this
      in if js_done slot
         then (case js_output slot of
                 None \<Rightarrow> Inl JoinOutputTaken
               | Some out \<Rightarrow>
                   Inr (Some out, this\<lparr>jh_waiting_task := None\<rparr>,
                     g\<lparr>in_join_slots := (in_join_slots g)[jh_slot this := slot\<lparr>js_output := None\<rparr>]\<rparr>))
         else (case in_current_task g of
                 None \<Rightarrow> Inl JoinOutsideTask
               | Some task \<Rightarrow>
                   let joiners = (if task \<in> set (js_joiners slot) then js_joiners slot
                                  else js_joiners slot @ [task])
                   in Inr (None, this\<lparr>jh_waiting_task := Some task\<rparr>,
                        g\<lparr>in_join_slots := (in_join_slots g)[jh_slot this := slot\<lparr>js_joiners := joiners\<rparr>]\<rparr>)))"

definition join_drop :: "sim_join_handle \<Rightarrow> ('f, 'v) inner \<Rightarrow> ('f, 'v) inner" where
  "join_drop this g =
     (case jh_waiting_task this of
        None \<Rightarrow> g
      | Some task \<Rightarrow>
          let slot = in_join_slots g ! jh_slot this
          in g\<lparr>in_join_slots := (in_join_slots g)[jh_slot this :=
                 slot\<lparr>js_joiners := filter (\<lambda>t. t \<noteq> task) (js_joiners slot)\<rparr>]\<rparr>)"

subsection \<open>The network and the storage capability\<close>

definition net_send :: "node_id \<Rightarrow> node_id \<Rightarrow> message \<Rightarrow> ('f, 'v) inner \<Rightarrow> panic + ('f, 'v) inner" where
  "net_send from_node to_node msg g =
     (if from_node \<in> in_crashed g
      then Inr (g\<lparr>in_trace := in_trace g @ [SendFromCrashed from_node to_node]\<rparr>)
      else case draw_net_delay_ms g of
             Inl p \<Rightarrow> Inl p
           | Inr (delay, g1) \<Rightarrow>
               let at_time = time_saturating_add (in_now g1) (duration_from_millis delay);
                   g2 = push_event at_time (DeliverMsg from_node to_node msg) g1;
                   (dup, g3) = draw_percent (fc_duplicate_percent (in_faults g2)) DuplicateDecision g2
               in if dup
                  then let (v, g4) = tape_draw ExtraDelay g3;
                           extra = 1 + unat v mod 10;
                           at_time' = time_saturating_add at_time (duration_from_millis extra)
                       in Inr (push_event at_time' (DeliverMsg from_node to_node msg) g4)
                  else Inr g3)"

definition set_store :: "node_id \<Rightarrow> page_store \<Rightarrow> ('f, 'v) inner \<Rightarrow> ('f, 'v) inner" where
  "set_store node store g = g\<lparr>in_storage := btm_insert node store (in_storage g)\<rparr>"

definition storage_write_at ::
  "node_id \<Rightarrow> u64 \<Rightarrow> u8 list \<Rightarrow> ('f, 'v) inner \<Rightarrow> panic + ('f, 'v) inner" where
  "storage_write_at node offset data g =
     (let torn = (node \<in> fc_torn_write_nodes (in_faults g))
      in case ps_write_at offset data torn (btm_get_or page_store_default (in_storage g) node) of
           None \<Rightarrow> Inl BufferTooLong
         | Some store \<Rightarrow> Inr (set_store node store g))"

definition storage_read_at ::
  "node_id \<Rightarrow> u64 \<Rightarrow> u8 list \<Rightarrow> ('f, 'v) inner \<Rightarrow> panic + (nat \<times> u8 list)" where
  "storage_read_at node offset out g =
     (case btm_get (in_storage g) node of
        None \<Rightarrow> Inr (0, out)
      | Some store \<Rightarrow>
          (case ps_read_at store offset out of None \<Rightarrow> Inl SliceOutOfRange | Some r \<Rightarrow> Inr r))"

definition storage_flush :: "node_id \<Rightarrow> ('f, 'v) inner \<Rightarrow> panic + ('f, 'v) inner" where
  "storage_flush node g =
     (let reorder = (node \<in> fc_pre_fsync_reorder_nodes (in_faults g))
      in case ps_flush reorder (btm_get_or page_store_default (in_storage g) node) of
           None \<Rightarrow> Inl BufferTooLong
         | Some store \<Rightarrow> Inr (set_store node store g))"

definition storage_len :: "node_id \<Rightarrow> ('f, 'v) inner \<Rightarrow> nat" where
  "storage_len node g = (case btm_get (in_storage g) node of None \<Rightarrow> 0 | Some store \<Rightarrow> ps_len store)"

subsection \<open>Recording and spawning\<close>

definition env_record :: "string \<Rightarrow> ('f, 'v) inner \<Rightarrow> ('f, 'v) inner" where
  "env_record event g = g\<lparr>in_history := in_history g @ [event]\<rparr>"

definition join_slot_new :: "'v join_slot" where
  "join_slot_new = \<lparr>js_done = False, js_output = None, js_joiners = []\<rparr>"

definition env_spawn :: "node_id \<Rightarrow> 'f \<Rightarrow> ('f, 'v) inner \<Rightarrow> sim_join_handle \<times> ('f, 'v) inner" where
  "env_spawn node fut g =
     (let slot = length (in_join_slots g);
          g1 = g\<lparr>in_join_slots := in_join_slots g @ [join_slot_new]\<rparr>;
          (task, g2) = add_task node (SpawnFut node fut slot) g1
      in (\<lparr>jh_slot = slot, jh_waiting_task = None\<rparr>, enqueue_poll_now task g2))"

text \<open>The end of the wrapper that \<^verbatim>\<open>spawn\<close> puts around a future: publish the output, then
  wake the joiners in the order they came.\<close>

definition complete_join_slot :: "nat \<Rightarrow> 'v \<Rightarrow> ('f, 'v) inner \<Rightarrow> ('f, 'v) inner" where
  "complete_join_slot k out g =
     (let slot = in_join_slots g ! k;
          joiners = js_joiners slot;
          g1 = g\<lparr>in_join_slots := (in_join_slots g)[k :=
                  \<lparr>js_done = True, js_output = Some out, js_joiners = []\<rparr>]\<rparr>
      in fold enqueue_poll_now joiners g1)"

subsection \<open>Environment calls and polls\<close>

datatype 'f env_call =
    CallNow
  | CallSleepPoll sleep_future
  | CallSleepDrop sleep_future
  | CallSend node_id message
  | CallRecvPoll recv_future
  | CallRecvDrop recv_future
  | CallWriteAt u64 "u8 list"
  | CallReadAt u64 "u8 list"
  | CallFlush
  | CallLen
  | CallRng
  | CallRecord string
  | CallSpawn 'f
  | CallJoinPoll sim_join_handle
  | CallJoinDrop sim_join_handle

datatype 'v env_resp =
    RespUnit
  | RespTime sim_time
  | RespSleep bool sleep_future
  | RespRecv "(node_id \<times> message) option" recv_future
  | RespRead nat "u8 list"
  | RespLen nat
  | RespRng split_mix64
  | RespHandle sim_join_handle
  | RespJoin "'v option" sim_join_handle

datatype ('f, 'v) fut_step =
    StepReady 'v
  | StepPending 'f
  | StepCall "'f env_call" "'v env_resp \<Rightarrow> 'f"

primrec env_exec ::
  "node_id \<Rightarrow> 'f env_call \<Rightarrow> ('f, 'v) inner \<Rightarrow> panic + ('v env_resp \<times> ('f, 'v) inner)" where
  "env_exec node CallNow g = (let (t, g') = local_now node g in Inr (RespTime t, g'))"
| "env_exec node (CallSleepPoll this) g =
     (case sleep_poll node this g of Inl p \<Rightarrow> Inl p | Inr (rdy, this', g') \<Rightarrow> Inr (RespSleep rdy this', g'))"
| "env_exec node (CallSleepDrop this) g = Inr (RespUnit, sleep_drop this g)"
| "env_exec node (CallSend to_node msg) g =
     (case net_send node to_node msg g of Inl p \<Rightarrow> Inl p | Inr g' \<Rightarrow> Inr (RespUnit, g'))"
| "env_exec node (CallRecvPoll this) g =
     (case recv_poll node this g of Inl p \<Rightarrow> Inl p | Inr (msg, this', g') \<Rightarrow> Inr (RespRecv msg this', g'))"
| "env_exec node (CallRecvDrop this) g = Inr (RespUnit, recv_drop node this g)"
| "env_exec node (CallWriteAt offset data) g =
     (case storage_write_at node offset data g of Inl p \<Rightarrow> Inl p | Inr g' \<Rightarrow> Inr (RespUnit, g'))"
| "env_exec node (CallReadAt offset out) g =
     (case storage_read_at node offset out g of Inl p \<Rightarrow> Inl p | Inr (n, out') \<Rightarrow> Inr (RespRead n out', g))"
| "env_exec node CallFlush g =
     (case storage_flush node g of Inl p \<Rightarrow> Inl p | Inr g' \<Rightarrow> Inr (RespUnit, g'))"
| "env_exec node CallLen g = Inr (RespLen (storage_len node g), g)"
| "env_exec node CallRng g = (let (r, g') = next_sut_rng node g in Inr (RespRng r, g'))"
| "env_exec node (CallRecord event) g = Inr (RespUnit, env_record event g)"
| "env_exec node (CallSpawn fut) g = (let (h, g') = env_spawn node fut g in Inr (RespHandle h, g'))"
| "env_exec node (CallJoinPoll this) g =
     (case join_poll this g of Inl p \<Rightarrow> Inl p | Inr (out, this', g') \<Rightarrow> Inr (RespJoin out this', g'))"
| "env_exec node (CallJoinDrop this) g = Inr (RespUnit, join_drop this g)"

datatype ('f, 'v) polled =
    PolledReady 'v
  | PolledPending 'f

text \<open>One poll of a future: \<open>None\<close> when it makes calls for ever and never returns.\<close>

partial_function (option) poll_fut ::
  "('f \<Rightarrow> ('f, 'v) fut_step) \<Rightarrow> node_id \<Rightarrow> 'f \<Rightarrow> ('f, 'v) inner
     \<Rightarrow> (panic + (('f, 'v) polled \<times> ('f, 'v) inner)) option" where
  [code]: "poll_fut nx node f g =
     (case nx f of
        StepReady v \<Rightarrow> Some (Inr (PolledReady v, g))
      | StepPending f' \<Rightarrow> Some (Inr (PolledPending f', g))
      | StepCall c k \<Rightarrow>
          (case env_exec node c g of
             Inl p \<Rightarrow> Some (Inl p)
           | Inr (r, g') \<Rightarrow> poll_fut nx node (k r) g'))"

text \<open>A poll of the boxed future of a task; \<open>None\<close> as its new future is \<^verbatim>\<open>Poll::Ready(())\<close>.\<close>

definition poll_box ::
  "('f \<Rightarrow> ('f, 'v) fut_step) \<Rightarrow> 'f box_fut \<Rightarrow> ('f, 'v) inner
     \<Rightarrow> (panic + ('f box_fut option \<times> ('f, 'v) inner)) option" where
  "poll_box nx fut g =
     (case fut of
        NodeFut node f \<Rightarrow>
          (case poll_fut nx node f g of
             None \<Rightarrow> None
           | Some (Inl p) \<Rightarrow> Some (Inl p)
           | Some (Inr (PolledReady v, g')) \<Rightarrow> Some (Inr (None, g'))
           | Some (Inr (PolledPending f', g')) \<Rightarrow> Some (Inr (Some (NodeFut node f'), g')))
      | SpawnFut node f k \<Rightarrow>
          (case poll_fut nx node f g of
             None \<Rightarrow> None
           | Some (Inl p) \<Rightarrow> Some (Inl p)
           | Some (Inr (PolledReady v, g')) \<Rightarrow> Some (Inr (None, complete_join_slot k v g'))
           | Some (Inr (PolledPending f', g')) \<Rightarrow> Some (Inr (Some (SpawnFut node f' k), g'))))"

end
