(* ===== verification/Sim_World.thy ===== *)
theory Sim_World
  imports Sim_Env
begin

section \<open>World: the dispatch loop and the run\<close>

text \<open>
  Models \<^verbatim>\<open>pop_until_poll\<close>, \<^verbatim>\<open>World\<close> and \<^verbatim>\<open>RunReport\<close> of
  \<^verbatim>\<open>crates/detersim-sim/src/lib.rs\<close>. \<open>dispatch_event\<close> is the body of the loop of
  \<^verbatim>\<open>pop_until_poll\<close> for one popped event (\<open>None\<close> continues the loop), \<open>run_step\<close> the body
  of the loop of \<^verbatim>\<open>World::run\<close>. Both loops are total: every round that goes on either
  dispatches an event, of which there are at most \<^verbatim>\<open>max_events\<close>, or shortens the queue. Only
  the poll of a future may fail to return.
\<close>

subsection \<open>One event\<close>

datatype 'f pop_result =
    PopQuiesce
  | PopAbort
  | PopRestart node_id
  | PopPoll task_id "'f box_fut"

definition count_dispatch :: "trace_entry \<Rightarrow> ('f, 'v) inner \<Rightarrow> ('f, 'v) inner" where
  "count_dispatch line g =
     g\<lparr>in_dispatched := Suc (in_dispatched g), in_trace := in_trace g @ [line]\<rparr>"

definition dispatch_timer ::
  "sim_time \<Rightarrow> nat \<Rightarrow> timer_id \<Rightarrow> ('f, 'v) inner \<Rightarrow> ('f, 'v) inner" where
  "dispatch_timer time sq timer g =
     (case btm_get (in_timers g) timer of
        None \<Rightarrow> g
      | Some waiter \<Rightarrow>
          let g1 = g\<lparr>in_timers := btm_remove timer (in_timers g)\<rparr>
          in enqueue_poll_now (tw_task waiter) (count_dispatch (Dispatched time sq (TimerFire timer)) g1))"

definition deliver_to_inbox :: "node_id \<Rightarrow> node_id \<Rightarrow> message \<Rightarrow> ('f, 'v) inner \<Rightarrow> ('f, 'v) inner" where
  "deliver_to_inbox from_node to_node msg g =
     (let inbox = btm_get_or [] (in_inboxes g) to_node;
          waiters = btm_get_or [] (in_recv_waiters g) to_node;
          cleared = (if btm_contains to_node (in_recv_waiters g)
                     then btm_insert to_node [] (in_recv_waiters g) else in_recv_waiters g);
          g1 = g\<lparr>in_inboxes := btm_insert to_node (inbox @ [(from_node, msg)]) (in_inboxes g),
                 in_recv_waiters := cleared\<rparr>
      in fold enqueue_poll_now waiters g1)"

definition dispatch_deliver ::
  "sim_time \<Rightarrow> nat \<Rightarrow> node_id \<Rightarrow> node_id \<Rightarrow> message \<Rightarrow> ('f, 'v) inner \<Rightarrow> ('f, 'v) inner" where
  "dispatch_deliver time sq from_node to_node msg g =
     (if to_node \<notin> in_nodes g then count_dispatch (DropUnregistered time sq from_node to_node) g
      else if to_node \<in> in_crashed g \<or> from_node \<in> in_crashed g
      then count_dispatch (DropCrashed time sq from_node to_node) g
      else if \<not> is_connected (fc_connectivity (in_faults g)) from_node to_node
      then count_dispatch (DropPartition time sq from_node to_node) g
      else let (dropped, g1) = draw_percent (fc_drop_percent (in_faults g)) DropDecision g
           in if dropped then count_dispatch (DropRandom time sq from_node to_node) g1
              else deliver_to_inbox from_node to_node msg
                     (count_dispatch (Dispatched time sq (DeliverMsg from_node to_node msg)) g1))"

definition dispatch_nemesis ::
  "sim_time \<Rightarrow> nat \<Rightarrow> nemesis_action \<Rightarrow> ('f, 'v) inner \<Rightarrow> 'f pop_result option \<times> ('f, 'v) inner" where
  "dispatch_nemesis time sq action g =
     (let g1 = count_dispatch (Dispatched time sq (NemesisEvent action)) g
      in case action of
           Restart node \<Rightarrow> (Some (PopRestart node), log_nemesis (Restart node) g1)
         | _ \<Rightarrow> (None, snd (apply_nemesis action g1)))"

text \<open>The future of a task on a crashed node is taken and dropped.\<close>

definition dispatch_poll ::
  "sim_time \<Rightarrow> nat \<Rightarrow> task_id \<Rightarrow> ('f, 'v) inner \<Rightarrow> 'f pop_result option \<times> ('f, 'v) inner" where
  "dispatch_poll time sq task g =
     (case btm_get (in_tasks g) task of
        None \<Rightarrow> (None, g)
      | Some slot \<Rightarrow>
          (case ts_future slot of
             None \<Rightarrow> (None, g)
           | Some fut \<Rightarrow>
               let g1 = g\<lparr>in_tasks := btm_insert task (slot\<lparr>ts_future := None\<rparr>) (in_tasks g)\<rparr>
               in if ts_node slot \<in> in_crashed g1
                  then (None, g1\<lparr>in_join_slots := drop_joiners {task} (in_join_slots g1)\<rparr>)
                  else (Some (PopPoll task fut),
                        (count_dispatch (Dispatched time sq (PollTask task)) g1)
                          \<lparr>in_current_task := Some task\<rparr>)))"

definition dispatch_event :: "keyed \<Rightarrow> ('f, 'v) inner \<Rightarrow> 'f pop_result option \<times> ('f, 'v) inner" where
  "dispatch_event e g =
     (case k_kind e of
        TimerFire timer \<Rightarrow> (None, dispatch_timer (k_time e) (k_seq e) timer g)
      | DeliverMsg from_node to_node msg \<Rightarrow>
          (None, dispatch_deliver (k_time e) (k_seq e) from_node to_node msg g)
      | NemesisEvent action \<Rightarrow> dispatch_nemesis (k_time e) (k_seq e) action g
      | PollTask task \<Rightarrow> dispatch_poll (k_time e) (k_seq e) task g)"

subsection \<open>Dispatching counts\<close>

lemma push_event_counts [simp]:
  "in_dispatched (push_event t k g) = in_dispatched g" "in_config (push_event t k g) = in_config g"
  "in_dispatched (enqueue_poll_now task g) = in_dispatched g"
  "in_config (enqueue_poll_now task g) = in_config g"
  by (simp_all add: push_event_def enqueue_poll_now_def)

lemma fold_enqueue_counts [simp]:
  "in_dispatched (fold enqueue_poll_now ts g) = in_dispatched g"
  "in_config (fold enqueue_poll_now ts g) = in_config g"
  by (induction ts arbitrary: g) simp_all

lemma draw_counts [simp]:
  "in_dispatched (snd (tape_draw lab g)) = in_dispatched g" "in_config (snd (tape_draw lab g)) = in_config g"
  "in_dispatched (snd (draw_percent p lab g)) = in_dispatched g"
  "in_config (snd (draw_percent p lab g)) = in_config g"
  by (simp_all add: tape_draw_def draw_percent_def Let_def split_beta)

lemma count_dispatch_counts [simp]:
  "in_dispatched (count_dispatch l g) = Suc (in_dispatched g)" "in_config (count_dispatch l g) = in_config g"
  by (simp_all add: count_dispatch_def)

lemma crash_storage_counts [simp]:
  "in_dispatched (crash_storage n g) = in_dispatched g" "in_config (crash_storage n g) = in_config g"
  by (simp_all add: crash_storage_def Let_def)

lemma crash_node_counts [simp]:
  "in_dispatched (crash_node n g) = in_dispatched g" "in_config (crash_node n g) = in_config g"
  by (simp_all add: crash_node_def Let_def)

lemma apply_nemesis_counts [simp]:
  "in_dispatched (snd (apply_nemesis a g)) = in_dispatched g"
  "in_config (snd (apply_nemesis a g)) = in_config g"
  by (cases a; simp add: apply_nemesis_def log_nemesis_def with_connectivity_def with_faults_def
      bit_rot_storage_def split: option.split)+

lemma dispatch_event_config [simp]: "in_config (snd (dispatch_event e g)) = in_config g"
  by (auto simp: dispatch_event_def dispatch_timer_def dispatch_deliver_def deliver_to_inbox_def
      dispatch_nemesis_def dispatch_poll_def log_nemesis_def Let_def split_beta
      split: event_kind.split option.split nemesis_action.split)

text \<open>An event that is skipped without being counted leaves the queue alone.\<close>

lemma dispatch_event_progress:
  "in_dispatched g < in_dispatched (snd (dispatch_event e g))
   \<or> in_dispatched (snd (dispatch_event e g)) = in_dispatched g
     \<and> in_queue (snd (dispatch_event e g)) = in_queue g \<and> fst (dispatch_event e g) = None"
  by (auto simp: dispatch_event_def dispatch_timer_def dispatch_deliver_def deliver_to_inbox_def
      dispatch_nemesis_def dispatch_poll_def log_nemesis_def Let_def split_beta
      split: event_kind.split option.split nemesis_action.split)

subsection \<open>The dispatch loop\<close>

definition over_budget :: "('f, 'v) inner \<Rightarrow> bool" where
  "over_budget g \<longleftrightarrow>
     wc_horizon_ns (in_config g) < in_now g \<or> wc_max_events (in_config g) \<le> in_dispatched g"

definition take_event :: "keyed \<Rightarrow> keyed list \<Rightarrow> ('f, 'v) inner \<Rightarrow> ('f, 'v) inner" where
  "take_event e q g = g\<lparr>in_queue := q, in_now := k_time e\<rparr>"

function (sequential) pop_until_poll :: "('f, 'v) inner \<Rightarrow> 'f pop_result \<times> ('f, 'v) inner" where
  "pop_until_poll g =
     (case queue_pop (in_queue g) of
        None \<Rightarrow> (PopQuiesce, g)
      | Some (e, q) \<Rightarrow>
          let g1 = take_event e q g
          in if over_budget g1 then (PopAbort, g1)
             else case dispatch_event e g1 of
                    (Some r, g2) \<Rightarrow> (r, g2)
                  | (None, g2) \<Rightarrow> pop_until_poll g2)"
  by pat_completeness auto
termination
proof (relation "measures [\<lambda>g. wc_max_events (in_config g) - in_dispatched g, \<lambda>g. length (in_queue g)]")
  fix g :: "('f, 'v) inner" and p e q g1 r g2
  assume pop: "queue_pop (in_queue g) = Some p" and p: "(e, q) = p" and g1: "g1 = take_event e q g"
    and ok: "\<not> over_budget g1" and d: "(r, g2) = dispatch_event e g1" and r: "r = None"
  have g2: "g2 = snd (dispatch_event e g1)" using d [symmetric] by simp
  have len: "length (in_queue g) = Suc (length q)" using pop p by (cases "in_queue g") auto
  show "(g2, g) \<in> measures [\<lambda>g. wc_max_events (in_config g) - in_dispatched g, \<lambda>g. length (in_queue g)]"
    using dispatch_event_progress [of g1 e] ok len
    by (auto simp: g2 g1 over_budget_def take_event_def)
qed simp

declare pop_until_poll.simps [simp del]

text \<open>Induction along the loop: a relation between the state at its start and the result.\<close>

lemma pop_until_poll_rule:
  assumes quiesce: "\<And>g. queue_pop (in_queue g) = None \<Longrightarrow> P g (PopQuiesce, g)"
    and abort: "\<And>g e q. queue_pop (in_queue g) = Some (e, q) \<Longrightarrow> over_budget (take_event e q g) \<Longrightarrow>
      P g (PopAbort, take_event e q g)"
    and stop: "\<And>g e q r. queue_pop (in_queue g) = Some (e, q) \<Longrightarrow> \<not> over_budget (take_event e q g) \<Longrightarrow>
      fst (dispatch_event e (take_event e q g)) = Some r \<Longrightarrow>
      P g (r, snd (dispatch_event e (take_event e q g)))"
    and continue: "\<And>g e q x. queue_pop (in_queue g) = Some (e, q) \<Longrightarrow> \<not> over_budget (take_event e q g) \<Longrightarrow>
      fst (dispatch_event e (take_event e q g)) = None \<Longrightarrow>
      P (snd (dispatch_event e (take_event e q g))) x \<Longrightarrow> P g x"
  shows "P g (pop_until_poll g)"
proof (induction g rule: pop_until_poll.induct)
  case (1 g)
  show ?case
  proof (cases "queue_pop (in_queue g)")
    case None
    then show ?thesis by (subst pop_until_poll.simps) (simp add: quiesce)
  next
    case (Some p)
    obtain e q where p: "p = (e, q)" by (cases p)
    let ?g1 = "take_event e q g"
    obtain r g2 where d: "dispatch_event e ?g1 = (r, g2)" by (cases "dispatch_event e ?g1")
    show ?thesis
    proof (cases "over_budget ?g1")
      case True
      then show ?thesis using Some p by (subst pop_until_poll.simps) (simp add: abort)
    next
      case False
      show ?thesis
      proof (cases r)
        case None
        have "pop_until_poll g = pop_until_poll g2"
          using Some p False d None by (subst pop_until_poll.simps) simp
        moreover have "P g2 (pop_until_poll g2)"
          using "1.IH" [OF Some p [symmetric] refl False d [symmetric] None] .
        ultimately show ?thesis using continue [of g e q] Some p False d None by simp
      next
        case (Some r')
        then have "pop_until_poll g = (r', g2)"
          using \<open>queue_pop (in_queue g) = Some p\<close> p False d by (subst pop_until_poll.simps) simp
        then show ?thesis
          using stop [of g e q r'] \<open>queue_pop (in_queue g) = Some p\<close> p False d Some by simp
      qed
    qed
  qed
qed

lemma take_event_counts [simp]:
  "in_dispatched (take_event e q g) = in_dispatched g" "in_config (take_event e q g) = in_config g"
  by (simp_all add: take_event_def)

lemma pop_until_poll_counts:
  "in_config (snd (pop_until_poll g)) = in_config g
   \<and> in_dispatched g \<le> in_dispatched (snd (pop_until_poll g))
   \<and> (fst (pop_until_poll g) \<noteq> PopQuiesce \<and> fst (pop_until_poll g) \<noteq> PopAbort \<longrightarrow>
        in_dispatched g < in_dispatched (snd (pop_until_poll g))
        \<and> in_dispatched g < wc_max_events (in_config g))"
proof (rule pop_until_poll_rule [where P = "\<lambda>g x. in_config (snd x) = in_config g
   \<and> in_dispatched g \<le> in_dispatched (snd x)
   \<and> (fst x \<noteq> PopQuiesce \<and> fst x \<noteq> PopAbort \<longrightarrow>
        in_dispatched g < in_dispatched (snd x) \<and> in_dispatched g < wc_max_events (in_config g))"])
  fix g :: "('f, 'v) inner" and e q r
  assume "\<not> over_budget (take_event e q g)" "fst (dispatch_event e (take_event e q g)) = Some r"
  then show "in_config (snd (r, snd (dispatch_event e (take_event e q g)))) = in_config g
     \<and> in_dispatched g \<le> in_dispatched (snd (r, snd (dispatch_event e (take_event e q g))))
     \<and> (fst (r, snd (dispatch_event e (take_event e q g))) \<noteq> PopQuiesce
        \<and> fst (r, snd (dispatch_event e (take_event e q g))) \<noteq> PopAbort \<longrightarrow>
        in_dispatched g < in_dispatched (snd (r, snd (dispatch_event e (take_event e q g))))
        \<and> in_dispatched g < wc_max_events (in_config g))"
    using dispatch_event_progress [of "take_event e q g" e] by (auto simp: over_budget_def)
next
  fix g :: "('f, 'v) inner" and e q and x :: "'f pop_result \<times> ('f, 'v) inner"
  let ?g2 = "snd (dispatch_event e (take_event e q g))"
  assume "\<not> over_budget (take_event e q g)"
    and "in_config (snd x) = in_config ?g2 \<and> in_dispatched ?g2 \<le> in_dispatched (snd x)
     \<and> (fst x \<noteq> PopQuiesce \<and> fst x \<noteq> PopAbort \<longrightarrow>
        in_dispatched ?g2 < in_dispatched (snd x) \<and> in_dispatched ?g2 < wc_max_events (in_config ?g2))"
  then show "in_config (snd x) = in_config g \<and> in_dispatched g \<le> in_dispatched (snd x)
     \<and> (fst x \<noteq> PopQuiesce \<and> fst x \<noteq> PopAbort \<longrightarrow>
        in_dispatched g < in_dispatched (snd x) \<and> in_dispatched g < wc_max_events (in_config g))"
    using dispatch_event_progress [of "take_event e q g" e] by (auto simp: over_budget_def)
qed simp_all

subsection \<open>Polls count nothing\<close>

text \<open>Whatever property of the state every environment call keeps, a poll keeps.\<close>

lemma poll_fut_inv:
  assumes "poll_fut nx node f g = Some (Inr (p, g'))" and "Q g"
    and step: "\<And>g c r g'. Q g \<Longrightarrow> env_exec node c g = Inr (r, g') \<Longrightarrow> Q g'"
  shows "Q g'"
proof -
  have "nd = node \<longrightarrow> Q g \<longrightarrow> (\<forall>p g'. y = Inr (p, g') \<longrightarrow> Q g')"
    if "poll_fut nx nd f g = Some y" for nx nd f g y
    using that
  proof (rule poll_fut.raw_induct
      [where P = "\<lambda>nx nd f g y. nd = node \<longrightarrow> Q g \<longrightarrow> (\<forall>p g'. y = Inr (p, g') \<longrightarrow> Q g')", rotated])
    fix rec nx nd f g y
    assume ih: "\<And>nx nd f g y. rec nx nd f g = Some y \<Longrightarrow>
        nd = node \<longrightarrow> Q g \<longrightarrow> (\<forall>p g'. y = Inr (p, g') \<longrightarrow> Q g')"
      and body: "(case nx f of
         StepReady v \<Rightarrow> Some (Inr (PolledReady v, g))
       | StepPending f' \<Rightarrow> Some (Inr (PolledPending f', g))
       | StepCall c k \<Rightarrow> (case env_exec nd c g of Inl p \<Rightarrow> Some (Inl p) | Inr (r, g') \<Rightarrow> rec nx nd (k r) g')) = Some y"
    show "nd = node \<longrightarrow> Q g \<longrightarrow> (\<forall>p g'. y = Inr (p, g') \<longrightarrow> Q g')"
    proof (intro impI allI)
      fix p g'
      assume nd: "nd = node" and g: "Q g" and y: "y = Inr (p, g')"
      show "Q g'"
      proof (cases "nx f")
        case (StepCall c k)
        then obtain r g1 where e: "env_exec node c g = Inr (r, g1)" "rec nx node (k r) g1 = Some y"
          using body y nd by (auto split: sum.splits prod.splits)
        have "Q g1" using g e(1) by (rule step)
        then show ?thesis using ih [OF e(2)] y by blast
      qed (use body g y in auto)
    qed
  qed
  with assms(1,2) show ?thesis by blast
qed

lemma poll_box_inv:
  assumes "poll_box nx fut g = Some (Inr (st, g'))" and "Q g"
    and step: "\<And>g c r g'. Q g \<Longrightarrow> env_exec (fut_node fut) c g = Inr (r, g') \<Longrightarrow> Q g'"
    and complete: "\<And>g k v. Q g \<Longrightarrow> Q (complete_join_slot k v g)"
  shows "Q g'"
proof -
  have inv: "Q g1" if "poll_fut nx (fut_node fut) f g = Some (Inr (p, g1))" for f p g1
    using poll_fut_inv [of nx "fut_node fut" f g p g1 Q] that assms(2) step by blast
  show ?thesis
    using assms(1) inv complete
    by (cases fut) (auto simp: poll_box_def split: option.splits sum.splits polled.splits)
qed

lemma net_send_counts:
  "net_send a b m g = Inr g' \<Longrightarrow> in_dispatched g' = in_dispatched g \<and> in_config g' = in_config g"
  by (auto simp: net_send_def draw_net_delay_ms_def tape_draw_def draw_percent_def Let_def split_beta
      split: if_splits sum.splits)

lemma env_op_counts [simp]:
  "in_dispatched (snd (local_now n g)) = in_dispatched g" "in_config (snd (local_now n g)) = in_config g"
  "in_dispatched (cancel_timer t g) = in_dispatched g" "in_config (cancel_timer t g) = in_config g"
  "in_dispatched (snd (register_timer k d g)) = in_dispatched g"
  "in_config (snd (register_timer k d g)) = in_config g"
  "in_dispatched (unregister_recv_waiter n k g) = in_dispatched g"
  "in_config (unregister_recv_waiter n k g) = in_config g"
  "in_dispatched (register_recv_waiter n k g) = in_dispatched g"
  "in_config (register_recv_waiter n k g) = in_config g"
  by (simp_all add: local_now_def cancel_timer_def register_timer_def unregister_recv_waiter_def
      register_recv_waiter_def Let_def split: option.split)

lemma sleep_poll_counts:
  "sleep_poll n s g = Inr (b, s', g') \<Longrightarrow> in_dispatched g' = in_dispatched g \<and> in_config g' = in_config g"
  by (auto simp: sleep_poll_def Let_def split_beta split: if_splits option.splits)

lemma recv_poll_counts:
  "recv_poll n s g = Inr (b, s', g') \<Longrightarrow> in_dispatched g' = in_dispatched g \<and> in_config g' = in_config g"
  by (auto simp: recv_poll_def Let_def split: option.splits list.splits)

lemma join_poll_counts:
  "join_poll s g = Inr (b, s', g') \<Longrightarrow> in_dispatched g' = in_dispatched g \<and> in_config g' = in_config g"
  by (auto simp: join_poll_def Let_def split: option.splits if_splits)

lemma storage_counts:
  "storage_write_at n off d g = Inr g' \<Longrightarrow> in_dispatched g' = in_dispatched g \<and> in_config g' = in_config g"
  "storage_flush n g = Inr g' \<Longrightarrow> in_dispatched g' = in_dispatched g \<and> in_config g' = in_config g"
  by (auto simp: storage_write_at_def storage_flush_def set_store_def Let_def split: option.splits)

lemma drop_spawn_counts [simp]:
  "in_dispatched (sleep_drop s g) = in_dispatched g" "in_config (sleep_drop s g) = in_config g"
  "in_dispatched (recv_drop n r g) = in_dispatched g" "in_config (recv_drop n r g) = in_config g"
  "in_dispatched (join_drop h g) = in_dispatched g" "in_config (join_drop h g) = in_config g"
  "in_dispatched (snd (env_spawn n f g)) = in_dispatched g" "in_config (snd (env_spawn n f g)) = in_config g"
  "in_dispatched (snd (next_sut_rng n g)) = in_dispatched g" "in_config (snd (next_sut_rng n g)) = in_config g"
  "in_dispatched (env_record e g) = in_dispatched g" "in_config (env_record e g) = in_config g"
  by (simp_all add: sleep_drop_def recv_drop_def join_drop_def env_spawn_def add_task_def next_sut_rng_def
      env_record_def Let_def split: option.split)

lemmas env_call_counts =
  net_send_counts sleep_poll_counts recv_poll_counts join_poll_counts storage_counts

lemma env_exec_counts:
  "env_exec node c g = Inr (r, g') \<Longrightarrow> in_dispatched g' = in_dispatched g \<and> in_config g' = in_config g"
  by (cases c) (auto simp: Let_def split_beta split: sum.splits prod.splits dest: env_call_counts)

lemma poll_box_counts:
  assumes "poll_box nx fut g = Some (Inr (st, g'))"
  shows "in_dispatched g' = in_dispatched g \<and> in_config g' = in_config g"
  by (rule poll_box_inv [OF assms, where Q = "\<lambda>h. in_dispatched h = in_dispatched g \<and> in_config h = in_config g"])
    (auto simp: complete_join_slot_def Let_def dest: env_exec_counts)

subsection \<open>Nodes\<close>

definition spawn_registered_node :: "node_id \<Rightarrow> 'f node_factory \<Rightarrow> ('f, 'v) inner \<Rightarrow> ('f, 'v) inner" where
  "spawn_registered_node node factory g =
     (let (task, g') = add_task node (NodeFut node (factory node)) g in enqueue_poll_now task g')"

definition register_node :: "node_id \<Rightarrow> 'f node_factory \<Rightarrow> ('f, 'v) inner \<Rightarrow> ('f, 'v) inner" where
  "register_node node factory g =
     (let g1 = with_connectivity (cm_add_node node) (g\<lparr>in_nodes := insert node (in_nodes g)\<rparr>)
      in g1\<lparr>in_inboxes := btm_insert node (btm_get_or [] (in_inboxes g1) node) (in_inboxes g1),
            in_storage := btm_insert node (btm_get_or page_store_default (in_storage g1) node) (in_storage g1),
            in_factories := btm_insert node factory (in_factories g1)\<rparr>)"

definition add_node_factory :: "node_id \<Rightarrow> 'f node_factory \<Rightarrow> ('f, 'v) inner \<Rightarrow> panic + ('f, 'v) inner" where
  "add_node_factory node factory g =
     (if node \<in> in_nodes g then Inl NodeRegisteredTwice
      else Inr (spawn_registered_node node factory (register_node node factory g)))"

text \<open>\<^verbatim>\<open>add_nodes(count, f)\<close>: nodes 0 to count - 1, in order.\<close>

fun add_node_list :: "node_id list \<Rightarrow> 'f node_factory \<Rightarrow> ('f, 'v) inner \<Rightarrow> panic + ('f, 'v) inner" where
  "add_node_list [] f g = Inr g"
| "add_node_list (node # nodes) f g =
     (case add_node_factory node f g of Inl p \<Rightarrow> Inl p | Inr g' \<Rightarrow> add_node_list nodes f g')"

definition add_nodes :: "node_id \<Rightarrow> 'f node_factory \<Rightarrow> ('f, 'v) inner \<Rightarrow> panic + ('f, 'v) inner" where
  "add_nodes cnt = add_node_list (map of_nat [0..<unat cnt])"

definition restart_node_outcome :: "node_id \<Rightarrow> ('f, 'v) inner \<Rightarrow> restart_outcome \<times> ('f, 'v) inner" where
  "restart_node_outcome node g =
     (if node \<notin> in_nodes g then (NodeMissing node, g)
      else if node \<notin> in_crashed g then (NodeNotCrashed node, g)
      else case btm_get (in_factories g) node of
             None \<Rightarrow> (MissingFactory node, g)
           | Some factory \<Rightarrow>
               (Restarted node,
                spawn_registered_node node factory (g\<lparr>in_crashed := in_crashed g - {node}\<rparr>)))"

primrec format_restart_outcome :: "restart_outcome \<Rightarrow> string" where
  "format_restart_outcome (Restarted node) = ''restart:'' @ show_nat (unat node) @ '':restarted''"
| "format_restart_outcome (NodeMissing node) = ''restart:'' @ show_nat (unat node) @ '':node-missing''"
| "format_restart_outcome (NodeNotCrashed node) = ''restart:'' @ show_nat (unat node) @ '':node-not-crashed''"
| "format_restart_outcome (MissingFactory node) = ''restart:'' @ show_nat (unat node) @ '':missing-factory''"

definition restart_node :: "node_id \<Rightarrow> ('f, 'v) inner \<Rightarrow> ('f, 'v) inner" where
  "restart_node node g =
     (let (outcome, g') = restart_node_outcome node g
      in env_record (format_restart_outcome outcome) g')"

lemma restart_node_counts [simp]:
  "in_dispatched (restart_node n g) = in_dispatched g" "in_config (restart_node n g) = in_config g"
  by (auto simp: restart_node_def restart_node_outcome_def spawn_registered_node_def add_task_def
      env_record_def Let_def split: option.split)

subsection \<open>The run\<close>

definition finish_poll :: "task_id \<Rightarrow> 'f box_fut option \<Rightarrow> ('f, 'v) inner \<Rightarrow> ('f, 'v) inner" where
  "finish_poll task polled g =
     (let g1 = g\<lparr>in_current_task := None\<rparr>
      in case polled of
           None \<Rightarrow> g1\<lparr>in_tasks := btm_remove task (in_tasks g1)\<rparr>
         | Some fut \<Rightarrow>
             (case btm_get (in_tasks g1) task of
                None \<Rightarrow> g1
              | Some slot \<Rightarrow> g1\<lparr>in_tasks := btm_insert task (slot\<lparr>ts_future := Some fut\<rparr>) (in_tasks g1)\<rparr>))"

lemma finish_poll_counts [simp]:
  "in_dispatched (finish_poll t p g) = in_dispatched g" "in_config (finish_poll t p g) = in_config g"
  by (auto simp: finish_poll_def Let_def split: option.split)

text \<open>\<open>None\<close>: a poll did not return; \<open>Inl\<close>: a panic.\<close>

function (sequential) run_loop ::
  "('f \<Rightarrow> ('f, 'v) fut_step) \<Rightarrow> ('f, 'v) inner \<Rightarrow> (panic + ('f, 'v) inner) option" where
  "run_loop nx g =
     (case pop_until_poll g of
        (PopQuiesce, g1) \<Rightarrow> Some (Inr g1)
      | (PopAbort, g1) \<Rightarrow> Some (Inr g1)
      | (PopRestart node, g1) \<Rightarrow> run_loop nx (restart_node node g1)
      | (PopPoll task fut, g1) \<Rightarrow>
          (case poll_box nx fut g1 of
             None \<Rightarrow> None
           | Some (Inl p) \<Rightarrow> Some (Inl p)
           | Some (Inr (polled, g2)) \<Rightarrow> run_loop nx (finish_poll task polled g2)))"
  by pat_completeness auto
termination
proof (relation "measure (\<lambda>(nx, g). wc_max_events (in_config g) - in_dispatched g)", goal_cases)
  case (2 nx g r g1 node)
  then show ?case using pop_until_poll_counts [of g] by (cases "pop_until_poll g") auto
next
  case (3 nx g)
  then show ?case
    using pop_until_poll_counts [of g]
    by (cases "pop_until_poll g") (auto dest!: poll_box_counts)
qed simp

declare run_loop.simps [simp del]

subsection \<open>Building a world\<close>

definition world_from_tape :: "u64 \<Rightarrow> world_config \<Rightarrow> entropy_tape \<Rightarrow> ('f, 'v) inner" where
  "world_from_tape s config tape =
     \<lparr>in_now = time_zero, in_seq = 0, in_queue = [], in_tasks = [], in_next_task_id = 0,
      in_current_task = None, in_nodes = {}, in_factories = [], in_crashed = {}, in_inboxes = [],
      in_recv_waiters = [], in_timers = [], in_next_timer_id = 0, in_storage = [],
      in_faults = fault_config_default, in_tape = tape, in_rng_counter = [], in_last_local_now = [],
      in_config = config, in_seed = s, in_trace = [], in_nemesis_trace = [], in_history = [],
      in_dispatched = 0, in_join_slots = []\<rparr>"

definition world_with_config :: "u64 \<Rightarrow> world_config \<Rightarrow> ('f, 'v) inner" where
  "world_with_config s config = world_from_tape s config (tape_generate s)"

definition world_new :: "u64 \<Rightarrow> ('f, 'v) inner" where
  "world_new s = world_with_config s world_config_default"

definition world_replay :: "u64 \<Rightarrow> u64 list \<Rightarrow> world_config \<Rightarrow> ('f, 'v) inner" where
  "world_replay s tape config = world_from_tape s config (tape_replay tape)"

text \<open>The label of a plan's draw on the tape (\<^verbatim>\<open>TapeDraw\<close>).\<close>

definition nemesis_draw_label :: "string \<Rightarrow> tape_label" where
  "nemesis_draw_label lab =
     (if lab = ''nemesis.partition'' \<or> lab = ''nemesis.link'' then PartitionDraw
      else if lab = ''nemesis.restart'' then RestartDraw
      else if lab = ''nemesis.clock-skew'' then ClockSkewDraw
      else NemesisDraw)"

definition nemesis_tape_draw :: "entropy_tape draw_fun" where
  "nemesis_tape_draw lab tape = draw (nemesis_draw_label lab) tape"

fun schedule_nemesis_plan :: "plan \<Rightarrow> nat \<Rightarrow> ('f, 'v) inner \<Rightarrow> nat \<times> plan \<times> ('f, 'v) inner" where
  "schedule_nemesis_plan p 0 g = (0, p, g)"
| "schedule_nemesis_plan p (Suc n) g =
     (case next_action nemesis_tape_draw (world_view_of g) p (in_tape g) of
        (None, p', tape) \<Rightarrow> (0, p', g\<lparr>in_tape := tape\<rparr>)
      | (Some (at_time, action), p', tape) \<Rightarrow>
          let g1 = push_event at_time (NemesisEvent action) (g\<lparr>in_tape := tape\<rparr>);
              (scheduled, p'', g2) = schedule_nemesis_plan p' n g1
          in (Suc scheduled, p'', g2))"

text \<open>The calls a test makes on its \<^verbatim>\<open>World\<close>.\<close>

datatype 'f world_op =
    OpAddNode node_id "'f node_factory"
  | OpAddNodes node_id "'f node_factory"
  | OpScheduleNemesis sim_time nemesis_action
  | OpSchedulePlan plan nat
  | OpPartition "node_id list list"
  | OpHealAll
  | OpSetDropPercent u32
  | OpSetDuplicatePercent u32
  | OpSetExtraDelayMs u64
  | OpSetClockSkew node_id int
  | OpCrashNode node_id
  | OpRestartNode node_id
  | OpRun

primrec world_exec ::
  "('f \<Rightarrow> ('f, 'v) fut_step) \<Rightarrow> 'f world_op \<Rightarrow> ('f, 'v) inner \<Rightarrow> (panic + ('f, 'v) inner) option" where
  "world_exec nx (OpAddNode node f) g = Some (add_node_factory node f g)"
| "world_exec nx (OpAddNodes cnt f) g = Some (add_nodes cnt f g)"
| "world_exec nx (OpScheduleNemesis at_time action) g = Some (Inr (push_event at_time (NemesisEvent action) g))"
| "world_exec nx (OpSchedulePlan p n) g = Some (Inr (snd (snd (schedule_nemesis_plan p n g))))"
| "world_exec nx (OpPartition groups) g = Some (Inr (snd (apply_nemesis (Partition groups) g)))"
| "world_exec nx OpHealAll g = Some (Inr (snd (apply_nemesis HealAll g)))"
| "world_exec nx (OpSetDropPercent percent) g =
     Some (Inr (with_faults (\<lambda>fc. fc\<lparr>fc_drop_percent := min percent 100\<rparr>) g))"
| "world_exec nx (OpSetDuplicatePercent percent) g =
     Some (Inr (with_faults (\<lambda>fc. fc\<lparr>fc_duplicate_percent := min percent 100\<rparr>) g))"
| "world_exec nx (OpSetExtraDelayMs ms) g = Some (Inr (with_faults (\<lambda>fc. fc\<lparr>fc_extra_delay_ms := ms\<rparr>) g))"
| "world_exec nx (OpSetClockSkew node offset_ns) g =
     Some (Inr (snd (apply_nemesis (ClockSkew node offset_ns) g)))"
| "world_exec nx (OpCrashNode node) g = Some (Inr (snd (apply_nemesis (Crash node) g)))"
| "world_exec nx (OpRestartNode node) g = Some (Inr (restart_node node g))"
| "world_exec nx OpRun g = run_loop nx g"

fun world_script ::
  "('f \<Rightarrow> ('f, 'v) fut_step) \<Rightarrow> 'f world_op list \<Rightarrow> ('f, 'v) inner \<Rightarrow> (panic + ('f, 'v) inner) option" where
  "world_script nx [] g = Some (Inr g)"
| "world_script nx (op # ops) g =
     (case world_exec nx op g of
        None \<Rightarrow> None
      | Some (Inl p) \<Rightarrow> Some (Inl p)
      | Some (Inr g') \<Rightarrow> world_script nx ops g')"

subsection \<open>RunReport\<close>

text \<open>The report of a run that stopped in state \<open>g\<close> (\<^verbatim>\<open>coverage_signals\<close> excepted).\<close>

record run_report =
  rr_seed :: u64
  rr_trace :: "trace_entry list"
  rr_nemesis_trace :: "nemesis_action list"
  rr_history :: "string list"
  rr_tape_log :: "u64 list"
  rr_tape_events :: "tape_event list"
  rr_tape_replaying :: bool
  rr_tape_input_len :: "nat option"
  rr_tape_cursor :: nat
  rr_tape_consumed_all :: bool
  rr_tape_exhausted :: bool
  rr_dispatched :: nat
  rr_aborted :: bool
  rr_deadlocked :: bool
  rr_parked_tasks :: nat
  rr_tape_log_len :: nat

definition run_report_of :: "('f, 'v) inner \<Rightarrow> run_report" where
  "run_report_of g =
     (let deadlocked = (in_queue g = [] \<and> in_tasks g \<noteq> []);
          aborted = (wc_max_events (in_config g) \<le> in_dispatched g
                     \<or> wc_horizon_ns (in_config g) < in_now g);
          log = tape_log (in_tape g);
          diag = tape_diagnostics_of (in_tape g)
      in \<lparr>rr_seed = in_seed g, rr_trace = in_trace g, rr_nemesis_trace = in_nemesis_trace g,
          rr_history = in_history g, rr_tape_log = log, rr_tape_events = tape_events (in_tape g),
          rr_tape_replaying = td_replaying diag, rr_tape_input_len = td_input_len diag,
          rr_tape_cursor = td_cursor diag, rr_tape_consumed_all = td_consumed_all diag,
          rr_tape_exhausted = td_exhausted diag, rr_dispatched = in_dispatched g,
          rr_aborted = aborted, rr_deadlocked = deadlocked, rr_parked_tasks = length (in_tasks g),
          rr_tape_log_len = length log\<rparr>)"

definition world_run ::
  "('f \<Rightarrow> ('f, 'v) fut_step) \<Rightarrow> ('f, 'v) inner \<Rightarrow> (panic + (run_report \<times> ('f, 'v) inner)) option" where
  "world_run nx g =
     (case run_loop nx g of
        None \<Rightarrow> None
      | Some (Inl p) \<Rightarrow> Some (Inl p)
      | Some (Inr g') \<Rightarrow> Some (Inr (run_report_of g', g')))"

text \<open>An induction rule for runs: a property of states that survives what happens between two polls
  and every poll holds when the run stops.\<close>

lemma run_loop_inv:
  assumes "run_loop nx g = Some (Inr g')" and "Q g"
    and pop: "\<And>g. Q g \<Longrightarrow> Q' (fst (pop_until_poll g)) (snd (pop_until_poll g))"
    and restart: "\<And>g node. Q' (PopRestart node) g \<Longrightarrow> Q (restart_node node g)"
    and poll: "\<And>g task fut st g'. Q' (PopPoll task fut) g \<Longrightarrow> poll_box nx fut g = Some (Inr (st, g')) \<Longrightarrow>
      Q (finish_poll task st g')"
    and stop: "\<And>g. Q' PopQuiesce g \<Longrightarrow> R g" "\<And>g. Q' PopAbort g \<Longrightarrow> R g"
  shows "R g'"
  using assms(1,2) poll
proof (induction nx g rule: run_loop.induct)
  case (1 nx g)
  obtain r g1 where p: "pop_until_poll g = (r, g1)" by (cases "pop_until_poll g")
  have q: "Q' r g1" using pop [OF "1.prems"(2)] p by simp
  show ?case
  proof (cases r)
    case (PopRestart node)
    have "run_loop nx (restart_node node g1) = Some (Inr g')"
      using "1.prems"(1) p PopRestart by (subst (asm) run_loop.simps) simp
    then show ?thesis
      using "1.IH"(1) [OF p [symmetric] PopRestart] restart q PopRestart "1.prems"(3) by blast
  next
    case (PopPoll task fut)
    then obtain st g2 where b: "poll_box nx fut g1 = Some (Inr (st, g2))"
      and l: "run_loop nx (finish_poll task st g2) = Some (Inr g')"
      using "1.prems"(1) p by (subst (asm) run_loop.simps) (auto split: option.splits sum.splits)
    have "Q (finish_poll task st g2)" using "1.prems"(3) [OF _ b] q PopPoll by blast
    then show ?thesis
      using "1.IH"(2) [OF p [symmetric] PopPoll b refl refl l] "1.prems"(3) by blast
  qed (use "1.prems"(1) p q stop in \<open>subst (asm) run_loop.simps; auto\<close>)+
qed

end
