(* ===== verification/Sim_Steps.thy ===== *)
theory Sim_Steps
  imports Sim_World
begin

section \<open>The simulator as a transition system\<close>

text \<open>
  \<open>world_step\<close> is one round of the loops of \<^verbatim>\<open>pop_until_poll\<close> and \<^verbatim>\<open>World::run\<close>:
  one event popped and handled, with the restart or the poll it asks for. \<open>run_loop_steps\<close> says that a
  run that stops is a sequence of steps. \<open>world_reachable\<close> are the states a test can bring a world
  to, in the middle of a run or between its calls. The locale \<open>world_invariant\<close> is the contract of an
  invariant with the operations of the simulator: what every dispatched event, every environment call
  of a polled future and the end of a poll keep is kept by every step and every run.
\<close>

inductive world_step ::
  "('f \<Rightarrow> ('f, 'v) fut_step) \<Rightarrow> ('f, 'v) inner \<Rightarrow> ('f, 'v) inner \<Rightarrow> bool"
  for nx :: "'f \<Rightarrow> ('f, 'v) fut_step" where
  step_abort:
    "queue_pop (in_queue g) = Some (e, q) \<Longrightarrow> over_budget (take_event e q g) \<Longrightarrow>
       world_step nx g (take_event e q g)"
| step_event:
    "queue_pop (in_queue g) = Some (e, q) \<Longrightarrow> \<not> over_budget (take_event e q g) \<Longrightarrow>
       dispatch_event e (take_event e q g) = (None, g') \<Longrightarrow> world_step nx g g'"
| step_restart:
    "queue_pop (in_queue g) = Some (e, q) \<Longrightarrow> \<not> over_budget (take_event e q g) \<Longrightarrow>
       dispatch_event e (take_event e q g) = (Some (PopRestart node), g1) \<Longrightarrow>
       world_step nx g (restart_node node g1)"
| step_poll:
    "queue_pop (in_queue g) = Some (e, q) \<Longrightarrow> \<not> over_budget (take_event e q g) \<Longrightarrow>
       dispatch_event e (take_event e q g) = (Some (PopPoll task fut), g1) \<Longrightarrow>
       poll_box nx fut g1 = Some (Inr (st, g2)) \<Longrightarrow> world_step nx g (finish_poll task st g2)"

inductive_cases world_step_cases: "world_step nx g g'"

abbreviation world_steps :: "('f \<Rightarrow> ('f, 'v) fut_step) \<Rightarrow> ('f, 'v) inner \<Rightarrow> ('f, 'v) inner \<Rightarrow> bool" where
  "world_steps nx \<equiv> (world_step nx)\<^sup>*\<^sup>*"

subsection \<open>Runs are sequences of steps\<close>

text \<open>The events handled inside one call of \<^verbatim>\<open>pop_until_poll\<close>, up to the last one.\<close>

lemma pop_until_poll_steps:
  "case fst (pop_until_poll g) of
     PopQuiesce \<Rightarrow> world_steps nx g (snd (pop_until_poll g))
   | PopAbort \<Rightarrow> world_steps nx g (snd (pop_until_poll g))
   | r \<Rightarrow> (\<exists>h e q. world_steps nx g h \<and> queue_pop (in_queue h) = Some (e, q)
        \<and> \<not> over_budget (take_event e q h)
        \<and> dispatch_event e (take_event e q h) = (Some r, snd (pop_until_poll g)))"
proof (rule pop_until_poll_rule [where P = "\<lambda>g x. case fst x of
     PopQuiesce \<Rightarrow> world_steps nx g (snd x)
   | PopAbort \<Rightarrow> world_steps nx g (snd x)
   | r \<Rightarrow> (\<exists>h e q. world_steps nx g h \<and> queue_pop (in_queue h) = Some (e, q)
        \<and> \<not> over_budget (take_event e q h) \<and> dispatch_event e (take_event e q h) = (Some r, snd x))"], goal_cases)
  case (2 g e q)
  then have "world_step nx g (take_event e q g)" by (rule step_abort)
  then show ?case by simp
next
  case (3 g e q r)
  have "r \<noteq> PopQuiesce \<and> r \<noteq> PopAbort"
    using 3(3) by (auto simp: dispatch_event_def dispatch_nemesis_def dispatch_poll_def Let_def
        split: event_kind.splits nemesis_action.splits option.splits if_splits)
  moreover have "dispatch_event e (take_event e q g) = (Some r, snd (dispatch_event e (take_event e q g)))"
    using 3(3) by (metis prod.collapse)
  ultimately show ?case
    using 3(1,2) by (cases r) (auto intro!: exI [of _ g])
next
  case (4 g e q x)
  have "dispatch_event e (take_event e q g) = (None, snd (dispatch_event e (take_event e q g)))"
    using 4(3) by (metis prod.collapse)
  with 4(1,2) have "world_step nx g (snd (dispatch_event e (take_event e q g)))" by (rule step_event)
  with 4(4) show ?case
    by (auto split: pop_result.splits intro: converse_rtranclp_into_rtranclp)
qed simp

lemma run_loop_steps:
  "run_loop nx g = Some (Inr g') \<Longrightarrow> world_steps nx g g'"
proof (induction nx g rule: run_loop.induct)
  case (1 nx g)
  obtain r g1 where p: "pop_until_poll g = (r, g1)" by (cases "pop_until_poll g")
  note steps = pop_until_poll_steps [where g = g and nx = nx, unfolded p fst_conv snd_conv]
  show ?case
  proof (cases r)
    case (PopRestart node)
    then obtain h where h: "world_steps nx g h" "world_step nx h (restart_node node g1)"
      using steps by (auto intro: step_restart)
    have "run_loop nx (restart_node node g1) = Some (Inr g')"
      using "1.prems" p PopRestart by (subst (asm) run_loop.simps) simp
    then have "world_steps nx (restart_node node g1) g'" by (rule "1.IH"(1) [OF p [symmetric] PopRestart])
    with h show ?thesis by (meson converse_rtranclp_into_rtranclp rtranclp_trans)
  next
    case (PopPoll task fut)
    then obtain st g2 where b: "poll_box nx fut g1 = Some (Inr (st, g2))"
      and l: "run_loop nx (finish_poll task st g2) = Some (Inr g')"
      using "1.prems" p by (subst (asm) run_loop.simps) (auto split: option.splits sum.splits)
    obtain h where h: "world_steps nx g h" "world_step nx h (finish_poll task st g2)"
      using steps b PopPoll by (auto intro: step_poll)
    have "world_steps nx (finish_poll task st g2) g'"
      by (rule "1.IH"(2) [OF p [symmetric] PopPoll b refl refl l])
    with h show ?thesis by (meson converse_rtranclp_into_rtranclp rtranclp_trans)
  qed (use "1.prems" p steps in \<open>subst (asm) run_loop.simps; auto\<close>)+
qed

subsection \<open>Termination\<close>

text \<open>If every poll returns, the run returns; a run that quiesces has an empty queue.\<close>

lemma run_loop_returns:
  assumes "\<And>fut g. poll_box nx fut g \<noteq> None"
  shows "run_loop nx g \<noteq> None"
  using assms
proof (induction nx g rule: run_loop.induct)
  case (1 nx g)
  obtain r g1 where p: "pop_until_poll g = (r, g1)" by (cases "pop_until_poll g")
  show ?case
  proof (cases r)
    case (PopRestart node)
    then show ?thesis using "1.IH"(1) [OF p [symmetric] PopRestart] "1.prems" p
      by (subst run_loop.simps) simp
  next
    case (PopPoll task fut)
    then show ?thesis using "1.IH"(2) [OF p [symmetric] PopPoll] "1.prems" p
      by (subst run_loop.simps) (auto split: option.split sum.split)
  qed (use p in \<open>subst run_loop.simps; auto\<close>)+
qed

lemma pop_until_poll_stop:
  "case fst (pop_until_poll g) of
     PopQuiesce \<Rightarrow> in_queue (snd (pop_until_poll g)) = []
   | PopAbort \<Rightarrow> over_budget (snd (pop_until_poll g))
   | _ \<Rightarrow> True"
proof (rule pop_until_poll_rule [where P = "\<lambda>g x. case fst x of PopQuiesce \<Rightarrow> in_queue (snd x) = []
   | PopAbort \<Rightarrow> over_budget (snd x) | _ \<Rightarrow> True"], goal_cases)
  case (1 g)
  then show ?case by (cases "in_queue g") auto
next
  case (3 g e q r)
  have "r \<noteq> PopQuiesce \<and> r \<noteq> PopAbort"
    using 3(3) by (auto simp: dispatch_event_def dispatch_nemesis_def dispatch_poll_def Let_def
        split: event_kind.splits nemesis_action.splits option.splits if_splits)
  then show ?case by (cases r) auto
qed auto

lemma run_loop_stop:
  assumes "run_loop nx g = Some (Inr g')"
  shows "in_queue g' = [] \<or> over_budget g'"
  using run_loop_inv [OF assms, where Q = "\<lambda>_. True" and R = "\<lambda>g. in_queue g = [] \<or> over_budget g"
      and Q' = "\<lambda>r g. case r of PopQuiesce \<Rightarrow> in_queue g = [] | PopAbort \<Rightarrow> over_budget g | _ \<Rightarrow> True"]
    pop_until_poll_stop
  by auto

subsection \<open>Reachable states\<close>

inductive world_reachable ::
  "('f \<Rightarrow> ('f, 'v) fut_step) \<Rightarrow> u64 \<Rightarrow> world_config \<Rightarrow> ('f, 'v) inner \<Rightarrow> bool"
  for nx :: "'f \<Rightarrow> ('f, 'v) fut_step" and s config where
  reach_generate: "world_reachable nx s config (world_with_config s config)"
| reach_replay: "world_reachable nx s config (world_replay s tape config)"
| reach_op: "world_reachable nx s config g \<Longrightarrow> op \<noteq> OpRun \<Longrightarrow> world_exec nx op g = Some (Inr g') \<Longrightarrow>
    world_reachable nx s config g'"
| reach_step: "world_reachable nx s config g \<Longrightarrow> world_step nx g g' \<Longrightarrow> world_reachable nx s config g'"

lemma world_reachable_steps:
  "world_steps nx g g' \<Longrightarrow> world_reachable nx s config g \<Longrightarrow> world_reachable nx s config g'"
  by (induction rule: rtranclp_induct) (auto intro: reach_step)

text \<open>Every state that a script of calls returns is reachable.\<close>

lemma world_script_reachable:
  "world_script nx ops g = Some (Inr g') \<Longrightarrow> world_reachable nx s config g \<Longrightarrow> world_reachable nx s config g'"
proof (induction ops arbitrary: g)
  case (Cons op ops)
  then obtain g1 where g1: "world_exec nx op g = Some (Inr g1)" "world_script nx ops g1 = Some (Inr g')"
    by (auto split: option.splits sum.splits)
  have "world_reachable nx s config g1"
  proof (cases "op = OpRun")
    case True
    then show ?thesis using g1(1) Cons.prems(2) by (auto dest: run_loop_steps intro: world_reachable_steps)
  qed (use g1(1) Cons.prems(2) in \<open>auto intro: reach_op\<close>)
  with g1(2) show ?case by (rule Cons.IH)
qed simp

subsection \<open>The contract of an invariant\<close>

locale world_invariant =
  fixes inv :: "('f, 'v) inner \<Rightarrow> bool"
    and mid :: "node_id \<Rightarrow> task_id \<Rightarrow> ('f, 'v) inner \<Rightarrow> bool"
  assumes inv_abort: "inv g \<Longrightarrow> queue_pop (in_queue g) = Some (e, q) \<Longrightarrow> inv (take_event e q g)"
    and inv_event: "inv g \<Longrightarrow> queue_pop (in_queue g) = Some (e, q) \<Longrightarrow>
      dispatch_event e (take_event e q g) = (None, g') \<Longrightarrow> inv g'"
    and inv_restart: "inv g \<Longrightarrow> queue_pop (in_queue g) = Some (e, q) \<Longrightarrow>
      dispatch_event e (take_event e q g) = (Some (PopRestart node), g') \<Longrightarrow> inv (restart_node node g')"
    and inv_poll: "inv g \<Longrightarrow> queue_pop (in_queue g) = Some (e, q) \<Longrightarrow>
      dispatch_event e (take_event e q g) = (Some (PopPoll task fut), g') \<Longrightarrow> mid (fut_node fut) task g'"
    and mid_call: "mid node task g \<Longrightarrow> env_exec node c g = Inr (r, g') \<Longrightarrow> mid node task g'"
    and mid_complete: "mid node task g \<Longrightarrow> mid node task (complete_join_slot k v g)"
    and mid_finish: "mid node task g \<Longrightarrow> (\<And>fut. st = Some fut \<Longrightarrow> fut_node fut = node) \<Longrightarrow>
      inv (finish_poll task st g)"
begin

lemma poll_box_node:
  "poll_box nx fut g = Some (Inr (Some fut', g')) \<Longrightarrow> fut_node fut' = fut_node fut"
  by (cases fut) (auto simp: poll_box_def split: option.splits sum.splits polled.splits)

lemma step_keeps: "world_step nx g g' \<Longrightarrow> inv g \<Longrightarrow> inv g'"
proof (induction rule: world_step.induct)
  case (step_poll g e q task fut g1 st g2)
  have "mid (fut_node fut) task g1" using step_poll by (blast intro: inv_poll)
  then have "mid (fut_node fut) task g2"
    by (rule poll_box_inv [OF step_poll(4)]) (blast intro: mid_call mid_complete)+
  then show ?case
    by (rule mid_finish) (use step_poll(4) poll_box_node in blast)
qed (blast intro: inv_abort inv_event inv_restart)+

lemma steps_keep: "world_steps nx g g' \<Longrightarrow> inv g \<Longrightarrow> inv g'"
  by (induction rule: rtranclp_induct) (auto intro: step_keeps)

lemma run_keeps: "run_loop nx g = Some (Inr g') \<Longrightarrow> inv g \<Longrightarrow> inv g'"
  by (blast intro: run_loop_steps steps_keep)

end

text \<open>An invariant that the calls of a test keep too holds in every reachable state.\<close>

locale world_system_invariant = world_invariant inv mid
  for inv :: "('f, 'v) inner \<Rightarrow> bool" and mid +
  assumes inv_start: "inv (world_from_tape s config tape)"
    and inv_op: "inv g \<Longrightarrow> op \<noteq> OpRun \<Longrightarrow> world_exec nx op g = Some (Inr g') \<Longrightarrow> inv g'"
begin

lemma reachable_inv: "world_reachable nx s config g \<Longrightarrow> inv g"
proof (induction rule: world_reachable.induct)
  case reach_generate
  show ?case by (simp add: world_with_config_def inv_start)
next
  case (reach_replay tape)
  show ?case by (simp add: world_replay_def inv_start)
next
  case (reach_op g op g')
  then show ?case by (blast intro: inv_op)
next
  case (reach_step g g')
  then show ?case by (blast intro: step_keeps)
qed

end

end
