(* ===== verification/Sim_Order.thy ===== *)
theory Sim_Order
  imports Sim_Steps
begin

section \<open>Dispatch is a total order in logical time\<close>

text \<open>
  \<open>order_ok\<close>: no queued event lies in the past, sequence numbers are fresh, and the lines of the trace
  are in strictly increasing (time, sequence) order, all before every queued event. Its
  interpretation \<open>order\<close> of \<open>world_invariant\<close> gives the claim of the simulator's header, that dispatch
  is a deterministic total order in which logical time never goes backwards.
\<close>

type_synonym event_key = "sim_time \<times> nat"

definition key_less :: "event_key \<Rightarrow> event_key \<Rightarrow> bool" where
  "key_less a b \<longleftrightarrow> fst a < fst b \<or> fst a = fst b \<and> snd a < snd b"

definition key_of :: "keyed \<Rightarrow> event_key" where
  "key_of e = (k_time e, k_seq e)"

primrec entry_key :: "trace_entry \<Rightarrow> event_key option" where
  "entry_key (Dispatched t sq kind) = Some (t, sq)"
| "entry_key (DropUnregistered t sq a b) = Some (t, sq)"
| "entry_key (DropCrashed t sq a b) = Some (t, sq)"
| "entry_key (DropPartition t sq a b) = Some (t, sq)"
| "entry_key (DropRandom t sq a b) = Some (t, sq)"
| "entry_key (SendFromCrashed a b) = None"

definition trace_keys :: "trace_entry list \<Rightarrow> event_key list" where
  "trace_keys tr = List.map_filter entry_key tr"

lemma trace_keys_snoc:
  "trace_keys (tr @ [l]) = trace_keys tr @ (case entry_key l of None \<Rightarrow> [] | Some k \<Rightarrow> [k])"
  by (simp add: trace_keys_def map_filter_def split: option.split)

lemma keyed_less_key: "keyed_less a b \<longleftrightarrow> key_less (key_of a) (key_of b)"
  by (simp add: keyed_less_def key_less_def key_of_def)

lemma key_less_trans: "key_less a b \<Longrightarrow> key_less b c \<Longrightarrow> key_less a c"
  by (auto simp: key_less_def)

definition order_ok :: "('f, 'v) inner \<Rightarrow> bool" where
  "order_ok g \<longleftrightarrow>
     queue_wf (in_queue g)
     \<and> (\<forall>e \<in> set (in_queue g). in_now g \<le> k_time e \<and> k_seq e < in_seq g)
     \<and> sorted_wrt key_less (trace_keys (in_trace g))
     \<and> (\<forall>k \<in> set (trace_keys (in_trace g)). fst k \<le> in_now g \<and> snd k < in_seq g
          \<and> (\<forall>e \<in> set (in_queue g). key_less k (key_of e)))
     \<and> in_dispatched g = length (trace_keys (in_trace g))"

text \<open>The state in which an event has been popped and not yet written to the trace.\<close>

definition order_taken :: "event_key \<Rightarrow> ('f, 'v) inner \<Rightarrow> bool" where
  "order_taken k g \<longleftrightarrow>
     order_ok g \<and> fst k = in_now g \<and> snd k < in_seq g
     \<and> (\<forall>k' \<in> set (trace_keys (in_trace g)). key_less k' k)
     \<and> (\<forall>e \<in> set (in_queue g). key_less k (key_of e))"

text \<open>What the operations that touch neither the queue nor the trace leave alone.\<close>

definition same_order :: "('f, 'v) inner \<Rightarrow> ('f, 'v) inner \<Rightarrow> bool" where
  "same_order g g' \<longleftrightarrow>
     in_now g' = in_now g \<and> in_seq g' = in_seq g \<and> in_queue g' = in_queue g
     \<and> trace_keys (in_trace g') = trace_keys (in_trace g) \<and> in_dispatched g' = in_dispatched g"

lemma same_order_ok: "same_order g g' \<Longrightarrow> order_ok g' = order_ok g"
  by (simp add: same_order_def order_ok_def)

lemma same_order_taken: "same_order g g' \<Longrightarrow> order_taken k g' = order_taken k g"
  by (simp add: same_order_def order_taken_def order_ok_def)

lemma same_order_refl [simp]: "same_order g g"
  by (simp add: same_order_def)

lemma same_order_trans: "same_order g g' \<Longrightarrow> same_order g' g'' \<Longrightarrow> same_order g g''"
  by (simp add: same_order_def)

subsection \<open>Operations\<close>

lemma order_ok_push:
  assumes "order_ok g" and "in_now g \<le> t"
  shows "order_ok (push_event t kind g)"
proof -
  let ?e = "\<lparr>k_time = t, k_seq = in_seq g, k_kind = kind\<rparr>"
  have fresh: "k_seq ?e \<notin> k_seq ` set (in_queue g)" using assms(1) by (auto simp: order_ok_def)
  have "queue_wf (queue_push ?e (in_queue g))"
    using assms(1) fresh by (intro eq.wf_push) (simp_all add: order_ok_def)
  moreover have "key_less k (key_of ?e)" if "k \<in> set (trace_keys (in_trace g))" for k
    using that assms by (auto simp: order_ok_def key_less_def key_of_def)
  ultimately show ?thesis
    using assms by (fastforce simp: order_ok_def push_event_def)
qed

lemma push_event_order_fields [simp]:
  "in_now (push_event t kind g) = in_now g" "in_now (enqueue_poll_now k g) = in_now g"
  by (simp_all add: push_event_def enqueue_poll_now_def)

lemma order_ok_enqueue: "order_ok g \<Longrightarrow> order_ok (enqueue_poll_now task g)"
  by (simp add: enqueue_poll_now_def order_ok_push)

lemma order_ok_fold_enqueue: "order_ok g \<Longrightarrow> order_ok (fold enqueue_poll_now ts g)"
  by (induction ts arbitrary: g) (simp_all add: order_ok_enqueue)

lemma order_ok_take:
  assumes "order_ok g" and "queue_pop (in_queue g) = Some (e, q)"
  shows "order_taken (key_of e) (take_event e q g)"
proof -
  have wf: "queue_wf (in_queue g)" using assms(1) by (simp add: order_ok_def)
  have mem: "set (in_queue g) = insert e (set q)"
    using eq.pop_contents [OF assms(2)] by (metis set_mset_add_mset_insert set_mset_mset)
  have first: "keyed_less e x" if "x \<in> set q" for x
    using eq.pop_before [OF wf assms(2)] that by simp
  have rest: "queue_wf q" using eq.wf_pop [OF wf assms(2)] .
  show ?thesis
    using assms(1) first rest
    by (fastforce simp: order_taken_def order_ok_def take_event_def mem keyed_less_key key_less_def key_of_def)
qed

lemma order_taken_ok: "order_taken k g \<Longrightarrow> order_ok g"
  by (simp add: order_taken_def)

lemma order_ok_count:
  "order_taken k g \<Longrightarrow> entry_key line = Some k \<Longrightarrow> order_ok (count_dispatch line g)"
  by (auto simp: order_taken_def order_ok_def count_dispatch_def trace_keys_snoc sorted_wrt_append)

lemma order_ok_queue_filter:
  assumes "order_ok g" shows "order_ok (g\<lparr>in_queue := queue_filter P (in_queue g)\<rparr>)"
proof -
  have wf: "queue_wf (in_queue g)" using assms by (simp add: order_ok_def)
  have "set (queue_filter P (in_queue g)) \<subseteq> set (in_queue g)"
    unfolding queue_filter_wf(1) [OF wf] by auto
  then show ?thesis
    using assms queue_filter_wf(2) [OF wf, of P] by (auto simp: order_ok_def)
qed

lemma same_order_draws [simp]:
  "same_order g (snd (tape_draw lab g))" "same_order g (snd (draw_percent p lab g))"
  by (simp_all add: same_order_def tape_draw_def draw_percent_def Let_def split_beta)

lemma draw_net_delay_same_order: "draw_net_delay_ms g = Inr (d, g') \<Longrightarrow> same_order g g'"
  by (auto simp: draw_net_delay_ms_def Let_def split_beta same_order_def tape_draw_def split: if_splits)

lemma same_order_ops [simp]:
  "same_order g (snd (local_now n g))" "same_order g (snd (next_sut_rng n g))"
  "same_order g (register_recv_waiter n k g)" "same_order g (unregister_recv_waiter n k g)"
  "same_order g (cancel_timer t g)" "same_order g (set_store n s g)" "same_order g (env_record ev g)"
  "same_order g (sleep_drop sf g)" "same_order g (recv_drop n r g)" "same_order g (join_drop h g)"
  "same_order g (finish_poll k st g)" "same_order g (snd (add_task n fu g))"
  "same_order g (log_nemesis a g)" "same_order g (with_faults ff g)"
  "same_order g (bit_rot_storage n g)" "same_order g (crash_storage n g)"
  by (simp_all add: same_order_def local_now_def next_sut_rng_def register_recv_waiter_def
      unregister_recv_waiter_def cancel_timer_def set_store_def env_record_def sleep_drop_def recv_drop_def
      join_drop_def finish_poll_def add_task_def log_nemesis_def with_faults_def bit_rot_storage_def
      crash_storage_def Let_def split: option.split)

lemma order_ok_crash_node:
  assumes "order_ok g"
  shows "order_ok (crash_node n g)"
proof -
  have "order_ok (crash_storage n (g\<lparr>in_crashed := c, in_inboxes := i, in_recv_waiters := w, in_tasks := t,
      in_join_slots := j, in_timers := m\<rparr>))" for c i w t j m
    using assms
    by (simp add: same_order_ok [OF same_order_ops(16)]) (simp add: order_ok_def)
  then show ?thesis
    using assms unfolding crash_node_def Let_def by (simp add: order_ok_queue_filter)
qed

lemma order_ok_apply_nemesis: "order_ok g \<Longrightarrow> order_ok (snd (apply_nemesis a g))"
proof -
  assume "order_ok g"
  then have "order_ok (log_nemesis a g)" by (simp add: same_order_ok [OF same_order_ops(13)])
  then show ?thesis
    by (cases a) (simp_all add: apply_nemesis_def with_connectivity_def order_ok_crash_node
        same_order_ok [OF same_order_ops(14)] same_order_ok [OF same_order_ops(15)])
qed

lemma order_ok_register_timer: "order_ok g \<Longrightarrow> in_now g \<le> d \<Longrightarrow> order_ok (snd (register_timer k d g))"
  unfolding register_timer_def Let_def snd_conv
  by (rule order_ok_push) (simp_all add: order_ok_def)

lemma order_ok_sleep_poll:
  assumes "order_ok g" and "sleep_poll n s g = Inr (b, s', g')"
  shows "order_ok g'"
proof -
  let ?g1 = "snd (local_now n g)"
  have g1: "order_ok ?g1" using assms(1) by (simp add: same_order_ok [OF same_order_ops(1)])
  moreover have "in_now ?g1 \<le> global_from_local_deadline n d ?g1" for d
    by (simp add: global_from_local_deadline_def)
  moreover have "order_ok (cancel_timer t ?g1)" for t
    using g1 by (simp add: same_order_ok [OF same_order_ops(5)])
  ultimately show ?thesis
    using assms(2)
    by (auto simp: sleep_poll_def Let_def split_beta intro: order_ok_register_timer
        split: if_splits option.splits)
qed

lemma order_ok_net_send:
  assumes "order_ok g" and "net_send a b m g = Inr g'"
  shows "order_ok g'"
proof (cases "a \<in> in_crashed g")
  case True
  then have "same_order g g'"
    using assms(2) by (auto simp: net_send_def same_order_def trace_keys_snoc)
  with assms(1) show ?thesis by (simp add: same_order_ok)
next
  case False
  then obtain d g1 where d: "draw_net_delay_ms g = Inr (d, g1)"
    using assms(2) by (auto simp: net_send_def split: sum.splits)
  define t where "t = time_saturating_add (in_now g1) (duration_from_millis d)"
  define g2 where "g2 = push_event t (DeliverMsg a b m) g1"
  define g3 where "g3 = snd (draw_percent (fc_duplicate_percent (in_faults g2)) DuplicateDecision g2)"
  define g4 where "g4 = snd (tape_draw ExtraDelay g3)"
  have g1: "order_ok g1" using draw_net_delay_same_order [OF d] assms(1) by (simp add: same_order_ok)
  have g2: "order_ok g2"
    unfolding g2_def using g1 by (rule order_ok_push) (simp add: t_def time_saturating_add_ge)
  have g3: "order_ok g3"
    unfolding g3_def using g2 by (simp add: same_order_ok [OF same_order_draws(2)])
  have g4: "order_ok g4"
    unfolding g4_def using g3 by (simp add: same_order_ok [OF same_order_draws(1)])
  have now: "in_now g4 = in_now g1"
    using same_order_draws(1) [of g3 ExtraDelay] same_order_draws(2) [of g2]
    by (simp add: same_order_def g4_def g3_def) (simp add: g2_def)
  have "in_now g4 \<le> time_saturating_add t d'" for d'
    unfolding now t_def by (meson time_saturating_add_ge order_trans)
  then have push: "order_ok (push_event (time_saturating_add t d') (DeliverMsg a b m) g4)" for d'
    using g4 by (intro order_ok_push)
  show ?thesis
    using assms(2) False d g3 push
    by (auto simp: net_send_def Let_def split_beta t_def [symmetric] g2_def [symmetric] g3_def [symmetric]
        g4_def [symmetric] split: if_splits)
qed

lemma leaf_same_order:
  "recv_poll n r g = Inr (msg, r', g') \<Longrightarrow> same_order g g'"
  "join_poll h g = Inr (out, h', g') \<Longrightarrow> same_order g g'"
  "storage_write_at n off d g = Inr g' \<Longrightarrow> same_order g g'"
  "storage_flush n g = Inr g' \<Longrightarrow> same_order g g'"
  by (auto simp: recv_poll_def join_poll_def storage_write_at_def storage_flush_def Let_def same_order_def
      unregister_recv_waiter_def register_recv_waiter_def set_store_def
      split: list.splits option.splits if_splits)

lemma order_ok_spawn: "order_ok g \<Longrightarrow> order_ok (snd (env_spawn n f g))"
  unfolding env_spawn_def add_task_def Let_def prod.case snd_conv
  by (rule order_ok_enqueue) (simp add: order_ok_def)

lemma order_ok_complete: "order_ok g \<Longrightarrow> order_ok (complete_join_slot k v g)"
  unfolding complete_join_slot_def Let_def
  by (rule order_ok_fold_enqueue) (simp add: order_ok_def)

lemma order_ok_env_exec:
  assumes "order_ok g" and "env_exec node c g = Inr (r, g')"
  shows "order_ok g'"
proof (cases c)
  case CallNow
  then show ?thesis using assms same_order_ok [OF same_order_ops(1)] by (auto simp: Let_def split_beta)
next
  case (CallSleepDrop sf)
  then show ?thesis using assms same_order_ok [OF same_order_ops(8)] by auto
next
  case (CallRecvDrop rf)
  then show ?thesis using assms same_order_ok [OF same_order_ops(9)] by auto
next
  case (CallJoinDrop h)
  then show ?thesis using assms same_order_ok [OF same_order_ops(10)] by auto
next
  case CallRng
  then show ?thesis using assms same_order_ok [OF same_order_ops(2)] by (auto simp: Let_def split_beta)
next
  case (CallRecord ev)
  then show ?thesis using assms same_order_ok [OF same_order_ops(7)] by auto
next
  case (CallSpawn f)
  then show ?thesis using assms order_ok_spawn by (auto simp: Let_def split_beta)
qed (use assms leaf_same_order same_order_ok order_ok_net_send order_ok_sleep_poll in
      \<open>fastforce split: sum.splits prod.splits\<close>)+

lemma order_ok_spawn_registered: "order_ok g \<Longrightarrow> order_ok (spawn_registered_node n f g)"
  by (auto simp: spawn_registered_node_def Let_def split_beta same_order_ok [OF same_order_ops(12)]
      intro: order_ok_enqueue)

lemma order_ok_restart: "order_ok g \<Longrightarrow> order_ok (restart_node n g)"
proof -
  assume g: "order_ok g"
  then have "order_ok (spawn_registered_node n f (g\<lparr>in_crashed := c\<rparr>))" for f c
    by (intro order_ok_spawn_registered) (simp add: order_ok_def)
  with g have "order_ok (snd (restart_node_outcome n g))"
    by (auto simp: restart_node_outcome_def split: option.split)
  then show ?thesis
    by (simp add: restart_node_def Let_def split_beta same_order_ok [OF same_order_ops(7)])
qed

subsection \<open>Dispatching\<close>

lemma order_taken_timer:
  assumes "order_taken (t, sq) g"
  shows "order_ok (dispatch_timer t sq tm g)"
proof (cases "btm_get (in_timers g) tm")
  case None
  then show ?thesis using order_taken_ok [OF assms] by (simp add: dispatch_timer_def)
next
  case (Some w)
  have "order_taken (t, sq) (g\<lparr>in_timers := btm_remove tm (in_timers g)\<rparr>)"
    using assms same_order_taken [of g "g\<lparr>in_timers := btm_remove tm (in_timers g)\<rparr>"]
    by (simp add: same_order_def)
  then have "order_ok (count_dispatch (Dispatched t sq (TimerFire tm)) (g\<lparr>in_timers := btm_remove tm (in_timers g)\<rparr>))"
    by (rule order_ok_count) simp
  then show ?thesis using Some by (simp add: dispatch_timer_def Let_def order_ok_enqueue)
qed

lemma order_taken_deliver:
  assumes "order_taken (t, sq) g"
  shows "order_ok (dispatch_deliver t sq a b m g)"
proof -
  let ?g1 = "snd (draw_percent (fc_drop_percent (in_faults g)) DropDecision g)"
  have g1: "order_taken (t, sq) ?g1" using assms by (simp add: same_order_taken [OF same_order_draws(2)])
  have deliver: "order_ok h \<Longrightarrow> order_ok (deliver_to_inbox a b m h)" for h :: "('a, 'b) inner"
    unfolding deliver_to_inbox_def Let_def by (rule order_ok_fold_enqueue) (simp add: order_ok_def)
  show ?thesis
    using assms g1 by (auto simp: dispatch_deliver_def Let_def split_beta intro!: order_ok_count deliver)
qed

lemma order_taken_nemesis:
  assumes "order_taken (t, sq) g"
  shows "order_ok (snd (dispatch_nemesis t sq a g))"
proof -
  have g1: "order_ok (count_dispatch (Dispatched t sq (NemesisEvent a)) g)"
    using assms by (rule order_ok_count) simp
  then show ?thesis
    by (cases a) (simp_all add: dispatch_nemesis_def Let_def order_ok_apply_nemesis
        same_order_ok [OF same_order_ops(13)])
qed

lemma order_taken_poll:
  assumes "order_taken (t, sq) g"
  shows "order_ok (snd (dispatch_poll t sq k g))"
proof -
  have ok: "order_ok g" using assms by (rule order_taken_ok)
  have counted: "order_ok (count_dispatch (Dispatched t sq (PollTask k)) (g\<lparr>in_tasks := ts\<rparr>))" for ts
    using assms same_order_taken [of g "g\<lparr>in_tasks := ts\<rparr>"]
    by (intro order_ok_count [of "(t, sq)"]) (simp_all add: same_order_def)
  have cur: "order_ok (h\<lparr>in_current_task := c\<rparr>) = order_ok h" for h :: "('a, 'b) inner" and c
    by (simp add: order_ok_def)
  have dropped: "order_ok (g\<lparr>in_tasks := ts, in_join_slots := js\<rparr>)" for ts js
    using ok by (simp add: order_ok_def)
  show ?thesis
    using ok counted dropped by (simp add: dispatch_poll_def Let_def cur split: option.split)
qed

lemma order_dispatch:
  assumes "order_ok g" and "queue_pop (in_queue g) = Some (e, q)"
  shows "order_ok (snd (dispatch_event e (take_event e q g)))"
proof -
  have taken: "order_taken (k_time e, k_seq e) (take_event e q g)"
    using order_ok_take [OF assms] by (simp add: key_of_def)
  show ?thesis
    using order_taken_timer [OF taken] order_taken_deliver [OF taken] order_taken_nemesis [OF taken]
      order_taken_poll [OF taken]
    by (simp add: dispatch_event_def split: event_kind.split)
qed

interpretation order: world_invariant order_ok "\<lambda>node task. order_ok"
proof unfold_locales
  fix g g' :: "('a, 'b) inner" and e q node task fut
  assume g: "order_ok g" and pop: "queue_pop (in_queue g) = Some (e, q)"
  show "order_ok (take_event e q g)" using order_ok_take [OF g pop] by (rule order_taken_ok)
  note d = order_dispatch [OF g pop]
  show "dispatch_event e (take_event e q g) = (None, g') \<Longrightarrow> order_ok g'" using d by simp
  show "dispatch_event e (take_event e q g) = (Some (PopRestart node), g') \<Longrightarrow> order_ok (restart_node node g')"
    using d by (simp add: order_ok_restart)
  show "dispatch_event e (take_event e q g) = (Some (PopPoll task fut), g') \<Longrightarrow> order_ok g'"
    using d by simp
next
  fix g :: "('a, 'b) inner" and task st
  show "order_ok g \<Longrightarrow> order_ok (finish_poll task st g)"
    by (simp add: same_order_ok [OF same_order_ops(11)])
qed (blast intro: order_ok_env_exec order_ok_complete)+

subsection \<open>Setting a world up\<close>

text \<open>Before the first run the clock stands at zero, so nothing can be scheduled in the past.\<close>

definition at_start :: "('f, 'v) inner \<Rightarrow> bool" where
  "at_start g \<longleftrightarrow> order_ok g \<and> in_now g = 0"

lemma at_start_push: "at_start g \<Longrightarrow> at_start (push_event t k g)"
  by (simp add: at_start_def order_ok_push)

lemma at_start_world: "at_start (world_from_tape s config tape)"
  by (simp add: at_start_def order_ok_def world_from_tape_def queue_wf_def trace_keys_def map_filter_def
      time_zero_def)

lemma at_start_same: "same_order g g' \<Longrightarrow> at_start g' = at_start g"
  by (simp add: at_start_def same_order_ok) (simp add: same_order_def)

lemma at_start_spawn_registered: "at_start g \<Longrightarrow> at_start (spawn_registered_node n f g)"
  by (simp add: spawn_registered_node_def Let_def split_beta enqueue_poll_now_def at_start_push
      at_start_same [OF same_order_ops(12)])

lemma at_start_add_node:
  assumes "at_start g" and "add_node_factory n f g = Inr g'"
  shows "at_start g'"
proof -
  have "same_order g (register_node n f g)"
    by (simp add: same_order_def register_node_def Let_def with_connectivity_def with_faults_def)
  then have "at_start (register_node n f g)" using assms(1) by (simp add: at_start_same)
  then show ?thesis
    using assms(2) by (auto simp: add_node_factory_def intro: at_start_spawn_registered split: if_splits)
qed

lemma at_start_add_nodes: "at_start g \<Longrightarrow> add_node_list ns f g = Inr g' \<Longrightarrow> at_start g'"
  by (induction ns arbitrary: g) (auto split: sum.splits dest: at_start_add_node)

lemma at_start_schedule: "at_start g \<Longrightarrow> at_start (snd (snd (schedule_nemesis_plan p n g)))"
proof (induction n arbitrary: p g)
  case (Suc n)
  have "at_start (g\<lparr>in_tape := t\<rparr>)" for t
    using Suc.prems at_start_same [of g "g\<lparr>in_tape := t\<rparr>"] by (simp add: same_order_def)
  with Suc.IH show ?case
    by (auto simp: Let_def split_beta at_start_push split: option.split prod.split)
qed simp

lemma apply_nemesis_now [simp]: "in_now (snd (apply_nemesis a g)) = in_now g"
  by (cases a) (simp_all add: apply_nemesis_def with_connectivity_def with_faults_def log_nemesis_def
      crash_node_def crash_storage_def bit_rot_storage_def Let_def split: option.split)

lemma at_start_nemesis: "at_start g \<Longrightarrow> at_start (snd (apply_nemesis a g))"
  by (simp add: at_start_def order_ok_apply_nemesis)

lemma at_start_restart: "at_start g \<Longrightarrow> at_start (restart_node n g)"
proof -
  assume g: "at_start g"
  then have "at_start (spawn_registered_node n f (g\<lparr>in_crashed := c\<rparr>))" for f c
    using at_start_same [of g "g\<lparr>in_crashed := c\<rparr>"]
    by (intro at_start_spawn_registered) (simp add: same_order_def)
  with g have "at_start (snd (restart_node_outcome n g))"
    by (auto simp: restart_node_outcome_def split: option.split)
  then show ?thesis
    by (simp add: restart_node_def Let_def split_beta at_start_same [OF same_order_ops(7)])
qed

lemma at_start_exec: "at_start g \<Longrightarrow> op \<noteq> OpRun \<Longrightarrow> world_exec nx op g = Some (Inr g') \<Longrightarrow> at_start g'"
  by (cases op) (auto simp: add_nodes_def at_start_push at_start_nemesis at_start_restart at_start_schedule
      at_start_same [OF same_order_ops(14)] intro: at_start_add_node at_start_add_nodes)

lemma at_start_script:
  "world_script nx ops g = Some (Inr g') \<Longrightarrow> OpRun \<notin> set ops \<Longrightarrow> at_start g \<Longrightarrow> at_start g'"
proof (induction ops arbitrary: g)
  case (Cons op ops)
  then obtain g1 where g1: "world_exec nx op g = Some (Inr g1)" "world_script nx ops g1 = Some (Inr g')"
    by (auto split: option.splits sum.splits)
  have "at_start g1"
    by (rule at_start_exec [OF Cons.prems(3) _ g1(1)]) (use Cons.prems(2) in auto)
  with g1(2) Cons.IH Cons.prems(2) show ?case by simp
qed simp

text \<open>C7
  Dispatch is a total order in logical time: in every state a world passes through while it runs, the
  lines of the trace are in strictly increasing (time, sequence number) order, every one of them
  counts one dispatched event, and no queued event lies before the current time, whatever the nodes
  run and whatever faults the test scheduled before the run.\<close>

theorem dispatch_order:
  assumes "world_script nx setup_ops (world_with_config s config) = Some (Inr g)" and "OpRun \<notin> set setup_ops"
    and "world_steps nx g g'"
  shows "sorted_wrt key_less (trace_keys (in_trace g'))
    \<and> in_dispatched g' = length (trace_keys (in_trace g'))
    \<and> (\<forall>e \<in> set (in_queue g'). in_now g' \<le> k_time e \<and> (\<forall>k \<in> set (trace_keys (in_trace g')). key_less k (key_of e)))"
proof -
  have "at_start g"
    using assms(1,2) by (rule at_start_script) (simp add: world_with_config_def at_start_world)
  then have "order_ok g'" using order.steps_keep [OF assms(3)] by (simp add: at_start_def)
  then show ?thesis by (simp add: order_ok_def)
qed

theorem dispatch_order_witness:
  "\<exists>g :: (unit, unit) inner. trace_keys (in_trace g) = [(5, 0)] \<and> sorted_wrt key_less (trace_keys (in_trace g))"
proof -
  let ?nx = "\<lambda>_. StepReady () :: (unit, unit) fut_step"
  let ?g = "push_event 5 (NemesisEvent HealAll) (world_with_config 1 world_config_default) :: (unit, unit) inner"
  let ?e = "\<lparr>k_time = 5, k_seq = 0, k_kind = NemesisEvent HealAll\<rparr>"
  let ?h = "snd (dispatch_event ?e (take_event ?e [] ?g))"
  have pop: "queue_pop (in_queue ?g) = Some (?e, [])"
    by (simp add: push_event_def world_with_config_def world_from_tape_def)
  have "\<not> over_budget (take_event ?e [] ?g)"
    by (simp add: over_budget_def take_event_def push_event_def world_with_config_def world_from_tape_def
        world_config_default_def)
  moreover have "dispatch_event ?e (take_event ?e [] ?g) = (None, ?h)"
    by (simp add: dispatch_event_def dispatch_nemesis_def Let_def)
  ultimately have step: "world_step ?nx ?g ?h" using pop by (blast intro: step_event)
  have "trace_keys (in_trace ?h) = [(5, 0)]"
    by (simp add: dispatch_event_def dispatch_nemesis_def apply_nemesis_def log_nemesis_def Let_def
        count_dispatch_def take_event_def push_event_def world_with_config_def world_from_tape_def
        trace_keys_def map_filter_def with_connectivity_def with_faults_def)
  then show ?thesis
    using dispatch_order [of ?nx "[OpScheduleNemesis 5 HealAll]" 1 world_config_default ?g ?h] step by auto
qed

end
