(* ===== verification/Sim_Crash.thy ===== *)
theory Sim_Crash
  imports Sim_Steps
begin

section \<open>Crashed nodes are silent\<close>

text \<open>
  \<open>crash_ok\<close>: while a node is crashed it has no task, no inbox and no parked receiver, and nothing it
  sent is on its way. Its interpretation \<open>crash\<close> of \<open>world_system_invariant\<close> carries it through every
  step and every call of a test. In the middle of a poll (\<open>crash_mid\<close>) the polled task exists and its
  node is up, which is why what the poll sends, receives and spawns keeps it. The last part says what a crash leaves
  of the node's storage device.
\<close>

definition crash_ok :: "('f, 'v) inner \<Rightarrow> bool" where
  "crash_ok g \<longleftrightarrow>
     in_crashed g \<subseteq> in_nodes g
     \<and> (\<forall>t slot. btm_get (in_tasks g) t = Some slot \<longrightarrow>
          ts_node slot \<notin> in_crashed g
          \<and> (\<forall>fut. ts_future slot = Some fut \<longrightarrow> fut_node fut = ts_node slot))
     \<and> (\<forall>n \<in> in_crashed g. btm_get (in_inboxes g) n = None \<and> btm_get (in_recv_waiters g) n = None)
     \<and> (\<forall>e \<in> set (in_queue g). \<forall>a b m. k_kind e = DeliverMsg a b m \<longrightarrow> a \<notin> in_crashed g)
     \<and> btm_wf (in_tasks g)"

definition crash_mid :: "node_id \<Rightarrow> task_id \<Rightarrow> ('f, 'v) inner \<Rightarrow> bool" where
  "crash_mid node task g \<longleftrightarrow>
     crash_ok g \<and> node \<notin> in_crashed g
     \<and> (\<exists>slot. btm_get (in_tasks g) task = Some slot \<and> ts_node slot = node)"

definition same_crash :: "('f, 'v) inner \<Rightarrow> ('f, 'v) inner \<Rightarrow> bool" where
  "same_crash g g' \<longleftrightarrow>
     in_crashed g' = in_crashed g \<and> in_nodes g' = in_nodes g \<and> in_tasks g' = in_tasks g
     \<and> in_inboxes g' = in_inboxes g \<and> in_recv_waiters g' = in_recv_waiters g
     \<and> (\<forall>e \<in> set (in_queue g'). e \<in> set (in_queue g) \<or> (\<forall>a b m. k_kind e = DeliverMsg a b m \<longrightarrow> a \<notin> in_crashed g))"

lemma same_crash_ok: "same_crash g g' \<Longrightarrow> crash_ok g \<Longrightarrow> crash_ok g'"
  by (simp add: same_crash_def crash_ok_def) metis

lemma same_crash_mid: "same_crash g g' \<Longrightarrow> crash_mid n t g \<Longrightarrow> crash_mid n t g'"
  using same_crash_ok [of g g'] by (auto simp: crash_mid_def same_crash_def)

lemma same_crash_refl [simp]: "same_crash g g"
  by (simp add: same_crash_def)

lemma same_crash_trans: "same_crash g g' \<Longrightarrow> same_crash g' g'' \<Longrightarrow> same_crash g g''"
  by (fastforce simp: same_crash_def)

lemma same_crash_push:
  "(\<And>a b m. kind = DeliverMsg a b m \<Longrightarrow> a \<notin> in_crashed g) \<Longrightarrow> same_crash g (push_event t kind g)"
  by (auto simp: same_crash_def push_event_def)

lemma same_crash_enqueue: "same_crash g (enqueue_poll_now k g)"
  by (auto simp: enqueue_poll_now_def intro: same_crash_push)

lemma same_crash_fold_enqueue: "same_crash g (fold enqueue_poll_now ks g)"
  by (induction ks arbitrary: g) (auto intro: same_crash_trans same_crash_enqueue)

lemma same_crash_ops [simp]:
  "same_crash g (snd (local_now n g))" "same_crash g (snd (next_sut_rng n g))"
  "same_crash g (cancel_timer t g)" "same_crash g (set_store n s g)" "same_crash g (env_record ev g)"
  "same_crash g (sleep_drop sf g)" "same_crash g (join_drop h g)" "same_crash g (log_nemesis a g)"
  "same_crash g (with_faults ff g)" "same_crash g (bit_rot_storage n g)" "same_crash g (crash_storage n g)"
  "same_crash g (count_dispatch l g)" "same_crash g (snd (tape_draw lab g))"
  "same_crash g (snd (draw_percent p lab g))"
  by (simp_all add: same_crash_def local_now_def next_sut_rng_def cancel_timer_def set_store_def
      env_record_def sleep_drop_def join_drop_def log_nemesis_def with_faults_def bit_rot_storage_def
      crash_storage_def count_dispatch_def tape_draw_def draw_percent_def Let_def split_beta split: option.split)

lemma same_crash_complete: "same_crash g (complete_join_slot k v g)"
  unfolding complete_join_slot_def Let_def
  by (rule same_crash_trans [OF _ same_crash_fold_enqueue]) (simp add: same_crash_def)

lemma same_crash_register_timer: "same_crash g (snd (register_timer k d g))"
  unfolding register_timer_def Let_def snd_conv
  by (rule same_crash_trans [OF _ same_crash_push]) (simp_all add: same_crash_def)

lemma same_crash_sleep_poll: "sleep_poll n s g = Inr (b, s', g') \<Longrightarrow> same_crash g g'"
  by (auto simp: sleep_poll_def Let_def split_beta split: if_splits option.splits
      intro: same_crash_trans [OF same_crash_ops(1)] same_crash_ops(3) same_crash_register_timer)

lemma same_crash_net_delay: "draw_net_delay_ms g = Inr (d, g') \<Longrightarrow> same_crash g g'"
  by (auto simp: draw_net_delay_ms_def Let_def split_beta split: if_splits
      intro: same_crash_trans [OF same_crash_ops(13) same_crash_ops(13)])

lemma same_crash_net_send:
  assumes "net_send a b m g = Inr g'"
  shows "same_crash g g'"
proof (cases "a \<in> in_crashed g")
  case True
  then show ?thesis using assms by (auto simp: net_send_def same_crash_def)
next
  case False
  then obtain d g1 where d: "draw_net_delay_ms g = Inr (d, g1)"
    using assms by (auto simp: net_send_def split: sum.splits)
  define t where "t = time_saturating_add (in_now g1) (duration_from_millis d)"
  define g2 where "g2 = push_event t (DeliverMsg a b m) g1"
  define g3 where "g3 = snd (draw_percent (fc_duplicate_percent (in_faults g2)) DuplicateDecision g2)"
  define g4 where "g4 = snd (tape_draw ExtraDelay g3)"
  have g1: "same_crash g g1" using d by (rule same_crash_net_delay)
  then have a1: "a \<notin> in_crashed g1" using False by (simp add: same_crash_def)
  then have "same_crash g1 g2" by (auto simp: g2_def intro: same_crash_push)
  with g1 have g3: "same_crash g g3" unfolding g3_def by (meson same_crash_trans same_crash_ops(14))
  then have g4: "same_crash g g4" unfolding g4_def by (meson same_crash_trans same_crash_ops(13))
  then have "a \<notin> in_crashed g4" using False by (simp add: same_crash_def)
  then have push: "same_crash g (push_event t' (DeliverMsg a b m) g4)" for t'
    by (intro same_crash_trans [OF g4] same_crash_push) simp
  show ?thesis
    using assms False d g3 push
    by (auto simp: net_send_def Let_def split_beta t_def [symmetric] g2_def [symmetric] g3_def [symmetric]
        g4_def [symmetric] split: if_splits)
qed

lemma leaf_same_crash:
  "join_poll h g = Inr (out, h', g') \<Longrightarrow> same_crash g g'"
  "storage_write_at n off d g = Inr g' \<Longrightarrow> same_crash g g'"
  "storage_flush n g = Inr g' \<Longrightarrow> same_crash g g'"
  by (auto simp: join_poll_def storage_write_at_def storage_flush_def Let_def same_crash_def set_store_def
      split: option.splits if_splits)

subsection \<open>Operations of a live node\<close>

lemma crash_mid_inbox:
  "crash_mid n t g \<Longrightarrow> crash_mid n t (g\<lparr>in_inboxes := btm_insert n ms (in_inboxes g)\<rparr>)"
  by (auto simp: crash_mid_def crash_ok_def)

lemma crash_mid_waiters:
  "crash_mid n t g \<Longrightarrow> crash_mid n t (g\<lparr>in_recv_waiters := btm_insert n ws (in_recv_waiters g)\<rparr>)"
  by (auto simp: crash_mid_def crash_ok_def)

lemma crash_mid_register:
  "crash_mid n t g \<Longrightarrow> crash_mid n t (register_recv_waiter n k g)"
  by (simp add: register_recv_waiter_def Let_def crash_mid_waiters)

lemma crash_mid_unregister:
  "crash_mid n t g \<Longrightarrow> crash_mid n t (unregister_recv_waiter n k g)"
  by (simp add: unregister_recv_waiter_def crash_mid_waiters split: option.split)

lemma crash_mid_recv_poll:
  "crash_mid n t g \<Longrightarrow> recv_poll n r g = Inr (msg, r', g') \<Longrightarrow> crash_mid n t g'"
  by (auto simp: recv_poll_def Let_def split: list.splits option.splits
      intro: crash_mid_register crash_mid_unregister crash_mid_inbox)

lemma crash_ok_add_task:
  assumes "crash_ok g" and "n \<notin> in_crashed g" and "fut_node f = n"
  shows "crash_ok (snd (add_task n f g))"
  using assms by (auto simp: crash_ok_def add_task_def Let_def)

lemma crash_mid_spawn:
  assumes "crash_mid n t g"
  shows "crash_mid n t (snd (env_spawn n f g))"
proof -
  let ?g1 = "g\<lparr>in_join_slots := in_join_slots g @ [join_slot_new]\<rparr>"
  let ?g2 = "snd (add_task n (SpawnFut n f (length (in_join_slots g))) ?g1)"
  have "crash_mid n t ?g1" using assms by (rule same_crash_mid [rotated]) (simp add: same_crash_def)
  then have "crash_mid n t ?g2"
    using crash_ok_add_task [of ?g1 n "SpawnFut n f (length (in_join_slots g))"]
    by (auto simp: crash_mid_def add_task_def Let_def)
  then show ?thesis
    by (simp add: env_spawn_def Let_def split_beta same_crash_mid [OF same_crash_enqueue])
qed

lemma crash_mid_env_exec:
  assumes "crash_mid node task g" and "env_exec node c g = Inr (r, g')"
  shows "crash_mid node task g'"
proof (cases c)
  case (CallSend b m)
  then show ?thesis using assms by (auto split: sum.splits intro: same_crash_mid same_crash_net_send)
next
  case (CallSleepPoll s)
  then show ?thesis using assms by (auto split: sum.splits intro: same_crash_mid same_crash_sleep_poll)
next
  case (CallRecvPoll s)
  then show ?thesis using assms by (auto split: sum.splits intro: crash_mid_recv_poll)
next
  case (CallRecvDrop s)
  then show ?thesis using assms by (auto simp: recv_drop_def split: option.splits intro: crash_mid_unregister)
next
  case (CallJoinPoll s)
  then show ?thesis using assms by (auto split: sum.splits intro: same_crash_mid leaf_same_crash)
next
  case (CallSpawn f)
  then show ?thesis using assms crash_mid_spawn by (auto simp: Let_def split_beta)
qed (use assms in \<open>auto simp: Let_def split_beta split: sum.splits
      intro: same_crash_mid same_crash_mid [OF leaf_same_crash(2)] same_crash_mid [OF leaf_same_crash(3)]
        same_crash_mid [OF same_crash_ops(1)] same_crash_mid [OF same_crash_ops(2)]
        same_crash_mid [OF same_crash_ops(5)] same_crash_mid [OF same_crash_ops(6)]
        same_crash_mid [OF same_crash_ops(7)]\<close>)

lemma crash_mid_finish:
  assumes "crash_mid node task g" and "\<And>fut. st = Some fut \<Longrightarrow> fut_node fut = node"
  shows "crash_ok (finish_poll task st g)"
  using assms by (cases st) (auto simp: finish_poll_def crash_mid_def crash_ok_def Let_def split: option.splits)

subsection \<open>Dispatching, crashing and restarting\<close>

lemma crash_ok_take:
  assumes "crash_ok g" and "queue_pop (in_queue g) = Some (e, q)"
  shows "crash_ok (take_event e q g)"
proof -
  have "set q \<subseteq> set (in_queue g)" using assms(2) by (cases "in_queue g") auto
  then have "same_crash g (take_event e q g)" by (auto simp: same_crash_def take_event_def)
  with assms(1) show ?thesis by (blast intro: same_crash_ok)
qed

lemma crash_ok_crash_node:
  assumes "crash_ok g"
  shows "crash_ok (crash_node n g)"
proof (cases "n \<in> in_nodes g")
  case True
  define removed where "removed = tasks_of_node n g"
  define timers where "timers = btm_retain (\<lambda>_ waiter. tw_task waiter \<notin> removed) (in_timers g)"
  define g1 where "g1 = g\<lparr>in_crashed := insert n (in_crashed g), in_inboxes := btm_remove n (in_inboxes g),
      in_recv_waiters := btm_map_values (filter (\<lambda>t. t \<notin> removed)) (btm_remove n (in_recv_waiters g)),
      in_tasks := btm_retain (\<lambda>_ slot. ts_node slot \<noteq> n) (in_tasks g),
      in_join_slots := drop_joiners removed (in_join_slots g), in_timers := timers\<rparr>"
  define g2 where "g2 = crash_storage n g1"
  have eq: "crash_node n g = g2\<lparr>in_queue :=
      queue_filter (\<lambda>e. event_is_live_after_crash (k_kind e) n removed timers) (in_queue g2)\<rparr>"
    using True by (simp add: crash_node_def Let_def removed_def timers_def g1_def g2_def)
  have f: "in_crashed g2 = insert n (in_crashed g)" "in_nodes g2 = in_nodes g"
    "in_inboxes g2 = btm_remove n (in_inboxes g)"
    "in_recv_waiters g2 = btm_map_values (filter (\<lambda>t. t \<notin> removed)) (btm_remove n (in_recv_waiters g))"
    "in_tasks g2 = btm_retain (\<lambda>_ slot. ts_node slot \<noteq> n) (in_tasks g)" "in_queue g2 = in_queue g"
    by (simp_all add: g2_def g1_def crash_storage_def Let_def)
  show ?thesis
    using assms True
    by (auto simp: eq crash_ok_def f btm_get_retain set_queue_filter split: option.splits if_splits)
qed (simp add: crash_node_def assms)

lemma crash_ok_apply_nemesis: "crash_ok g \<Longrightarrow> crash_ok (snd (apply_nemesis a g))"
proof -
  assume "crash_ok g"
  then have "crash_ok (log_nemesis a g)" by (blast intro: same_crash_ok same_crash_ops)
  then show ?thesis
    by (cases a) (auto simp: apply_nemesis_def with_connectivity_def
        intro: crash_ok_crash_node same_crash_ok [OF same_crash_ops(9)] same_crash_ok [OF same_crash_ops(10)])
qed

lemma crash_ok_spawn_registered:
  assumes "crash_ok g" and "n \<notin> in_crashed g"
  shows "crash_ok (spawn_registered_node n f g)"
proof -
  have "crash_ok (snd (add_task n (NodeFut n (f n)) g))"
    using assms by (rule crash_ok_add_task) simp
  then show ?thesis
    by (auto simp: spawn_registered_node_def Let_def split_beta intro: same_crash_ok [OF same_crash_enqueue])
qed

lemma crash_ok_restart:
  assumes "crash_ok g"
  shows "crash_ok (restart_node n g)"
proof -
  have "crash_ok (spawn_registered_node n f (g\<lparr>in_crashed := in_crashed g - {n}\<rparr>))" for f
    using assms by (intro crash_ok_spawn_registered) (auto simp: crash_ok_def)
  with assms have "crash_ok (snd (restart_node_outcome n g))"
    by (auto simp: restart_node_outcome_def split: option.split)
  then show ?thesis
    by (auto simp: restart_node_def Let_def split_beta intro: same_crash_ok [OF same_crash_ops(5)])
qed

lemma crash_ok_timer: "crash_ok g \<Longrightarrow> crash_ok (dispatch_timer t sq tm g)"
proof -
  assume g: "crash_ok g"
  have "same_crash g (enqueue_poll_now k (count_dispatch l (g\<lparr>in_timers := m\<rparr>)))" for k l m
    by (rule same_crash_trans [OF _ same_crash_enqueue]) (simp add: same_crash_def count_dispatch_def)
  with g show ?thesis
    by (auto simp: dispatch_timer_def Let_def intro: same_crash_ok split: option.split)
qed

lemma crash_ok_deliver_to_inbox:
  assumes "crash_ok g" and "b \<notin> in_crashed g"
  shows "crash_ok (deliver_to_inbox a b m g)"
  unfolding deliver_to_inbox_def Let_def
  by (rule same_crash_ok [OF same_crash_fold_enqueue]) (use assms in \<open>auto simp: crash_ok_def\<close>)

lemma crash_ok_deliver:
  assumes "crash_ok g"
  shows "crash_ok (dispatch_deliver t sq a b m g)"
proof -
  let ?g1 = "snd (draw_percent (fc_drop_percent (in_faults g)) DropDecision g)"
  have g1: "same_crash g ?g1" by simp
  have counted: "same_crash g (count_dispatch l ?g1)" for l
    using g1 same_crash_ops(12) by (rule same_crash_trans)
  have "crash_ok (deliver_to_inbox a b m (count_dispatch l ?g1))" if "b \<notin> in_crashed g" for l
    by (rule crash_ok_deliver_to_inbox) (use that counted [of l] assms in \<open>auto simp: same_crash_def intro: same_crash_ok [OF counted]\<close>)
  then show ?thesis
    using assms
    by (auto simp: dispatch_deliver_def Let_def split_beta
        intro: same_crash_ok [OF counted] same_crash_ok [OF same_crash_ops(12)])
qed

lemma crash_ok_nemesis: "crash_ok g \<Longrightarrow> crash_ok (snd (dispatch_nemesis t sq a g))"
  by (cases a) (auto simp: dispatch_nemesis_def Let_def intro!: crash_ok_apply_nemesis
      intro: same_crash_ok [OF same_crash_ops(12)] same_crash_ok [OF same_crash_ops(8)])

lemma crash_ok_poll:
  assumes "crash_ok g" and "dispatch_poll t sq k g = (r, g')"
  shows "crash_ok g' \<and> (\<forall>task fut. r = Some (PopPoll task fut) \<longrightarrow> crash_mid (fut_node fut) task g')"
  using assms
  by (auto simp: dispatch_poll_def crash_ok_def crash_mid_def count_dispatch_def Let_def
      split: option.splits if_splits)

lemma crash_dispatch:
  assumes "crash_ok g" and "dispatch_event e g = (r, g')"
  shows "crash_ok g' \<and> (\<forall>task fut. r = Some (PopPoll task fut) \<longrightarrow> crash_mid (fut_node fut) task g')"
proof (cases "k_kind e")
  case (PollTask k)
  then have "dispatch_poll (k_time e) (k_seq e) k g = (r, g')" using assms(2) by (simp add: dispatch_event_def)
  then show ?thesis by (rule crash_ok_poll [OF assms(1)])
next
  case (NemesisEvent a)
  then have r: "dispatch_nemesis (k_time e) (k_seq e) a g = (r, g')" using assms(2) by (simp add: dispatch_event_def)
  have "crash_ok g'" using crash_ok_nemesis [OF assms(1), of "k_time e" "k_seq e" a] r by simp
  moreover have "\<forall>task fut. r \<noteq> Some (PopPoll task fut)"
    using r by (cases a) (auto simp: dispatch_nemesis_def Let_def)
  ultimately show ?thesis by blast
qed (use assms in \<open>auto simp: dispatch_event_def intro: crash_ok_timer crash_ok_deliver\<close>)

lemma crash_ok_start: "crash_ok (world_from_tape s config tape)"
  by (simp add: crash_ok_def world_from_tape_def)

lemma crash_ok_add_node:
  assumes "crash_ok g" and "add_node_factory n f g = Inr g'"
  shows "crash_ok g'"
proof -
  have fresh: "n \<notin> in_nodes g" and g': "g' = spawn_registered_node n f (register_node n f g)"
    using assms(2) by (auto simp: add_node_factory_def split: if_splits)
  have up: "n \<notin> in_crashed (register_node n f g)"
    using assms(1) fresh by (auto simp: crash_ok_def register_node_def with_connectivity_def with_faults_def Let_def)
  have "crash_ok (register_node n f g)"
    using assms(1) fresh by (auto simp: crash_ok_def register_node_def with_connectivity_def with_faults_def Let_def)
  then show ?thesis unfolding g' using up by (rule crash_ok_spawn_registered)
qed

lemma crash_ok_add_nodes: "crash_ok g \<Longrightarrow> add_node_list ns f g = Inr g' \<Longrightarrow> crash_ok g'"
proof (induction ns arbitrary: g)
  case (Cons n ns)
  then obtain g1 where "add_node_factory n f g = Inr g1" "add_node_list ns f g1 = Inr g'"
    by (auto split: sum.splits)
  with Cons show ?case by (blast intro: crash_ok_add_node)
qed simp

lemma crash_ok_schedule: "crash_ok g \<Longrightarrow> crash_ok (snd (snd (schedule_nemesis_plan p n g)))"
proof (induction n arbitrary: p g)
  case (Suc n)
  have "crash_ok (g\<lparr>in_tape := t\<rparr>)" for t
    using Suc.prems by (simp add: crash_ok_def)
  then have "crash_ok (push_event at0 (NemesisEvent a) (g\<lparr>in_tape := t\<rparr>))" for at0 a t
    by (blast intro: same_crash_ok same_crash_push)
  with Suc.IH \<open>\<And>t. crash_ok (g\<lparr>in_tape := t\<rparr>)\<close> show ?case
    by (auto simp: Let_def split_beta split: option.split prod.split)
qed simp

lemma crash_ok_exec:
  assumes "crash_ok g" and "op \<noteq> OpRun" and "world_exec nx op g = Some (Inr g')"
  shows "crash_ok g'"
proof -
  have push: "crash_ok (push_event at0 (NemesisEvent a) g)" for at0 a
    using assms(1) by (blast intro: same_crash_ok same_crash_push)
  show ?thesis
    using assms push
    by (cases op) (auto simp: add_nodes_def crash_ok_apply_nemesis crash_ok_restart crash_ok_schedule
        intro: crash_ok_add_node crash_ok_add_nodes same_crash_ok [OF same_crash_ops(9)])
qed

interpretation crash: world_system_invariant crash_ok crash_mid
proof unfold_locales
  fix g g' :: "('a, 'b) inner" and e q node task fut
  assume g: "crash_ok g" and pop: "queue_pop (in_queue g) = Some (e, q)"
  show take: "crash_ok (take_event e q g)" using g pop by (rule crash_ok_take)
  show "dispatch_event e (take_event e q g) = (None, g') \<Longrightarrow> crash_ok g'"
    using crash_dispatch [OF take] by blast
  show "dispatch_event e (take_event e q g) = (Some (PopRestart node), g') \<Longrightarrow> crash_ok (restart_node node g')"
    using crash_dispatch [OF take] crash_ok_restart by blast
  show "dispatch_event e (take_event e q g) = (Some (PopPoll task fut), g') \<Longrightarrow> crash_mid (fut_node fut) task g'"
    using crash_dispatch [OF take] by blast
qed (blast intro: crash_mid_env_exec crash_mid_finish crash_ok_start crash_ok_exec
    same_crash_mid [OF same_crash_complete])+

lemma apply_crash_fields:
  "n \<in> in_nodes g \<Longrightarrow> in_nodes (snd (apply_nemesis (Crash n) g)) = in_nodes g
     \<and> in_crashed (snd (apply_nemesis (Crash n) g)) = insert n (in_crashed g)"
  by (simp add: apply_nemesis_def log_nemesis_def crash_node_def crash_storage_def Let_def)

lemma spawn_registered_fields:
  "in_nodes (spawn_registered_node n f g) = in_nodes g"
  "in_crashed (spawn_registered_node n f g) = in_crashed g"
  by (simp_all add: spawn_registered_node_def add_task_def enqueue_poll_now_def push_event_def Let_def)

lemma register_node_fields:
  "in_nodes (register_node n f g) = insert n (in_nodes g)"
  "in_crashed (register_node n f g) = in_crashed g"
  by (simp_all add: register_node_def with_connectivity_def with_faults_def Let_def)

text \<open>C6
  A crashed node is silent until it is restarted: in every state a test can reach, during a run or
  between its calls, whatever the nodes run, a crashed node has no task (so none can be polled), no
  inbox and no parked receiver, and no message it sent is in flight.\<close>

theorem crashed_node_is_silent:
  assumes "world_reachable nx s config g" and "n \<in> in_crashed g"
  shows "n \<notin> ts_node ` snd ` set (in_tasks g)
    \<and> btm_get (in_inboxes g) n = None \<and> btm_get (in_recv_waiters g) n = None
    \<and> (\<forall>e \<in> set (in_queue g). \<forall>b m. k_kind e \<noteq> DeliverMsg n b m)"
proof -
  have ok: "crash_ok g" using assms(1) by (rule crash.reachable_inv)
  then have "btm_wf (in_tasks g)" by (simp add: crash_ok_def)
  then have "btm_get (in_tasks g) task = Some slot" if "(task, slot) \<in> set (in_tasks g)" for task slot
    using that by (simp add: btm_get_iff_mem)
  then show ?thesis using ok assms(2) by (fastforce simp: crash_ok_def)
qed

theorem crashed_node_is_silent_witness:
  "\<exists>g :: (unit, unit) inner. in_nodes g = {0} \<and> in_crashed g = {0} \<and> 0 \<notin> ts_node ` snd ` set (in_tasks g)"
proof -
  define nx :: "unit \<Rightarrow> (unit, unit) fut_step" where "nx = (\<lambda>_. StepReady ())"
  define w where "w = (world_with_config 1 world_config_default :: (unit, unit) inner)"
  define g where "g = spawn_registered_node 0 (\<lambda>_. ()) (register_node 0 (\<lambda>_. ()) w)"
  define c where "c = snd (apply_nemesis (Crash 0) g)"
  have w: "in_nodes w = {}" "in_crashed w = {}"
    by (simp_all add: w_def world_with_config_def world_from_tape_def)
  have g: "in_nodes g = {0}" "in_crashed g = {}"
    using w by (simp_all add: g_def spawn_registered_fields register_node_fields)
  have "world_exec nx (OpAddNode 0 (\<lambda>_. ())) w = Some (Inr g)"
    using w by (simp add: add_node_factory_def g_def)
  then have "world_reachable nx 1 world_config_default g"
    unfolding w_def by (rule reach_op [OF reach_generate, rotated]) simp
  then have reach: "world_reachable nx 1 world_config_default c"
    by (rule reach_op [of _ _ _ _ "OpCrashNode 0"]) (simp_all add: c_def)
  have c: "in_nodes c = {0}" "in_crashed c = {0}"
    using apply_crash_fields [of 0 g] g by (simp_all add: c_def)
  then have "0 \<in> in_crashed c" by simp
  from crashed_node_is_silent [OF reach this, THEN conjunct1] c
  show ?thesis by (intro exI [of _ c] conjI)
qed

subsection \<open>What a crash does to the devices\<close>






end
