(* ===== verification/Sim_Replay.thy ===== *)
theory Sim_Replay
  imports Sim_World
begin

section \<open>Replay: a recorded tape reproduces the run\<close>

text \<open>
  \<open>rep L g\<close> is the state \<open>g\<close> with its tape in replay mode over the recording \<open>L\<close>, at the point
  where \<open>g\<close> stands. Each group of lemmas takes one layer of the simulator through it: an operation on
  \<open>rep L g\<close> does what it does on \<open>g\<close>, as long as what it draws is in \<open>L\<close>. The layers are the draws,
  the operations of \<open>inner\<close>, the environment calls, a poll, the dispatch loop, the run, and a script
  of calls on the world.
\<close>

definition rep :: "u64 list \<Rightarrow> ('f, 'v) inner \<Rightarrow> ('f, 'v) inner" where
  "rep L g = g\<lparr>in_tape := rep_tape L (in_tape g)\<rparr>"

abbreviation glog :: "('f, 'v) inner \<Rightarrow> u64 list" where
  "glog g \<equiv> tape_log (in_tape g)"

abbreviation gwf :: "('f, 'v) inner \<Rightarrow> bool" where
  "gwf g \<equiv> tape_wf (in_tape g)"

text \<open>The state after an operation has a well-formed tape with a longer log.\<close>

definition tape_grows :: "('f, 'v) inner \<Rightarrow> ('f, 'v) inner \<Rightarrow> bool" where
  "tape_grows g g' \<longleftrightarrow> (gwf g \<longrightarrow> gwf g' \<and> prefix (glog g) (glog g'))"

lemma tape_grows_refl [simp, intro]: "tape_grows g g"
  by (simp add: tape_grows_def)

lemma tape_grows_same: "in_tape g' = in_tape g \<Longrightarrow> tape_grows g g'"
  by (simp add: tape_grows_def)

lemma tape_grows_trans: "tape_grows g g' \<Longrightarrow> tape_grows g' g'' \<Longrightarrow> tape_grows g g''"
  by (auto simp: tape_grows_def)

lemma rep_fields [simp]:
  "in_now (rep L g) = in_now g" "in_seq (rep L g) = in_seq g" "in_queue (rep L g) = in_queue g"
  "in_tasks (rep L g) = in_tasks g" "in_next_task_id (rep L g) = in_next_task_id g"
  "in_current_task (rep L g) = in_current_task g" "in_nodes (rep L g) = in_nodes g"
  "in_factories (rep L g) = in_factories g" "in_crashed (rep L g) = in_crashed g"
  "in_inboxes (rep L g) = in_inboxes g" "in_recv_waiters (rep L g) = in_recv_waiters g"
  "in_timers (rep L g) = in_timers g" "in_next_timer_id (rep L g) = in_next_timer_id g"
  "in_storage (rep L g) = in_storage g" "in_faults (rep L g) = in_faults g"
  "in_rng_counter (rep L g) = in_rng_counter g" "in_last_local_now (rep L g) = in_last_local_now g"
  "in_config (rep L g) = in_config g" "in_seed (rep L g) = in_seed g" "in_trace (rep L g) = in_trace g"
  "in_nemesis_trace (rep L g) = in_nemesis_trace g" "in_history (rep L g) = in_history g"
  "in_dispatched (rep L g) = in_dispatched g" "in_join_slots (rep L g) = in_join_slots g"
  "in_tape (rep L g) = rep_tape L (in_tape g)"
  by (simp_all add: rep_def)

lemma rep_updates [simp]:
  "in_now_update f0 (rep L g) = rep L (in_now_update f0 g)"
  "in_seq_update f1 (rep L g) = rep L (in_seq_update f1 g)"
  "in_queue_update f2 (rep L g) = rep L (in_queue_update f2 g)"
  "in_tasks_update f3 (rep L g) = rep L (in_tasks_update f3 g)"
  "in_next_task_id_update f4 (rep L g) = rep L (in_next_task_id_update f4 g)"
  "in_current_task_update f5 (rep L g) = rep L (in_current_task_update f5 g)"
  "in_nodes_update f6 (rep L g) = rep L (in_nodes_update f6 g)"
  "in_factories_update f7 (rep L g) = rep L (in_factories_update f7 g)"
  "in_crashed_update f8 (rep L g) = rep L (in_crashed_update f8 g)"
  "in_inboxes_update f9 (rep L g) = rep L (in_inboxes_update f9 g)"
  "in_recv_waiters_update f10 (rep L g) = rep L (in_recv_waiters_update f10 g)"
  "in_timers_update f11 (rep L g) = rep L (in_timers_update f11 g)"
  "in_next_timer_id_update f12 (rep L g) = rep L (in_next_timer_id_update f12 g)"
  "in_storage_update f13 (rep L g) = rep L (in_storage_update f13 g)"
  "in_faults_update f14 (rep L g) = rep L (in_faults_update f14 g)"
  "in_rng_counter_update f15 (rep L g) = rep L (in_rng_counter_update f15 g)"
  "in_last_local_now_update f16 (rep L g) = rep L (in_last_local_now_update f16 g)"
  "in_config_update f17 (rep L g) = rep L (in_config_update f17 g)"
  "in_seed_update f18 (rep L g) = rep L (in_seed_update f18 g)"
  "in_trace_update f19 (rep L g) = rep L (in_trace_update f19 g)"
  "in_nemesis_trace_update f20 (rep L g) = rep L (in_nemesis_trace_update f20 g)"
  "in_history_update f21 (rep L g) = rep L (in_history_update f21 g)"
  "in_dispatched_update f22 (rep L g) = rep L (in_dispatched_update f22 g)"
  "in_join_slots_update f23 (rep L g) = rep L (in_join_slots_update f23 g)"
  by (simp_all add: rep_def)

subsection \<open>Draws\<close>

lemma tape_draw_grows: "tape_grows g (snd (tape_draw lab g))"
  by (simp add: tape_grows_def tape_draw_def Let_def split_beta draw_log draw_tape_wf)

lemma tape_draw_rep:
  "gwf g \<Longrightarrow> prefix (glog (snd (tape_draw lab g))) L \<Longrightarrow>
     tape_draw lab (rep L g) = (fst (tape_draw lab g), rep L (snd (tape_draw lab g)))"
  by (simp add: tape_draw_def Let_def split_beta draw_rep_tape rep_def)

lemma draw_percent_grows: "tape_grows g (snd (draw_percent p lab g))"
  by (simp add: draw_percent_def Let_def split_beta tape_draw_grows)

lemma draw_percent_rep:
  "gwf g \<Longrightarrow> prefix (glog (snd (draw_percent p lab g))) L \<Longrightarrow>
     draw_percent p lab (rep L g) = (fst (draw_percent p lab g), rep L (snd (draw_percent p lab g)))"
  by (simp add: draw_percent_def Let_def split_beta tape_draw_rep split: if_splits)

lemma draw_net_delay_grows: "draw_net_delay_ms g = Inr (d, g') \<Longrightarrow> tape_grows g g'"
  using tape_draw_grows [of g NetDelay] tape_draw_grows [of "snd (tape_draw NetDelay g)" ExtraDelay]
  by (auto simp: draw_net_delay_ms_def Let_def split_beta split: if_splits intro: tape_grows_trans)

lemma tape_draw_faults [simp]: "in_faults (snd (tape_draw lab g)) = in_faults g"
  by (simp add: tape_draw_def Let_def split_beta)

lemma draw_net_delay_rep:
  assumes "gwf g" and "draw_net_delay_ms g = Inr (d, g')" and "prefix (glog g') L"
  shows "draw_net_delay_ms (rep L g) = Inr (d, rep L g')"
proof -
  let ?g1 = "snd (tape_draw NetDelay g)"
  have wf1: "gwf ?g1" using tape_draw_grows [of g NetDelay] assms(1) by (simp add: tape_grows_def)
  have pre1: "prefix (glog ?g1) L"
    using assms tape_draw_grows [of ?g1 ExtraDelay] wf1
    by (auto simp: draw_net_delay_ms_def Let_def split_beta tape_grows_def split: if_splits
        intro: prefix_order.trans)
  note first = tape_draw_rep [OF assms(1) pre1]
  show ?thesis
  proof (cases "unat (fc_extra_delay_ms (in_faults g)) = 0")
    case True
    then show ?thesis using assms(2) first by (simp add: draw_net_delay_ms_def Let_def split_beta)
  next
    case False
    then have g': "g' = snd (tape_draw ExtraDelay ?g1)"
      using assms(2) by (auto simp: draw_net_delay_ms_def Let_def split_beta split: if_splits)
    have "tape_draw ExtraDelay (rep L ?g1) = (fst (tape_draw ExtraDelay ?g1), rep L g')"
      unfolding g' by (rule tape_draw_rep [OF wf1]) (use assms(3) g' in simp)
    then show ?thesis
      using False assms(2) first by (auto simp: draw_net_delay_ms_def Let_def split_beta split: if_splits)
  qed
qed

subsection \<open>Operations that draw nothing\<close>

lemma push_event_tape [simp]: "in_tape (push_event t k g) = in_tape g"
  by (simp add: push_event_def)

lemma push_event_rep [simp]: "push_event t k (rep L g) = rep L (push_event t k g)"
  by (simp add: push_event_def rep_def)

lemma enqueue_poll_now_tape [simp]: "in_tape (enqueue_poll_now t g) = in_tape g"
  by (simp add: enqueue_poll_now_def)

lemma enqueue_poll_now_rep [simp]: "enqueue_poll_now t (rep L g) = rep L (enqueue_poll_now t g)"
  by (simp add: enqueue_poll_now_def)

lemma fold_enqueue_tape [simp]: "in_tape (fold enqueue_poll_now ts g) = in_tape g"
  by (induction ts arbitrary: g) simp_all

lemma fold_enqueue_rep [simp]: "fold enqueue_poll_now ts (rep L g) = rep L (fold enqueue_poll_now ts g)"
  by (induction ts arbitrary: g) simp_all

lemma pair_ops_tape [simp]:
  "in_tape (snd (local_now n g)) = in_tape g"
  "in_tape (snd (add_task n f g)) = in_tape g"
  "in_tape (snd (register_timer k d g)) = in_tape g"
  "in_tape (snd (next_sut_rng n g)) = in_tape g"
  "in_tape (snd (env_spawn n fu g)) = in_tape g"
  by (simp_all add: local_now_def add_task_def register_timer_def next_sut_rng_def env_spawn_def Let_def)

lemma pair_ops_rep [simp]:
  "local_now n (rep L g) = (fst (local_now n g), rep L (snd (local_now n g)))"
  "add_task n f (rep L g) = (fst (add_task n f g), rep L (snd (add_task n f g)))"
  "register_timer k d (rep L g) = (fst (register_timer k d g), rep L (snd (register_timer k d g)))"
  "next_sut_rng n (rep L g) = (fst (next_sut_rng n g), rep L (snd (next_sut_rng n g)))"
  by (simp_all add: local_now_def add_task_def register_timer_def next_sut_rng_def Let_def
      clock_skew_def rep_def push_event_def)

lemma env_spawn_rep [simp]:
  "env_spawn n fu (rep L g) = (fst (env_spawn n fu g), rep L (snd (env_spawn n fu g)))"
  by (simp add: env_spawn_def add_task_def Let_def rep_def enqueue_poll_now_def push_event_def)

lemma unit_ops_tape [simp]:
  "in_tape (register_recv_waiter n k g) = in_tape g" "in_tape (unregister_recv_waiter n k g) = in_tape g"
  "in_tape (cancel_timer t g) = in_tape g" "in_tape (set_store n s g) = in_tape g"
  "in_tape (env_record ev g) = in_tape g" "in_tape (sleep_drop sf g) = in_tape g"
  "in_tape (recv_drop n r g) = in_tape g" "in_tape (join_drop h g) = in_tape g"
  "in_tape (complete_join_slot j v g) = in_tape g" "in_tape (count_dispatch l g) = in_tape g"
  "in_tape (log_nemesis a g) = in_tape g" "in_tape (finish_poll k p g) = in_tape g"
  "in_tape (take_event e q g) = in_tape g" "in_tape (with_faults ff g) = in_tape g"
  "in_tape (bit_rot_storage n g) = in_tape g" "in_tape (crash_storage n g) = in_tape g"
  "in_tape (deliver_to_inbox fr to m g) = in_tape g" "in_tape (dispatch_timer at0 sq tm g) = in_tape g"
  "in_tape (spawn_registered_node n fac g) = in_tape g"
  by (simp_all add: register_recv_waiter_def unregister_recv_waiter_def cancel_timer_def set_store_def
      env_record_def sleep_drop_def recv_drop_def join_drop_def complete_join_slot_def count_dispatch_def
      log_nemesis_def finish_poll_def take_event_def with_faults_def bit_rot_storage_def crash_storage_def
      deliver_to_inbox_def dispatch_timer_def spawn_registered_node_def Let_def split_beta split: option.split)

lemma unit_ops_rep [simp]:
  "register_recv_waiter n k (rep L g) = rep L (register_recv_waiter n k g)"
  "unregister_recv_waiter n k (rep L g) = rep L (unregister_recv_waiter n k g)"
  "cancel_timer t (rep L g) = rep L (cancel_timer t g)"
  "set_store n s (rep L g) = rep L (set_store n s g)"
  "env_record ev (rep L g) = rep L (env_record ev g)"
  "count_dispatch l (rep L g) = rep L (count_dispatch l g)"
  "log_nemesis a (rep L g) = rep L (log_nemesis a g)"
  "take_event e q (rep L g) = rep L (take_event e q g)"
  "with_faults ff (rep L g) = rep L (with_faults ff g)"
  by (simp_all add: register_recv_waiter_def unregister_recv_waiter_def cancel_timer_def set_store_def
      env_record_def count_dispatch_def log_nemesis_def take_event_def with_faults_def rep_def Let_def
      split: option.split)

lemma drop_ops_rep [simp]:
  "sleep_drop sf (rep L g) = rep L (sleep_drop sf g)"
  "recv_drop n r (rep L g) = rep L (recv_drop n r g)"
  "join_drop h (rep L g) = rep L (join_drop h g)"
  "bit_rot_storage n (rep L g) = rep L (bit_rot_storage n g)"
  "finish_poll k p (rep L g) = rep L (finish_poll k p g)"
  by (simp_all add: sleep_drop_def recv_drop_def join_drop_def bit_rot_storage_def finish_poll_def Let_def
      rep_def cancel_timer_def unregister_recv_waiter_def split: option.split)

lemma complete_join_slot_rep [simp]: "complete_join_slot j v (rep L g) = rep L (complete_join_slot j v g)"
  by (simp add: complete_join_slot_def Let_def)

lemma deliver_to_inbox_rep [simp]: "deliver_to_inbox fr to m (rep L g) = rep L (deliver_to_inbox fr to m g)"
  by (simp add: deliver_to_inbox_def Let_def)

lemma dispatch_timer_rep [simp]: "dispatch_timer t sq tm (rep L g) = rep L (dispatch_timer t sq tm g)"
  by (simp add: dispatch_timer_def Let_def split: option.split)

lemma spawn_registered_node_rep [simp]:
  "spawn_registered_node n fac (rep L g) = rep L (spawn_registered_node n fac g)"
  by (simp add: spawn_registered_node_def Let_def split_beta)

lemma crash_node_tape [simp]: "in_tape (crash_node n g) = in_tape g"
  by (simp add: crash_node_def Let_def)

lemma crash_node_rep [simp]: "crash_node n (rep L g) = rep L (crash_node n g)"
  by (simp add: crash_node_def crash_storage_def tasks_of_node_def Let_def rep_def)

lemma apply_nemesis_tape [simp]: "in_tape (snd (apply_nemesis a g)) = in_tape g"
  by (cases a) (simp_all add: apply_nemesis_def with_connectivity_def)

lemma apply_nemesis_rep [simp]:
  "apply_nemesis a (rep L g) = (fst (apply_nemesis a g), rep L (snd (apply_nemesis a g)))"
  by (cases a) (simp_all add: apply_nemesis_def with_connectivity_def restart_precheck_def)

lemma restart_node_tape [simp]: "in_tape (restart_node n g) = in_tape g"
  by (simp add: restart_node_def restart_node_outcome_def Let_def split_beta split: option.split)

lemma restart_node_rep [simp]: "restart_node n (rep L g) = rep L (restart_node n g)"
  by (simp add: restart_node_def restart_node_outcome_def Let_def split_beta split: option.split)

subsection \<open>Environment calls and polls\<close>

lemma sleep_poll_rep:
  "sleep_poll n s g = Inr (b, s', g') \<Longrightarrow>
     in_tape g' = in_tape g \<and> sleep_poll n s (rep L g) = Inr (b, s', rep L g')"
  by (auto simp: sleep_poll_def global_from_local_deadline_def clock_skew_def Let_def split_beta
      split: if_splits option.splits)

lemma recv_poll_rep:
  assumes "recv_poll n s g = Inr (b, s', g')"
  shows "in_tape g' = in_tape g \<and> recv_poll n s (rep L g) = Inr (b, s', rep L g')"
  using assms by (auto simp: recv_poll_def Let_def split: list.splits option.splits)

lemma join_poll_rep:
  assumes "join_poll s g = Inr (b, s', g')"
  shows "in_tape g' = in_tape g \<and> join_poll s (rep L g) = Inr (b, s', rep L g')"
  using assms by (cases "js_output (in_join_slots g ! jh_slot s)") (auto simp: join_poll_def Let_def split: if_splits option.splits)

lemma storage_rep:
  "storage_write_at n off d g = Inr g' \<Longrightarrow>
     in_tape g' = in_tape g \<and> storage_write_at n off d (rep L g) = Inr (rep L g')"
  "storage_flush n g = Inr g' \<Longrightarrow> in_tape g' = in_tape g \<and> storage_flush n (rep L g) = Inr (rep L g')"
  by (auto simp: storage_write_at_def storage_flush_def Let_def split: option.splits)

lemma storage_read_rep [simp]:
  "storage_read_at n off out (rep L g) = storage_read_at n off out g"
  "storage_len n (rep L g) = storage_len n g"
  by (simp_all add: storage_read_at_def storage_len_def)

lemma net_send_grows: "net_send a b m g = Inr g' \<Longrightarrow> tape_grows g g'"
proof -
  assume s: "net_send a b m g = Inr g'"
  show ?thesis
  proof (cases "a \<in> in_crashed g")
    case True
    then show ?thesis using s by (auto simp: net_send_def intro: tape_grows_same)
  next
    case False
    then obtain d g1 where d: "draw_net_delay_ms g = Inr (d, g1)"
      using s by (auto simp: net_send_def split: sum.splits)
    let ?t = "time_saturating_add (in_now g1) (duration_from_millis d)"
    let ?g2 = "push_event ?t (DeliverMsg a b m) g1"
    let ?g3 = "snd (draw_percent (fc_duplicate_percent (in_faults ?g2)) DuplicateDecision ?g2)"
    have "tape_grows g g1" using d by (rule draw_net_delay_grows)
    moreover have "tape_grows g1 ?g2" by (rule tape_grows_same) simp
    moreover have "tape_grows ?g2 ?g3" by (rule draw_percent_grows)
    ultimately have g3: "tape_grows g ?g3" by (blast intro: tape_grows_trans)
    have "g' = ?g3 \<or> in_tape g' = in_tape (snd (tape_draw ExtraDelay ?g3))"
      using s False d by (auto simp: net_send_def Let_def split_beta split: if_splits)
    with g3 show ?thesis
      using tape_draw_grows [of ?g3 ExtraDelay] tape_grows_trans [OF g3, of "snd (tape_draw ExtraDelay ?g3)"]
      by (auto simp: tape_grows_def)
  qed
qed

lemma tape_growsD: "tape_grows g g' \<Longrightarrow> gwf g \<Longrightarrow> gwf g'"
  "tape_grows g g' \<Longrightarrow> gwf g \<Longrightarrow> prefix (glog g') L \<Longrightarrow> prefix (glog g) L"
  by (auto simp: tape_grows_def intro: prefix_order.trans)

lemma net_send_rep:
  assumes "gwf g" and "net_send a b m g = Inr g'" and "prefix (glog g') L"
  shows "net_send a b m (rep L g) = Inr (rep L g')"
proof (cases "a \<in> in_crashed g")
  case True
  then show ?thesis using assms(2) by (auto simp: net_send_def)
next
  case False
  then obtain d g1 where d: "draw_net_delay_ms g = Inr (d, g1)"
    using assms(2) by (auto simp: net_send_def split: sum.splits)
  define t where "t = time_saturating_add (in_now g1) (duration_from_millis d)"
  define g2 where "g2 = push_event t (DeliverMsg a b m) g1"
  define r where "r = draw_percent (fc_duplicate_percent (in_faults g2)) DuplicateDecision g2"
  have g1: "tape_grows g g1" using d by (rule draw_net_delay_grows)
  then have wf2: "gwf g2" using tape_growsD(1) [OF g1 assms(1)] by (simp add: g2_def)
  have g3: "tape_grows g2 (snd r)" unfolding r_def by (rule draw_percent_grows)
  have wf3: "gwf (snd r)" using tape_growsD(1) [OF g3 wf2] .
  have cont: "g' = (if fst r
      then push_event (time_saturating_add t (duration_from_millis (1 + unat (fst (tape_draw ExtraDelay (snd r))) mod 10)))
             (DeliverMsg a b m) (snd (tape_draw ExtraDelay (snd r)))
      else snd r)"
    using assms(2) False d by (simp add: net_send_def Let_def split_beta t_def g2_def r_def split: if_splits)
  have pre3: "prefix (glog (snd r)) L"
    using assms(3) cont tape_growsD(2) [OF tape_draw_grows wf3] by (auto split: if_splits)
  have pre2: "prefix (glog g2) L" using g3 wf2 pre3 by (rule tape_growsD(2))
  have first: "draw_net_delay_ms (rep L g) = Inr (d, rep L g1)"
    using assms(1) d pre2 by (intro draw_net_delay_rep) (simp_all add: g2_def)
  have second: "draw_percent (fc_duplicate_percent (in_faults g2)) DuplicateDecision (rep L g2) = (fst r, rep L (snd r))"
    using draw_percent_rep [OF wf2] pre3 by (simp add: r_def)
  have third: "fst r \<Longrightarrow> tape_draw ExtraDelay (rep L (snd r)) =
      (fst (tape_draw ExtraDelay (snd r)), rep L (snd (tape_draw ExtraDelay (snd r))))"
    using tape_draw_rep [OF wf3] assms(3) cont by simp
  show ?thesis
    using False first second third
    by (simp add: net_send_def Let_def cont t_def [symmetric] g2_def [symmetric])
qed

lemmas leaf_rep = sleep_poll_rep [THEN conjunct2] recv_poll_rep [THEN conjunct2] join_poll_rep [THEN conjunct2]
  storage_rep(1) [THEN conjunct2] storage_rep(2) [THEN conjunct2]

lemmas leaf_tape = sleep_poll_rep [THEN conjunct1] recv_poll_rep [THEN conjunct1] join_poll_rep [THEN conjunct1]
  storage_rep(1) [THEN conjunct1] storage_rep(2) [THEN conjunct1]

lemma env_exec_grows: "env_exec node c g = Inr (r, g') \<Longrightarrow> tape_grows g g'"
  by (cases c) (auto simp: Let_def split_beta split: sum.split_asm prod.split_asm
      intro: tape_grows_same net_send_grows tape_grows_same [OF leaf_tape(1)]
        tape_grows_same [OF leaf_tape(2)] tape_grows_same [OF leaf_tape(3)]
        tape_grows_same [OF leaf_tape(4)] tape_grows_same [OF leaf_tape(5)])

lemma env_exec_rep:
  assumes "gwf g" and "env_exec node c g = Inr (r, g')" and "prefix (glog g') L"
  shows "env_exec node c (rep L g) = Inr (r, rep L g')"
  using assms
  by (cases c) (auto simp: Let_def split_beta leaf_rep net_send_rep split: sum.split_asm prod.split_asm)

text \<open>One poll.\<close>

lemma poll_fut_step_rep:
  assumes ih: "\<And>nd f g y p g'. rec nx nd f g = Some y \<Longrightarrow> y = Inr (p, g') \<Longrightarrow>
      tape_grows g g' \<and> (gwf g \<longrightarrow> prefix (glog g') L \<longrightarrow> poll_fut nx nd f (rep L g) = Some (Inr (p, rep L g')))"
    and body: "(case nx f of
         StepReady v \<Rightarrow> Some (Inr (PolledReady v, g))
       | StepPending f' \<Rightarrow> Some (Inr (PolledPending f', g))
       | StepCall c k \<Rightarrow> (case env_exec nd c g of Inl p \<Rightarrow> Some (Inl p) | Inr (r, g') \<Rightarrow> rec nx nd (k r) g'))
       = Some (Inr (p, g'))"
  shows "tape_grows g g' \<and> (gwf g \<longrightarrow> prefix (glog g') L \<longrightarrow> poll_fut nx nd f (rep L g) = Some (Inr (p, rep L g')))"
proof (cases "nx f")
  case (StepCall c k)
  then obtain r g1 where e: "env_exec nd c g = Inr (r, g1)" "rec nx nd (k r) g1 = Some (Inr (p, g'))"
    using body by (auto split: sum.splits prod.splits)
  have g1: "tape_grows g g1" using e(1) by (rule env_exec_grows)
  have rest: "tape_grows g1 g'" "gwf g1 \<longrightarrow> prefix (glog g') L \<longrightarrow>
      poll_fut nx nd (k r) (rep L g1) = Some (Inr (p, rep L g'))"
    using ih [OF e(2) refl] by blast+
  have "poll_fut nx nd f (rep L g) = Some (Inr (p, rep L g'))" if "gwf g" "prefix (glog g') L"
  proof -
    have wf1: "gwf g1" using g1 that(1) by (rule tape_growsD)
    have "env_exec nd c (rep L g) = Inr (r, rep L g1)"
      using that(1) e(1) tape_growsD(2) [OF rest(1) wf1 that(2)] by (rule env_exec_rep)
    then show ?thesis
      using rest(2) wf1 that(2) StepCall by (subst poll_fut.simps) simp
  qed
  then show ?thesis using tape_grows_trans [OF g1 rest(1)] by blast
qed (use body in \<open>auto simp: poll_fut.simps\<close>)

lemma poll_fut_rep:
  assumes "poll_fut nx node f g = Some (Inr (p, g'))"
  shows "tape_grows g g' \<and> (gwf g \<longrightarrow> prefix (glog g') L \<longrightarrow> poll_fut nx node f (rep L g) = Some (Inr (p, rep L g')))"
proof -
  have "\<forall>p g'. y = Inr (p, g') \<longrightarrow> tape_grows g g' \<and> (gwf g \<longrightarrow> prefix (glog g') L \<longrightarrow>
      poll_fut nx node f (rep L g) = Some (Inr (p, rep L g')))"
    if "poll_fut nx node f g = Some y" for nx :: "'a \<Rightarrow> ('a, 'b) fut_step" and node f g y
    using that
  proof (rule poll_fut.raw_induct [where P = "\<lambda>nx node f g y. \<forall>p g'. y = Inr (p, g') \<longrightarrow>
      tape_grows g g' \<and> (gwf g \<longrightarrow> prefix (glog g') L \<longrightarrow>
         poll_fut nx node f (rep L g) = Some (Inr (p, rep L g')))", rotated], intro allI impI, goal_cases)
    case (1 rec nx node f g y p g')
    show ?case
      by (rule poll_fut_step_rep [of rec nx]) (use 1 in blast, use 1(2-) in simp)
  qed
  with assms show ?thesis by blast
qed

lemma poll_box_rep:
  assumes "poll_box nx fut g = Some (Inr (st, g'))"
  shows "tape_grows g g' \<and> (gwf g \<longrightarrow> prefix (glog g') L \<longrightarrow> poll_box nx fut (rep L g) = Some (Inr (st, rep L g')))"
proof (cases fut)
  case (NodeFut node f)
  then obtain p h where p: "poll_fut nx node f g = Some (Inr (p, h))"
    using assms by (auto simp: poll_box_def split: option.splits sum.splits)
  show ?thesis
    using assms p poll_fut_rep [OF p, of L] NodeFut by (cases p) (auto simp: poll_box_def)
next
  case (SpawnFut node f k)
  then obtain p h where p: "poll_fut nx node f g = Some (Inr (p, h))"
    using assms by (auto simp: poll_box_def split: option.splits sum.splits)
  show ?thesis
    using assms p poll_fut_rep [OF p, of L] SpawnFut by (cases p) (auto simp: poll_box_def tape_grows_def)
qed

subsection \<open>The dispatch loop\<close>

lemma dispatch_deliver_rep:
  "tape_grows g (dispatch_deliver t sq a b m g)
   \<and> (gwf g \<longrightarrow> prefix (glog (dispatch_deliver t sq a b m g)) L \<longrightarrow>
        dispatch_deliver t sq a b m (rep L g) = rep L (dispatch_deliver t sq a b m g))"
proof -
  let ?r = "draw_percent (fc_drop_percent (in_faults g)) DropDecision g"
  have tape: "in_tape (dispatch_deliver t sq a b m g) = in_tape g \<or> in_tape (dispatch_deliver t sq a b m g) = in_tape (snd ?r)"
    by (simp add: dispatch_deliver_def Let_def split_beta)
  have "tape_grows g (snd ?r)" by (rule draw_percent_grows)
  then have "tape_grows g (dispatch_deliver t sq a b m g)"
    using tape by (auto simp: tape_grows_def)
  then show ?thesis
    by (auto simp: dispatch_deliver_def Let_def split_beta draw_percent_rep)
qed

lemma dispatch_nemesis_tape [simp]: "in_tape (snd (dispatch_nemesis t sq a g)) = in_tape g"
  by (cases a) (simp_all add: dispatch_nemesis_def Let_def)

lemma dispatch_nemesis_rep [simp]:
  "dispatch_nemesis t sq a (rep L g) = (fst (dispatch_nemesis t sq a g), rep L (snd (dispatch_nemesis t sq a g)))"
  by (cases a) (simp_all add: dispatch_nemesis_def Let_def)

lemma dispatch_poll_tape [simp]: "in_tape (snd (dispatch_poll t sq k g)) = in_tape g"
  by (simp add: dispatch_poll_def Let_def split: option.split)

lemma dispatch_poll_rep [simp]:
  "dispatch_poll t sq k (rep L g) = (fst (dispatch_poll t sq k g), rep L (snd (dispatch_poll t sq k g)))"
  by (simp add: dispatch_poll_def Let_def split: option.split)

lemma dispatch_event_rep:
  "tape_grows g (snd (dispatch_event e g))
   \<and> (gwf g \<longrightarrow> prefix (glog (snd (dispatch_event e g))) L \<longrightarrow>
        dispatch_event e (rep L g) = (fst (dispatch_event e g), rep L (snd (dispatch_event e g))))"
  using dispatch_deliver_rep [of g "k_time e" "k_seq e" _ _ _ L]
  by (auto simp: dispatch_event_def intro: tape_grows_same split: event_kind.split)

lemma over_budget_rep [simp]: "over_budget (rep L g) = over_budget g"
  by (simp add: over_budget_def)

lemma pop_until_poll_rep:
  "tape_grows g (snd (pop_until_poll g))
   \<and> (gwf g \<longrightarrow> prefix (glog (snd (pop_until_poll g))) L \<longrightarrow>
        pop_until_poll (rep L g) = (fst (pop_until_poll g), rep L (snd (pop_until_poll g))))"
proof (rule pop_until_poll_rule [where P = "\<lambda>g x. tape_grows g (snd x) \<and> (gwf g \<longrightarrow> prefix (glog (snd x)) L \<longrightarrow>
    pop_until_poll (rep L g) = (fst x, rep L (snd x)))"], goal_cases)
  case (1 g)
  then show ?case by (subst pop_until_poll.simps) simp
next
  case (2 g e q)
  then show ?case by (subst pop_until_poll.simps) (simp add: tape_grows_same)
next
  case (3 g e q r)
  let ?g1 = "take_event e q g"
  have grows: "tape_grows g (snd (dispatch_event e ?g1))"
    using dispatch_event_rep [of ?g1 e L] by (simp add: tape_grows_def)
  then show ?case
    using 3 dispatch_event_rep [of ?g1 e L] by (subst pop_until_poll.simps) simp
next
  case (4 g e q x)
  let ?g1 = "take_event e q g"
  let ?g2 = "snd (dispatch_event e ?g1)"
  have d: "tape_grows ?g1 ?g2"
    "gwf ?g1 \<Longrightarrow> prefix (glog ?g2) L \<Longrightarrow> dispatch_event e (rep L ?g1) = (None, rep L ?g2)"
    using dispatch_event_rep [of ?g1 e L] 4(3) by auto
  then have g2: "tape_grows g ?g2" by (simp add: tape_grows_def)
  have rest: "tape_grows ?g2 (snd x)"
    "gwf ?g2 \<Longrightarrow> prefix (glog (snd x)) L \<Longrightarrow> pop_until_poll (rep L ?g2) = (fst x, rep L (snd x))"
    using 4(4) by blast+
  have "pop_until_poll (rep L g) = (fst x, rep L (snd x))" if wf: "gwf g" and pre: "prefix (glog (snd x)) L"
  proof -
    have wf2: "gwf ?g2" using g2 wf by (rule tape_growsD)
    have "dispatch_event e (rep L ?g1) = (None, rep L ?g2)"
      using d(2) wf tape_growsD(2) [OF rest(1) wf2 pre] by simp
    then show ?thesis
      using 4(1,2) rest(2) [OF wf2 pre] by (subst pop_until_poll.simps) simp
  qed
  then show ?case using tape_grows_trans [OF g2 rest(1)] by blast
qed

subsection \<open>The run\<close>

lemma run_loop_rep:
  assumes "run_loop nx g = Some (Inr g')"
  shows "tape_grows g g' \<and> (gwf g \<longrightarrow> prefix (glog g') L \<longrightarrow> run_loop nx (rep L g) = Some (Inr (rep L g')))"
  using assms
proof (induction nx g rule: run_loop.induct)
  case (1 nx g)
  obtain r g1 where p: "pop_until_poll g = (r, g1)" by (cases "pop_until_poll g")
  have grows: "tape_grows g g1"
    and pop: "gwf g \<Longrightarrow> prefix (glog g1) L \<Longrightarrow> pop_until_poll (rep L g) = (r, rep L g1)"
    using pop_until_poll_rep [of g L] p by auto
  show ?case
  proof (cases r)
    case (PopRestart node)
    have l: "run_loop nx (restart_node node g1) = Some (Inr g')"
      using "1.prems"(1) p PopRestart by (subst (asm) run_loop.simps) simp
    have rest: "tape_grows g1 g'"
      "gwf g1 \<Longrightarrow> prefix (glog g') L \<Longrightarrow> run_loop nx (rep L (restart_node node g1)) = Some (Inr (rep L g'))"
      using "1.IH"(1) [OF p [symmetric] PopRestart l] by (auto simp: tape_grows_def)
    have "run_loop nx (rep L g) = Some (Inr (rep L g'))" if "gwf g" "prefix (glog g') L"
    proof -
      have wf1: "gwf g1" using grows that(1) by (rule tape_growsD)
      have "pop_until_poll (rep L g) = (PopRestart node, rep L g1)"
        using pop that tape_growsD(2) [OF rest(1) wf1] PopRestart by blast
      then show ?thesis using rest(2) [OF wf1 that(2)] by (subst run_loop.simps) simp
    qed
    then show ?thesis using tape_grows_trans [OF grows rest(1)] by blast
  next
    case (PopPoll task fut)
    then obtain st g2 where b: "poll_box nx fut g1 = Some (Inr (st, g2))"
      and l: "run_loop nx (finish_poll task st g2) = Some (Inr g')"
      using "1.prems"(1) p by (subst (asm) run_loop.simps) (auto split: option.splits sum.splits)
    note b_rep = poll_box_rep [OF b, of L]
    have rest: "tape_grows g2 g'"
      "gwf g2 \<Longrightarrow> prefix (glog g') L \<Longrightarrow> run_loop nx (rep L (finish_poll task st g2)) = Some (Inr (rep L g'))"
      using "1.IH"(2) [OF p [symmetric] PopPoll b refl refl l] by (auto simp: tape_grows_def)
    have "run_loop nx (rep L g) = Some (Inr (rep L g'))" if "gwf g" "prefix (glog g') L"
    proof -
      have wf1: "gwf g1" using grows that(1) by (rule tape_growsD)
      have wf2: "gwf g2" using b_rep wf1 by (blast intro: tape_growsD)
      have pre2: "prefix (glog g2) L" using rest(1) wf2 that(2) by (rule tape_growsD)
      have pre1: "prefix (glog g1) L" using b_rep wf1 pre2 by (blast intro: tape_growsD)
      have "pop_until_poll (rep L g) = (PopPoll task fut, rep L g1)"
        using pop [OF that(1) pre1] PopPoll by simp
      moreover have "poll_box nx fut (rep L g1) = Some (Inr (st, rep L g2))"
        using b_rep wf1 pre2 by blast
      ultimately show ?thesis using rest(2) [OF wf2 that(2)] by (subst run_loop.simps) simp
    qed
    then show ?thesis using tape_grows_trans [OF grows tape_grows_trans] b_rep rest(1) by blast
  qed (use "1.prems" p grows pop in \<open>subst (asm) run_loop.simps; subst run_loop.simps; auto\<close>)+
qed

subsection \<open>Plans\<close>

text \<open>From \<open>t\<close> to \<open>t'\<close> the tape grows, and \<open>P L\<close> holds for every recording \<open>L\<close> that contains
  the log of \<open>t'\<close>.\<close>

definition tape_to :: "entropy_tape \<Rightarrow> entropy_tape \<Rightarrow> (u64 list \<Rightarrow> bool) \<Rightarrow> bool" where
  "tape_to t t' P \<longleftrightarrow>
     (tape_wf t \<longrightarrow> tape_wf t' \<and> prefix (tape_log t) (tape_log t') \<and> (\<forall>L. prefix (tape_log t') L \<longrightarrow> P L))"

lemma tape_to_refl: "(\<And>L. P L) \<Longrightarrow> tape_to t t P"
  by (simp add: tape_to_def)

lemma tape_to_mono: "tape_to t t' P \<Longrightarrow> (\<And>L. P L \<Longrightarrow> Q L) \<Longrightarrow> tape_to t t' Q"
  by (auto simp: tape_to_def)

lemma tape_to_trans:
  assumes "tape_to t t1 P" and "tape_to t1 t2 Q" and "\<And>L. P L \<Longrightarrow> Q L \<Longrightarrow> R L"
  shows "tape_to t t2 R"
  using assms unfolding tape_to_def by (meson prefix_order.trans)

lemma tape_to_draw:
  "tape_to t (snd (nemesis_tape_draw lab t))
     (\<lambda>L. nemesis_tape_draw lab (rep_tape L t)
        = (fst (nemesis_tape_draw lab t), rep_tape L (snd (nemesis_tape_draw lab t))))"
  using draw_rep_tape [of t "nemesis_draw_label lab"]
  by (auto simp: tape_to_def nemesis_tape_draw_def draw_log draw_tape_wf)

lemma random_link_next_to:
  assumes "random_link_next nemesis_tape_draw t0 cs up e t = (r, e', t')"
  shows "tape_to t t' (\<lambda>L. random_link_next nemesis_tape_draw t0 cs up e (rep_tape L t) = (r, e', rep_tape L t'))"
proof (cases "e \<or> cs = []")
  case True
  then show ?thesis using assms by (auto simp: random_link_next_def intro: tape_to_refl)
next
  case False
  then have t': "t' = snd (nemesis_tape_draw ''nemesis.link'' t)"
    using assms by (auto simp: random_link_next_def Let_def split_beta)
  show ?thesis
    unfolding t'
    by (rule tape_to_mono [OF tape_to_draw])
      (use False assms t' in \<open>auto simp: random_link_next_def Let_def split_beta\<close>)
qed

lemma random_partition_next_to:
  assumes "random_partition_next nemesis_tape_draw view na iv n t = (r, na', n', t')"
  shows "tape_to t t'
    (\<lambda>L. random_partition_next nemesis_tape_draw view na iv n (rep_tape L t) = (r, na', n', rep_tape L t'))"
proof (cases "n = 0 \<or> length (live_nodes view) < 2")
  case True
  then have "random_partition_next nemesis_tape_draw view na iv n u = (None, na, n, u)" for u
    by (auto simp: random_partition_next_def Let_def)
  then show ?thesis
    using assms by (auto intro: tape_to_refl)
next
  case False
  then have t': "t' = snd (nemesis_tape_draw ''nemesis.partition'' t)"
    using assms by (auto simp: random_partition_next_def Let_def split_beta)
  show ?thesis
    unfolding t'
    by (rule tape_to_mono [OF tape_to_draw])
      (use False assms t' in \<open>auto simp: random_partition_next_def Let_def split_beta\<close>)
qed

lemma next_action_to:
  "next_action nemesis_tape_draw view p t = (r, p', t') \<Longrightarrow>
     tape_to t t' (\<lambda>L. next_action nemesis_tape_draw view p (rep_tape L t) = (r, p', rep_tape L t'))"
  "refill nemesis_tape_draw view idx ps pend t = (ps', pend', t') \<Longrightarrow>
     tape_to t t' (\<lambda>L. refill nemesis_tape_draw view idx ps pend (rep_tape L t) = (ps', pend', rep_tape L t'))"
proof (induction "nemesis_tape_draw" view p t and "nemesis_tape_draw" view idx ps pend t
    arbitrary: r p' t' and ps' pend' t' rule: next_action_refill.induct)
  case (1 view actions cursor t)
  then show ?case by (auto simp: Let_def split_beta intro: tape_to_refl)
next
  case (2 view t0 cs up e t)
  then obtain e' where nx: "random_link_next nemesis_tape_draw t0 cs up e t = (r, e', t')"
      "p' = RandomLink t0 cs up e'"
    by (auto simp: Let_def split: prod.splits)
  from random_link_next_to [OF nx(1)] nx(2) show ?case by (auto elim!: tape_to_mono)
next
  case (3 view na iv n t)
  then obtain na' n' where nx: "random_partition_next nemesis_tape_draw view na iv n t = (r, na', n', t')"
      "p' = RandomPart na' iv n'"
    by (auto simp: Let_def split: prod.splits)
  from random_partition_next_to [OF nx(1)] nx(2) show ?case by (auto elim!: tape_to_mono)
next
  case (4 view plans pending t)
  obtain ps1 pend1 t1 where rf: "refill nemesis_tape_draw view 0 plans pending t = (ps1, pend1, t1)"
    by (cases "refill nemesis_tape_draw view 0 plans pending t")
  then have "t' = t1" using 4(2) by (auto simp: Let_def split: option.splits)
  then show ?case
    using 4(1) [OF rf] 4(2) rf by (auto simp: Let_def elim!: tape_to_mono split: option.splits)
next
  case (5 view idx pend t)
  then show ?case by (auto intro: tape_to_refl)
next
  case (6 view idx p ps pend t)
  define head_run where "head_run = (\<lambda>t. if btm_contains idx pend then (p, pend, t)
      else let (next, q, u) = next_action nemesis_tape_draw view p t
           in (q, (case next of None \<Rightarrow> pend | Some a \<Rightarrow> btm_insert idx a pend), u))"
  obtain q pend1 t1 where h: "head_run t = (q, pend1, t1)" by (cases "head_run t")
  obtain qs pend2 t2 where tail: "refill nemesis_tape_draw view (Suc idx) ps pend1 t1 = (qs, pend2, t2)"
    by (cases "refill nemesis_tape_draw view (Suc idx) ps pend1 t1")
  have unfold: "refill nemesis_tape_draw view idx (p # ps) pend u = (case head_run u of (q, pd, u1) \<Rightarrow>
      case refill nemesis_tape_draw view (Suc idx) ps pd u1 of (qs, pd2, u2) \<Rightarrow> (q # qs, pd2, u2))" for u
    by (simp add: head_run_def Let_def)
  have res: "ps' = q # qs" "pend' = pend2" "t' = t2"
    using 6(3) h tail unfolding unfold by simp_all
  have "tape_to t t1 (\<lambda>L. head_run (rep_tape L t) = (q, pend1, rep_tape L t1))"
  proof (cases "btm_contains idx pend")
    case True
    then show ?thesis using h by (auto simp: head_run_def intro: tape_to_refl)
  next
    case False
    obtain nx' q' u where na: "next_action nemesis_tape_draw view p t = (nx', q', u)"
      by (cases "next_action nemesis_tape_draw view p t")
    then show ?thesis
      using 6(1) [OF False na] h False by (auto simp: head_run_def elim!: tape_to_mono)
  qed
  moreover have "tape_to t1 t2
      (\<lambda>L. refill nemesis_tape_draw view (Suc idx) ps pend1 (rep_tape L t1) = (qs, pend2, rep_tape L t2))"
    using 6(2) h tail by (simp add: head_run_def)
  ultimately show ?case
    unfolding res by (rule tape_to_trans) (simp only: unfold prod.case)
qed

subsection \<open>Scripts of world operations\<close>

lemma world_view_rep [simp]: "world_view_of (rep L g) = world_view_of g"
  by (simp add: world_view_of_def)

lemma rep_tape_update: "rep L g\<lparr>in_tape := rep_tape L t\<rparr> = rep L (g\<lparr>in_tape := t\<rparr>)"
  by (simp add: rep_def)

lemma schedule_nemesis_plan_rep:
  assumes "schedule_nemesis_plan p n g = (k, p', g')"
  shows "tape_grows g g' \<and> (gwf g \<longrightarrow> prefix (glog g') L \<longrightarrow> schedule_nemesis_plan p n (rep L g) = (k, p', rep L g'))"
  using assms
proof (induction n arbitrary: p g k)
  case (Suc n)
  obtain r q t where na: "next_action nemesis_tape_draw (world_view_of g) p (in_tape g) = (r, q, t)"
    by (cases "next_action nemesis_tape_draw (world_view_of g) p (in_tape g)")
  note to = next_action_to(1) [OF na, unfolded tape_to_def]
  let ?g1 = "g\<lparr>in_tape := t\<rparr>"
  have grows: "tape_grows g ?g1" using to by (simp add: tape_grows_def)
  have na_rep: "next_action nemesis_tape_draw (world_view_of (rep L g)) p (in_tape (rep L g)) = (r, q, rep_tape L t)"
    if "gwf g" "prefix (tape_log t) L"
    using to that by simp
  show ?case
  proof (cases r)
    case None
    then show ?thesis
      using Suc.prems na na_rep grows by (auto simp: rep_tape_update)
  next
    case (Some a)
    obtain at_time action where a: "a = (at_time, action)" by (cases a)
    let ?g2 = "push_event at_time (NemesisEvent action) ?g1"
    obtain k' p2 where rec: "schedule_nemesis_plan q n ?g2 = (k', p2, g')" "k = Suc k'" "p' = p2"
      using Suc.prems na Some a by (cases "schedule_nemesis_plan q n ?g2") (simp add: Let_def)
    have ih: "tape_grows ?g2 g'"
      "gwf ?g2 \<longrightarrow> prefix (glog g') L \<longrightarrow> schedule_nemesis_plan q n (rep L ?g2) = (k', p', rep L g')"
      using Suc.IH [OF rec(1) [folded rec(3)]] by blast+
    have g2: "tape_grows g ?g2" using grows by (simp add: tape_grows_def)
    have "schedule_nemesis_plan p (Suc n) (rep L g) = (k, p', rep L g')" if wf: "gwf g" and pre: "prefix (glog g') L"
    proof -
      have wf2: "gwf ?g2" using g2 wf by (rule tape_growsD)
      have "prefix (tape_log t) L" using tape_growsD(2) [OF ih(1) wf2 pre] by simp
      then show ?thesis
        using na_rep [OF wf] ih(2) wf2 pre Some a rec(2) by (simp add: rep_tape_update Let_def)
    qed
    then show ?thesis using tape_grows_trans [OF g2 ih(1)] by blast
  qed
qed auto

lemma add_node_factory_rep:
  "add_node_factory n f g = Inr g' \<Longrightarrow>
     in_tape g' = in_tape g \<and> add_node_factory n f (rep L g) = Inr (rep L g')"
  by (auto simp: add_node_factory_def register_node_def Let_def with_connectivity_def split: if_splits)

lemma add_node_list_rep:
  "add_node_list ns f g = Inr g' \<Longrightarrow> in_tape g' = in_tape g \<and> add_node_list ns f (rep L g) = Inr (rep L g')"
proof (induction ns arbitrary: g)
  case (Cons n ns)
  then obtain g1 where g1: "add_node_factory n f g = Inr g1" "add_node_list ns f g1 = Inr g'"
    by (auto split: sum.splits)
  with Cons.IH add_node_factory_rep [OF g1(1), of L] show ?case by auto
qed simp

lemma world_exec_rep:
  assumes "world_exec nx op g = Some (Inr g')"
  shows "tape_grows g g' \<and> (gwf g \<longrightarrow> prefix (glog g') L \<longrightarrow> world_exec nx op (rep L g) = Some (Inr (rep L g')))"
proof (cases op)
  case (OpSchedulePlan p n)
  obtain k p' where "schedule_nemesis_plan p n g = (k, p', g')"
    using assms OpSchedulePlan by (cases "schedule_nemesis_plan p n g") simp
  from schedule_nemesis_plan_rep [OF this, of L] show ?thesis using OpSchedulePlan by auto
next
  case OpRun
  then show ?thesis using run_loop_rep [of nx g g' L] assms by simp
next
  case (OpAddNode n f)
  then have "add_node_factory n f g = Inr g'" using assms by simp
  from add_node_factory_rep [OF this, of L] show ?thesis using OpAddNode by (auto intro: tape_grows_same)
next
  case (OpAddNodes cnt f)
  then have "add_node_list (map of_nat [0..<unat cnt]) f g = Inr g'" using assms by (simp add: add_nodes_def)
  from add_node_list_rep [OF this, of L] show ?thesis
    using OpAddNodes by (auto simp: add_nodes_def intro: tape_grows_same)
qed (use assms in \<open>auto intro!: tape_grows_same\<close>)

lemma world_script_rep:
  assumes "world_script nx ops g = Some (Inr g')"
  shows "tape_grows g g' \<and> (gwf g \<longrightarrow> prefix (glog g') L \<longrightarrow> world_script nx ops (rep L g) = Some (Inr (rep L g')))"
  using assms
proof (induction ops arbitrary: g)
  case (Cons op ops)
  then obtain g1 where g1: "world_exec nx op g = Some (Inr g1)" "world_script nx ops g1 = Some (Inr g')"
    by (auto split: option.splits sum.splits)
  note step = world_exec_rep [OF g1(1), of L] and rest = Cons.IH [OF g1(2)]
  have "world_script nx (op # ops) (rep L g) = Some (Inr (rep L g'))" if "gwf g" "prefix (glog g') L"
  proof -
    have wf1: "gwf g1" using step that(1) by (blast intro: tape_growsD)
    have "prefix (glog g1) L" using rest wf1 that(2) by (blast intro: tape_growsD)
    then show ?thesis using step rest that wf1 by simp
  qed
  then show ?case using step rest by (blast intro: tape_grows_trans)
qed auto

lemma rep_world_with_config:
  "rep L (world_with_config s config) = world_replay s L config"
  by (simp add: rep_def world_with_config_def world_replay_def world_from_tape_def rep_tape_def
      tape_generate_def tape_replay_def)

text \<open>C1
  The replay theorem: whatever a test does to a world with a generated tape (adding nodes of any
  program, scheduling faults and plans, setting fault parameters, crashing, restarting, running, in
  any order and any number of times), doing the same to a world that replays the recorded tape
  returns, with the same trace, nemesis trace, history, tape log, labelled tape events, dispatch
  count and outcome; the report says that it was a replay, that the input was consumed and that it
  was not exhausted.\<close>

theorem replay_reproduces_run:
  fixes nx :: "'f \<Rightarrow> ('f, 'v) fut_step"
  assumes "world_script nx ops (world_with_config s config) = Some (Inr g)"
  shows "\<exists>g'. world_script nx ops (world_replay s (tape_log (in_tape g)) config) = Some (Inr g')
    \<and> run_report_of g' = (run_report_of g)
        \<lparr>rr_tape_replaying := True, rr_tape_input_len := Some (length (tape_log (in_tape g))),
         rr_tape_cursor := length (tape_log (in_tape g)),
         rr_tape_consumed_all := True, rr_tape_exhausted := False\<rparr>"
proof (intro exI conjI)
  let ?L = "tape_log (in_tape g)"
  have "gwf (world_with_config s config :: ('f, 'v) inner)"
    by (simp add: world_with_config_def world_from_tape_def)
  then show "world_script nx ops (world_replay s ?L config) = Some (Inr (rep ?L g))"
    using world_script_rep [OF assms, of ?L] by (simp add: rep_world_with_config)
  show "run_report_of (rep ?L g) = (run_report_of g)
        \<lparr>rr_tape_replaying := True, rr_tape_input_len := Some (length ?L),
         rr_tape_cursor := length ?L, rr_tape_consumed_all := True, rr_tape_exhausted := False\<rparr>"
    by (simp add: run_report_of_def Let_def rep_tape_diagnostics)
qed

theorem replay_reproduces_run_witness:
  "\<exists>g' :: (unit, unit) inner.
     world_script (\<lambda>_. StepReady ()) [OpSchedulePlan (random_link_fault_new 5 [(0, 1), (1, 0)] False) 1]
       (world_replay 7 (tape_log (in_tape (snd (snd (schedule_nemesis_plan
           (random_link_fault_new 5 [(0, 1), (1, 0)] False) 1
           (world_with_config 7 world_config_default :: (unit, unit) inner)))))) world_config_default) = Some (Inr g')
     \<and> \<not> rr_tape_exhausted (run_report_of g')"
proof -
  define p where "p = random_link_fault_new 5 [(0, 1), (1, 0)] False"
  define w where "w = (world_with_config 7 world_config_default :: (unit, unit) inner)"
  define g where "g = snd (snd (schedule_nemesis_plan p 1 w))"
  have "world_script (\<lambda>_. StepReady ()) [OpSchedulePlan p 1] (world_with_config 7 world_config_default)
      = Some (Inr g)"
    by (simp only: world_script.simps world_exec.simps g_def w_def option.case sum.case)
  from replay_reproduces_run [OF this] obtain g' :: "(unit, unit) inner" where
    "world_script (\<lambda>_. StepReady ()) [OpSchedulePlan p 1]
       (world_replay 7 (tape_log (in_tape g)) world_config_default) = Some (Inr g')"
    and "run_report_of g' = (run_report_of g)
        \<lparr>rr_tape_replaying := True, rr_tape_input_len := Some (length (tape_log (in_tape g))),
         rr_tape_cursor := length (tape_log (in_tape g)),
         rr_tape_consumed_all := True, rr_tape_exhausted := False\<rparr>"
    by blast
  then show ?thesis unfolding g_def w_def p_def by auto
qed

end
