(* ===== verification/Check_Search.thy ===== *)
theory Check_Search
  imports Prelude "HOL-Library.Multiset"
begin

section \<open>Searching for an order\<close>

text \<open>
  What the two searches of \<^verbatim>\<open>crates/detersim-check/src/lib.rs\<close> look for, without saying how: an
  order of \<open>n\<close> items, given by their indices, in which every item comes after its predecessors and
  every item is accepted in the state its turn finds (\<open>stp s i\<close> is the state after item \<open>i\<close>, if it is
  accepted). A configuration is the set of used items, as the code's vector of flags, and the state.
  \<open>completion\<close> says which index sequences lead from a configuration to the end; \<open>dead\<close> configurations
  have none. The lemmas are what both searches need to be complete although they never look at a
  configuration twice.
\<close>

fun legal_from :: "nat list list \<Rightarrow> ('s \<Rightarrow> nat \<Rightarrow> 's option) \<Rightarrow> bool list \<Rightarrow> 's \<Rightarrow> nat list \<Rightarrow> bool" where
  "legal_from preds stp used s [] = True"
| "legal_from preds stp used s (i # is) =
     (i < length used \<and> \<not> used ! i \<and> (\<forall>p \<in> set (preds ! i). used ! p)
      \<and> (case stp s i of None \<Rightarrow> False | Some s' \<Rightarrow> legal_from preds stp (used[i := True]) s' is))"

definition unused :: "bool list \<Rightarrow> nat" where
  "unused used = length (filter Not used)"

definition completion ::
  "nat list list \<Rightarrow> ('s \<Rightarrow> nat \<Rightarrow> 's option) \<Rightarrow> bool list \<Rightarrow> 's \<Rightarrow> nat list \<Rightarrow> bool" where
  "completion preds stp used s is \<longleftrightarrow> legal_from preds stp used s is \<and> length is = unused used"

definition dead :: "nat list list \<Rightarrow> ('s \<Rightarrow> nat \<Rightarrow> 's option) \<Rightarrow> bool list \<Rightarrow> 's \<Rightarrow> bool" where
  "dead preds stp used s \<longleftrightarrow> (\<nexists>is. completion preds stp used s is)"

text \<open>The test of both loops: the item is unused and its predecessors are used.\<close>

definition ready :: "nat list list \<Rightarrow> bool list \<Rightarrow> nat \<Rightarrow> bool" where
  "ready preds used idx \<longleftrightarrow> idx < length used \<and> \<not> used ! idx \<and> (\<forall>p \<in> set (preds ! idx). used ! p)"

lemma all_from_Suc:
  "(\<forall>i s'. idx \<le> i \<longrightarrow> P i s') = ((\<forall>s'. P idx s') \<and> (\<forall>i s'. Suc idx \<le> i \<longrightarrow> P i s'))"
  by (metis Suc_leD le_SucE le_antisym not_less_eq_eq order_refl)

lemma unused_replicate [simp]: "unused (replicate n False) = n"
  by (simp add: unused_def)

lemma unused_le_length: "unused used \<le> length used"
  by (simp add: unused_def)

lemma unused_update:
  assumes "i < length used" and "\<not> used ! i"
  shows "Suc (unused (used[i := True])) = unused used"
proof -
  have split: "used = take i used @ False # drop (Suc i) used"
    using assms by (metis id_take_nth_drop)
  have "used[i := True] = take i used @ True # drop (Suc i) used"
    using assms(1) by (simp add: upd_conv_take_nth_drop)
  moreover have "filter Not used = filter Not (take i used) @ False # filter Not (drop (Suc i) used)"
    by (subst split) simp
  ultimately show ?thesis by (simp add: unused_def)
qed

lemma unused_0_iff: "unused used = 0 \<longleftrightarrow> (\<forall>u \<in> set used. u)"
  by (auto simp: unused_def filter_empty_conv)

lemma unused_ready: "ready preds used i \<Longrightarrow> Suc (unused (used[i := True])) = unused used"
  by (simp add: ready_def unused_update)

lemma unused_after: "ready preds used i \<Longrightarrow> unused (used[i := True]) = unused used - Suc 0"
  using unused_ready [of preds used i] by linarith

lemma completion_Nil: "completion preds stp used s [] \<longleftrightarrow> unused used = 0"
  by (auto simp: completion_def)

lemma completion_Cons:
  "completion preds stp used s (i # is) \<longleftrightarrow>
     ready preds used i \<and> (\<exists>s'. stp s i = Some s' \<and> completion preds stp (used[i := True]) s' is)"
proof (cases "ready preds used i")
  case True
  then show ?thesis
    using unused_ready [OF True] by (auto simp: completion_def ready_def split: option.splits)
qed (auto simp: completion_def ready_def)

lemma dead_iff:
  assumes "0 < unused used"
  shows "dead preds stp used s \<longleftrightarrow>
     (\<forall>i s'. ready preds used i \<longrightarrow> stp s i = Some s' \<longrightarrow> dead preds stp (used[i := True]) s')"
proof -
  have "(\<exists>is. completion preds stp used s is) \<longleftrightarrow>
      (\<exists>i is. completion preds stp used s (i # is))"
    using assms completion_Nil [of preds stp used s] by (metis neq_Nil_conv less_not_refl)
  then show ?thesis by (auto simp: dead_def completion_Cons)
qed

subsection \<open>The table of configurations seen\<close>

text \<open>
  An entry of the table is dead, or belongs to a search in progress, which has more unused items than
  every configuration it leads to.
\<close>

definition seen_ok ::
  "nat list list \<Rightarrow> ('s \<Rightarrow> nat \<Rightarrow> 's option) \<Rightarrow> nat \<Rightarrow> (bool list \<times> 's) list \<Rightarrow> bool" where
  "seen_ok preds stp k seen \<longleftrightarrow>
     (\<forall>(u, t) \<in> set seen. dead preds stp u t \<or> k < unused u)"

lemma seen_okD:
  "seen_ok preds stp k seen \<Longrightarrow> (u, t) \<in> set seen \<Longrightarrow> unused u \<le> k \<Longrightarrow> dead preds stp u t"
  by (auto simp: seen_ok_def)

lemma seen_ok_mono: "seen_ok preds stp k seen \<Longrightarrow> k' \<le> k \<Longrightarrow> seen_ok preds stp k' seen"
  by (fastforce simp: seen_ok_def)

lemma seen_ok_Nil [simp]: "seen_ok preds stp k []"
  by (simp add: seen_ok_def)

text \<open>Entering a configuration: for the configurations below it, its own entry is in progress.\<close>

lemma seen_ok_enter:
  "seen_ok preds stp (unused used) seen \<Longrightarrow> Suc k = unused used \<Longrightarrow>
     seen_ok preds stp k (seen @ [(used, s)])"
  by (fastforce simp: seen_ok_def)

text \<open>The table while the configuration \<open>(used, s)\<close> is in progress.\<close>

definition seen_mid ::
  "nat list list \<Rightarrow> ('s \<Rightarrow> nat \<Rightarrow> 's option) \<Rightarrow> bool list \<Rightarrow> 's \<Rightarrow> (bool list \<times> 's) list \<Rightarrow> bool" where
  "seen_mid preds stp used s seen \<longleftrightarrow>
     (\<forall>(u, t) \<in> set seen. dead preds stp u t \<or> unused used < unused u \<or> (u, t) = (used, s))"

lemma seen_mid_enter:
  "seen_ok preds stp (unused used) seen \<Longrightarrow> seen_mid preds stp used s (seen @ [(used, s)])"
  by (auto simp: seen_ok_def seen_mid_def)

lemma seen_mid_below:
  "seen_mid preds stp used s seen \<Longrightarrow> Suc k = unused used \<Longrightarrow> seen_ok preds stp k seen"
  by (fastforce simp: seen_ok_def seen_mid_def)

lemma seen_mid_back:
  assumes "seen_ok preds stp k seen'" and "Suc k = unused used"
    and old: "\<And>u t. (u, t) \<in> set seen' \<Longrightarrow> unused u = unused used \<Longrightarrow> (u, t) \<in> set seen"
    and "seen_mid preds stp used s seen"
  shows "seen_mid preds stp used s seen'"
proof -
  have "dead preds stp u t" if mem: "(u, t) \<in> set seen'" and "\<not> unused used < unused u" and ne: "(u, t) \<noteq> (used, s)"
    for u t
  proof (cases "unused u = unused used")
    case True
    then have "(u, t) \<in> set seen" using mem old by blast
    with assms(4) ne True show ?thesis by (fastforce simp: seen_mid_def)
  next
    case False
    then have "unused u \<le> k" using that(2) assms(2) by linarith
    then show ?thesis using seen_okD [OF assms(1) mem] by blast
  qed
  then show ?thesis unfolding seen_mid_def by fast
qed

lemma seen_mid_leave:
  "seen_mid preds stp used s seen \<Longrightarrow> dead preds stp used s \<Longrightarrow> seen_ok preds stp (unused used) seen"
  by (fastforce simp: seen_ok_def seen_mid_def)

subsection \<open>Completions are permutations\<close>

text \<open>
  A completion from the start, without the bookkeeping of the search: a permutation of the items in which
  no item comes before one of its predecessors, and which runs.
\<close>

fun runs :: "('s \<Rightarrow> nat \<Rightarrow> 's option) \<Rightarrow> 's \<Rightarrow> nat list \<Rightarrow> bool" where
  "runs stp s [] = True"
| "runs stp s (i # is) = (case stp s i of None \<Rightarrow> False | Some s' \<Rightarrow> runs stp s' is)"

fun after_preds :: "nat list list \<Rightarrow> nat set \<Rightarrow> nat list \<Rightarrow> bool" where
  "after_preds preds B [] = True"
| "after_preds preds B (i # is) = (set (preds ! i) \<subseteq> B \<and> after_preds preds (insert i B) is)"

definition preds_wf :: "nat list list \<Rightarrow> nat \<Rightarrow> bool" where
  "preds_wf preds n \<longleftrightarrow> (\<forall>i < n. set (preds ! i) \<subseteq> {..<n} - {i})"

lemma preds_wfD: "preds_wf preds n \<Longrightarrow> i < n \<Longrightarrow> p \<in> set (preds ! i) \<Longrightarrow> p < n \<and> p \<noteq> i"
  by (auto simp: preds_wf_def)

lemma used_set_update:
  "i < length used \<Longrightarrow> {p. p < length used \<and> used[i := True] ! p} = insert i {p. p < length used \<and> used ! p}"
  by (auto simp: nth_list_update)

lemma legal_from_iff:
  assumes wf: "preds_wf preds n" and "length used = n"
  shows "legal_from preds stp used s is \<longleftrightarrow>
    distinct is \<and> (\<forall>i \<in> set is. i < n \<and> \<not> used ! i)
    \<and> after_preds preds {p. p < length used \<and> used ! p} is \<and> runs stp s is"
  using assms(2)
proof (induction "is" arbitrary: used s)
  case (Cons i "is")
  show ?case
  proof (cases "i < n \<and> \<not> used ! i")
    case True
    then have "(\<forall>p \<in> set (preds ! i). used ! p) \<longleftrightarrow> set (preds ! i) \<subseteq> {p. p < length used \<and> used ! p}"
      using preds_wfD [OF wf] Cons.prems by blast
    moreover have "(\<forall>j \<in> set is. j < n \<and> \<not> used[i := True] ! j) \<longleftrightarrow>
        i \<notin> set is \<and> (\<forall>j \<in> set is. j < n \<and> \<not> used ! j)"
      using True Cons.prems by (auto simp: nth_list_update)
    ultimately show ?thesis
      using True Cons used_set_update [of i used] by (auto split: option.splits)
  qed (use Cons.prems in auto)
qed simp

lemma after_preds_sorted:
  assumes "distinct is" and "\<forall>i \<in> set is. i \<notin> set (preds ! i) \<and> set (preds ! i) \<subseteq> B \<union> set is"
    and "set is \<inter> B = {}"
  shows "after_preds preds B is \<longleftrightarrow> sorted_wrt (\<lambda>i j. j \<notin> set (preds ! i)) is"
  using assms
proof (induction "is" arbitrary: B)
  case (Cons i "is")
  then have "after_preds preds (insert i B) is \<longleftrightarrow> sorted_wrt (\<lambda>i j. j \<notin> set (preds ! i)) is"
    by (intro Cons.IH) auto
  moreover have "set (preds ! i) \<subseteq> B \<longleftrightarrow> (\<forall>j \<in> set is. j \<notin> set (preds ! i))"
    using Cons.prems by auto
  ultimately show ?case by simp
qed simp

lemma distinct_card_lessThan: "distinct is \<Longrightarrow> set is \<subseteq> {..<n} \<Longrightarrow> length is = n \<longleftrightarrow> set is = {..<n}"
  by (metis card_lessThan card_subset_eq distinct_card finite_lessThan)

lemma legal_from_start:
  assumes wf: "preds_wf preds n"
  shows "legal_from preds stp (replicate n False) s is \<longleftrightarrow>
    distinct is \<and> set is \<subseteq> {..<n} \<and> after_preds preds {} is \<and> runs stp s is"
proof -
  have none: "{p. p < n \<and> replicate n False ! p} = {}" by auto
  have "(\<forall>i \<in> set is. i < n \<and> \<not> replicate n False ! i) \<longleftrightarrow> set is \<subseteq> {..<n}" by auto
  then show ?thesis
    using legal_from_iff [OF wf, of "replicate n False" stp s "is"] by (simp only: length_replicate none simp_thms)
qed

theorem completion_iff:
  assumes wf: "preds_wf preds n"
  shows "completion preds stp (replicate n False) s is \<longleftrightarrow>
    distinct is \<and> set is = {..<n} \<and> sorted_wrt (\<lambda>i j. j \<notin> set (preds ! i)) is \<and> runs stp s is"
proof (cases "distinct is \<and> set is = {..<n}")
  case True
  then have "after_preds preds {} is \<longleftrightarrow> sorted_wrt (\<lambda>i j. j \<notin> set (preds ! i)) is"
    using preds_wfD [OF wf] by (intro after_preds_sorted) auto
  moreover have "length is = n" using True distinct_card_lessThan by blast
  ultimately show ?thesis
    using True by (simp add: completion_def legal_from_start [OF wf])
next
  case False
  then show ?thesis
    using distinct_card_lessThan [of "is" n] by (auto simp: completion_def legal_from_start [OF wf])
qed

subsection \<open>The contract of a search\<close>

text \<open>
  What a search promises for a history \<open>h\<close>: \<open>found\<close> and \<open>gave_up\<close> are its two flags, \<open>steps\<close> its count,
  \<open>order_of\<close> the order it reports, and \<open>legal h is\<close> the specification it decides. Both checkers provide it,
  and what a caller may conclude from the flags is derived here once.
\<close>

locale order_search =
  fixes found gave_up :: "nat \<Rightarrow> 'h \<Rightarrow> bool"
    and steps :: "nat \<Rightarrow> 'h \<Rightarrow> nat"
    and legal :: "'h \<Rightarrow> nat list \<Rightarrow> bool"
    and enough :: "'h \<Rightarrow> nat"
  assumes sound: "found m h \<Longrightarrow> \<exists>is. legal h is"
    and exhaustive: "\<not> found m h \<Longrightarrow> \<not> gave_up m h \<Longrightarrow> \<not> legal h is"
    and exhausted: "gave_up m h \<Longrightarrow> m \<le> steps m h"
    and concludes: "enough h \<le> m \<Longrightarrow> \<not> gave_up m h"
begin

lemma decides: "\<not> gave_up m h \<Longrightarrow> found m h \<longleftrightarrow> (\<exists>is. legal h is)"
  using sound exhaustive by blast

lemma decides_with_budget: "enough h \<le> m \<Longrightarrow> found m h \<longleftrightarrow> (\<exists>is. legal h is)"
  using decides concludes by blast

lemma same_verdict:
  "\<not> gave_up m h \<Longrightarrow> \<not> gave_up m' h \<Longrightarrow> found m h \<longleftrightarrow> found m' h"
  by (simp add: decides)

end

end
