(* ===== verification/Check_Linear.thy ===== *)
theory Check_Linear
  imports Check_Search Core_Rng
begin

section \<open>The linearizability checker\<close>

text \<open>
  Models \<^verbatim>\<open>OpRecord\<close>, \<^verbatim>\<open>Model\<close>, \<^verbatim>\<open>check_linearizable\<close>, its search
  (\<^verbatim>\<open>run_search\<close>, \<^verbatim>\<open>predecessors\<close>, \<^verbatim>\<open>dfs\<close>) and
  \<^verbatim>\<open>minimize_failure\<close> of \<^verbatim>\<open>crates/detersim-check/src/lib.rs\<close>. The search is
  the code's depth-first search with its three pieces of mutable state: the count of explored
  configurations, the flag for a budget that ran out, and the table of configurations seen. The
  specification \<open>linearization\<close> speaks of permutations of the operations and knows nothing of the
  search. Step counts (\<^verbatim>\<open>u64\<close>, counted up by one) are \<open>nat\<close>.
\<close>

subsection \<open>Histories and sequential specifications\<close>

record ('i, 'o) op_record =
  op_id :: u64
  op_process :: u32
  op_invoke :: sim_time
  op_complete :: "sim_time option"
  op_input :: 'i
  op_output :: "'o option"

definition op_completed_at ::
  "u64 \<Rightarrow> u32 \<Rightarrow> 'i \<Rightarrow> 'o \<Rightarrow> sim_time \<Rightarrow> sim_time \<Rightarrow> ('i, 'o) op_record" where
  "op_completed_at id0 process input output invoked returned =
     \<lparr>op_id = id0, op_process = process, op_invoke = invoked, op_complete = Some returned,
      op_input = input, op_output = Some output\<rparr>"

definition op_completed :: "u64 \<Rightarrow> u32 \<Rightarrow> 'i \<Rightarrow> 'o \<Rightarrow> u64 \<Rightarrow> u64 \<Rightarrow> ('i, 'o) op_record" where
  "op_completed id0 process input output call_index return_index =
     op_completed_at id0 process input output call_index return_index"

definition op_in_flight :: "u64 \<Rightarrow> u32 \<Rightarrow> 'i \<Rightarrow> u64 \<Rightarrow> ('i, 'o) op_record" where
  "op_in_flight id0 process input call_index =
     \<lparr>op_id = id0, op_process = process, op_invoke = call_index, op_complete = None,
      op_input = input, op_output = None\<rparr>"

definition is_complete :: "('i, 'o) op_record \<Rightarrow> bool" where
  "is_complete op \<longleftrightarrow> op_output op \<noteq> None \<and> op_complete op \<noteq> None"

text \<open>The trait \<^verbatim>\<open>Model\<close>.\<close>

record ('s, 'i, 'o) model =
  m_init :: 's
  m_step :: "'s \<Rightarrow> 'i \<Rightarrow> ('s \<times> 'o) option"

datatype linearizability_result =
    Linearizable "u64 list"
  | NotLinearizable string "(u64 \<times> u64) option" "u64 list" nat bool
  | LinInconclusive nat bool

subsection \<open>The search\<close>

definition op_predecessors :: "('i, 'o) op_record list \<Rightarrow> nat list list" where
  "op_predecessors ops =
     map (\<lambda>j. filter (\<lambda>i. i \<noteq> j \<and> (case op_complete (ops ! i) of None \<Rightarrow> False
                                   | Some left_complete \<Rightarrow> left_complete \<le> op_invoke (ops ! j)))
            [0..<length ops])
       [0..<length ops]"

record 's lin_search =
  ls_explored :: nat
  ls_inconclusive :: bool
  ls_seen :: "(bool list \<times> 's) list"

text \<open>One candidate: the observed output must be the one the model expects.\<close>

definition op_step :: "('s, 'i, 'o) model \<Rightarrow> ('i, 'o) op_record list \<Rightarrow> 's \<Rightarrow> nat \<Rightarrow> 's option" where
  "op_step M ops s idx =
     (case op_output (ops ! idx) of
        None \<Rightarrow> None
      | Some observed \<Rightarrow>
          (case m_step M s (op_input (ops ! idx)) of
             None \<Rightarrow> None
           | Some (s', expected) \<Rightarrow> if expected = observed then Some s' else None))"

text \<open>
  \<open>lin_loop\<close> is the \<^verbatim>\<open>for\<close> loop of \<^verbatim>\<open>dfs\<close> from index \<open>idx\<close> on. On success the flags
  stay set, which nobody reads; on failure they are as before, which is the parameter \<open>used\<close>.
\<close>

function (sequential) lin_dfs ::
    "('s, 'i, 'o) model \<Rightarrow> ('i, 'o) op_record list \<Rightarrow> nat list list \<Rightarrow> nat \<Rightarrow> bool list \<Rightarrow> u64 list \<Rightarrow> 's
       \<Rightarrow> 's lin_search \<Rightarrow> bool \<times> u64 list \<times> 's lin_search"
  and lin_loop ::
    "('s, 'i, 'o) model \<Rightarrow> ('i, 'o) op_record list \<Rightarrow> nat list list \<Rightarrow> nat \<Rightarrow> bool list \<Rightarrow> u64 list \<Rightarrow> 's
       \<Rightarrow> nat \<Rightarrow> 's lin_search \<Rightarrow> bool \<times> u64 list \<times> 's lin_search" where
  "lin_dfs M ops preds max_steps used order s st =
     (if length order = length ops then (True, order, st)
      else if max_steps \<le> ls_explored st then (False, order, st\<lparr>ls_inconclusive := True\<rparr>)
      else if (used, s) \<in> set (ls_seen st) then (False, order, st)
      else lin_loop M ops preds max_steps used order s 0
             (st\<lparr>ls_seen := ls_seen st @ [(used, s)], ls_explored := Suc (ls_explored st)\<rparr>))"
| "lin_loop M ops preds max_steps used order s idx st =
     (if length ops \<le> idx then (False, order, st)
      else if \<not> ready preds used idx then lin_loop M ops preds max_steps used order s (Suc idx) st
      else case op_step M ops s idx of
             None \<Rightarrow> lin_loop M ops preds max_steps used order s (Suc idx) st
           | Some s' \<Rightarrow>
               (case lin_dfs M ops preds max_steps (used[idx := True]) (order @ [op_id (ops ! idx)]) s' st of
                  (True, order', st') \<Rightarrow> (True, order', st')
                | (False, order', st') \<Rightarrow>
                    lin_loop M ops preds max_steps used (butlast order') s (Suc idx) st'))"
  by pat_completeness auto
termination
  by (relation "measures
      [\<lambda>x. case x of Inl (M, ops, preds, max_steps, used, order, s, st) \<Rightarrow> unused used
         | Inr (M, ops, preds, max_steps, used, order, s, idx, st) \<Rightarrow> unused used,
       \<lambda>x. case x of Inl (M, ops, preds, max_steps, used, order, s, st) \<Rightarrow> Suc (length ops)
         | Inr (M, ops, preds, max_steps, used, order, s, idx, st) \<Rightarrow> length ops - idx]")
    (auto dest: unused_ready)

declare lin_dfs.simps [simp del] lin_loop.simps [simp del]

record lin_search_result =
  lr_linearizable :: bool
  lr_inconclusive :: bool
  lr_explored :: nat
  lr_order :: "u64 list"

definition run_search ::
  "('s, 'i, 'o) model \<Rightarrow> ('i, 'o) op_record list \<Rightarrow> nat \<Rightarrow> lin_search_result" where
  "run_search M ops max_steps =
     (let preds = op_predecessors ops;
          (lin, order, st) = lin_dfs M ops preds max_steps (replicate (length ops) False) [] (m_init M)
            \<lparr>ls_explored = 0, ls_inconclusive = False, ls_seen = []\<rparr>
      in \<lparr>lr_linearizable = lin, lr_inconclusive = ls_inconclusive st, lr_explored = ls_explored st,
          lr_order = order\<rparr>)"

text \<open>\<open>keep\<close> holds indices; \<open>pos\<close> the one whose removal is tried.\<close>

function (sequential) minimize_loop ::
  "('s, 'i, 'o) model \<Rightarrow> ('i, 'o) op_record list \<Rightarrow> nat \<Rightarrow> nat list \<Rightarrow> nat \<Rightarrow> nat list" where
  "minimize_loop M ops max_steps keep pos =
     (if length keep \<le> pos then keep
      else let candidate = vec_remove pos keep
           in if candidate = [] then minimize_loop M ops max_steps keep (Suc pos)
              else let search = run_search M (map ((!) ops) candidate) max_steps
                   in if \<not> lr_linearizable search \<and> \<not> lr_inconclusive search
                      then minimize_loop M ops max_steps candidate pos
                      else minimize_loop M ops max_steps keep (Suc pos))"
  by pat_completeness auto
termination
  by (relation "measure (\<lambda>(M, ops, max_steps, keep, pos). length keep - pos)")
    (auto simp: length_vec_remove)

declare minimize_loop.simps [simp del]

definition minimize_failure :: "('s, 'i, 'o) model \<Rightarrow> ('i, 'o) op_record list \<Rightarrow> nat \<Rightarrow> u64 list" where
  "minimize_failure M ops max_steps =
     map (\<lambda>idx. op_id (ops ! idx)) (minimize_loop M ops max_steps [0..<length ops] 0)"

definition conflict_of :: "u64 list \<Rightarrow> (u64 \<times> u64) option" where
  "conflict_of ids = (case ids of [] \<Rightarrow> None | first # rest \<Rightarrow>
     (case rest of [] \<Rightarrow> Some (first, first) | _ \<Rightarrow> Some (first, last rest)))"

definition check_linearizable_with_budget ::
  "('s, 'i, 'o) model \<Rightarrow> ('i, 'o) op_record list \<Rightarrow> nat \<Rightarrow> linearizability_result" where
  "check_linearizable_with_budget M history max_steps =
     (let ops = filter is_complete history;
          search = run_search M ops max_steps
      in if lr_inconclusive search then LinInconclusive (lr_explored search) True
         else if lr_linearizable search then Linearizable (lr_order search)
         else let minimal = minimize_failure M ops max_steps
              in NotLinearizable ''no legal sequential order matched the observed outputs''
                   (conflict_of minimal) minimal (lr_explored search) False)"

definition check_linearizable ::
  "('s, 'i, 'o) model \<Rightarrow> ('i, 'o) op_record list \<Rightarrow> nat \<Rightarrow> linearizability_result" where
  "check_linearizable M history max_states = check_linearizable_with_budget M history max_states"

subsection \<open>What the search leaves behind\<close>

text \<open>How the mutable state evolves: the counters only grow, the flag means the budget ran out, and
  the table only gets configurations with fewer unused operations.\<close>

definition lin_evolves :: "nat \<Rightarrow> nat \<Rightarrow> 's lin_search \<Rightarrow> 's lin_search \<Rightarrow> bool" where
  "lin_evolves max_steps k st st' \<longleftrightarrow>
     ls_explored st \<le> ls_explored st'
     \<and> (ls_inconclusive st \<longrightarrow> ls_inconclusive st')
     \<and> (ls_inconclusive st' \<longrightarrow> ls_inconclusive st \<or> max_steps \<le> ls_explored st')
     \<and> (\<exists>new. ls_seen st' = ls_seen st @ new \<and> (\<forall>(u, t) \<in> set new. unused u \<le> k))"

lemma lin_evolves_refl [simp]: "lin_evolves max_steps k st st"
  by (simp add: lin_evolves_def)

lemma lin_evolves_trans:
  assumes "lin_evolves m k st st'" and "lin_evolves m k st' st''"
  shows "lin_evolves m k st st''"
proof -
  from assms obtain new new' where "ls_seen st' = ls_seen st @ new" "\<forall>(u, t) \<in> set new. unused u \<le> k"
      "ls_seen st'' = ls_seen st' @ new'" "\<forall>(u, t) \<in> set new'. unused u \<le> k"
    by (auto simp: lin_evolves_def)
  then have "\<exists>new. ls_seen st'' = ls_seen st @ new \<and> (\<forall>(u, t) \<in> set new. unused u \<le> k)"
    by (intro exI [of _ "new @ new'"]) auto
  with assms show ?thesis by (auto simp: lin_evolves_def)
qed

lemma lin_evolves_mono: "lin_evolves m k st st' \<Longrightarrow> k \<le> k' \<Longrightarrow> lin_evolves m k' st st'"
  unfolding lin_evolves_def by fastforce

lemma lin_evolves_old:
  "lin_evolves m k st st' \<Longrightarrow> (u, t) \<in> set (ls_seen st') \<Longrightarrow> k < unused u \<Longrightarrow> (u, t) \<in> set (ls_seen st)"
  unfolding lin_evolves_def by fastforce

lemma lin_evolves_enter:
  "lin_evolves m (unused used) st
     (st\<lparr>ls_seen := ls_seen st @ [(used, s)], ls_explored := Suc (ls_explored st)\<rparr>)"
  by (simp add: lin_evolves_def)

lemma lin_search_evolves:
  "lin_dfs M ops preds m used order s st = (r, order', st') \<Longrightarrow>
     lin_evolves m (unused used) st st' \<and> (\<not> r \<longrightarrow> order' = order)"
  "lin_loop M ops preds m used order s idx st = (r, order', st') \<Longrightarrow>
     lin_evolves m (unused used - 1) st st' \<and> (\<not> r \<longrightarrow> order' = order)"
proof (induction M ops preds m used order s st and M ops preds m used order s idx st
    arbitrary: r order' st' and r order' st' rule: lin_dfs_lin_loop.induct)
  case (1 M ops preds m used order s st)
  show ?case
  proof (cases "length order \<noteq> length ops \<and> \<not> m \<le> ls_explored st \<and> (used, s) \<notin> set (ls_seen st)")
    case True
    let ?st = "st\<lparr>ls_seen := ls_seen st @ [(used, s)], ls_explored := Suc (ls_explored st)\<rparr>"
    have "lin_loop M ops preds m used order s 0 ?st = (r, order', st')"
      using "1.prems" True by (subst (asm) lin_dfs.simps) simp
    with True "1.IH" have "lin_evolves m (unused used - 1) ?st st'" "\<not> r \<longrightarrow> order' = order" by blast+
    then show ?thesis
      using lin_evolves_trans [OF lin_evolves_enter lin_evolves_mono] by fastforce
  qed (use "1.prems" in \<open>subst (asm) lin_dfs.simps; auto simp: lin_evolves_def split: if_splits\<close>)
next
  case (2 M ops preds m used order s idx st)
  show ?case
  proof (cases "idx < length ops \<and> ready preds used idx")
    case False
    then show ?thesis
      using 2 by (subst (asm) lin_loop.simps) (auto split: if_splits)
  next
    case True
    show ?thesis
    proof (cases "op_step M ops s idx")
      case None
      then have "lin_loop M ops preds m used order s (Suc idx) st = (r, order', st')"
        using "2.prems" True by (subst (asm) lin_loop.simps) simp
      then show ?thesis using "2.IH"(2) True None by simp
    next
      case (Some s')
      obtain r1 o1 st1 where d: "lin_dfs M ops preds m (used[idx := True]) (order @ [op_id (ops ! idx)]) s' st
          = (r1, o1, st1)"
        by (cases "lin_dfs M ops preds m (used[idx := True]) (order @ [op_id (ops ! idx)]) s' st")
      have k: "unused used - 1 = unused (used[idx := True])"
        using True unused_ready [of preds used idx] by linarith
      have e1: "lin_evolves m (unused used - 1) st st1" "\<not> r1 \<longrightarrow> o1 = order @ [op_id (ops ! idx)]"
        unfolding k using "2.IH"(3) [OF _ _ Some d] True by auto
      show ?thesis
      proof (cases r1)
        case True
        then have "(r, order', st') = (True, o1, st1)"
          using "2.prems" \<open>idx < length ops \<and> ready preds used idx\<close> Some d
          by (subst (asm) lin_loop.simps) simp
        with e1 show ?thesis by simp
      next
        case False
        then have "lin_loop M ops preds m used order s (Suc idx) st1 = (r, order', st')"
          using "2.prems" \<open>idx < length ops \<and> ready preds used idx\<close> Some d e1(2)
          by (subst (asm) lin_loop.simps) simp
        then have "lin_evolves m (unused used - 1) st1 st' \<and> (\<not> r \<longrightarrow> order' = order)"
          using "2.IH"(4) [OF _ _ Some d [symmetric]] True False e1(2) by simp
        with e1(1) show ?thesis by (blast intro: lin_evolves_trans)
      qed
    qed
  qed
qed

subsection \<open>Soundness: an order that is found is one\<close>

lemma lin_search_sound:
  "lin_dfs M ops preds m used order s st = (True, order', st') \<Longrightarrow>
     length used = length ops \<Longrightarrow> length order + unused used = length ops \<Longrightarrow>
     \<exists>is. completion preds (op_step M ops) used s is \<and> order' = order @ map (\<lambda>i. op_id (ops ! i)) is"
  "lin_loop M ops preds m used order s idx st = (True, order', st') \<Longrightarrow>
     length used = length ops \<Longrightarrow> length order + unused used = length ops \<Longrightarrow>
     \<exists>is. completion preds (op_step M ops) used s is \<and> order' = order @ map (\<lambda>i. op_id (ops ! i)) is"
proof (induction M ops preds m used order s st and M ops preds m used order s idx st
    arbitrary: order' st' and order' st' rule: lin_dfs_lin_loop.induct)
  case (1 M ops preds m used order s st)
  show ?case
  proof (cases "length order = length ops")
    case True
    then show ?thesis
      using "1.prems" by (subst (asm) lin_dfs.simps) (auto simp: completion_Nil intro!: exI [of _ "[]"])
  next
    case False
    then show ?thesis
      using "1.prems" "1.IH" by (subst (asm) lin_dfs.simps) (auto split: if_splits)
  qed
next
  case (2 M ops preds m used order s idx st)
  show ?case
  proof (cases "idx < length ops \<and> ready preds used idx")
    case False
    then show ?thesis
      using 2 by (subst (asm) (2) lin_loop.simps) (auto split: if_splits)
  next
    case ok: True
    show ?thesis
    proof (cases "op_step M ops s idx")
      case None
      then have "lin_loop M ops preds m used order s (Suc idx) st = (True, order', st')"
        using "2.prems"(1) ok by (subst (asm) lin_loop.simps) simp
      then show ?thesis using "2.IH"(2) ok None "2.prems"(2,3) by simp
    next
      case (Some s')
      obtain r1 o1 st1 where d: "lin_dfs M ops preds m (used[idx := True]) (order @ [op_id (ops ! idx)]) s' st
          = (r1, o1, st1)"
        by (cases "lin_dfs M ops preds m (used[idx := True]) (order @ [op_id (ops ! idx)]) s' st")
      show ?thesis
      proof (cases r1)
        case True
        then have o1: "order' = o1"
          using "2.prems"(1) ok Some d by (subst (asm) lin_loop.simps) simp
        have "\<exists>is. completion preds (op_step M ops) (used[idx := True]) s' is
            \<and> o1 = (order @ [op_id (ops ! idx)]) @ map (\<lambda>i. op_id (ops ! i)) is"
          using "2.IH"(3) [OF _ _ Some, of o1 st1] d True ok "2.prems"(2,3) unused_ready [of preds used idx] by simp
        then obtain "is" where "completion preds (op_step M ops) (used[idx := True]) s' is"
            "o1 = order @ map (\<lambda>i. op_id (ops ! i)) (idx # is)" by auto
        then show ?thesis
          using ok Some o1 by (intro exI [of _ "idx # is"]) (simp add: completion_Cons)
      next
        case False
        have "o1 = order @ [op_id (ops ! idx)]"
          using lin_search_evolves(1) [OF d] False by simp
        then have "lin_loop M ops preds m used order s (Suc idx) st1 = (True, order', st')"
          using "2.prems"(1) ok Some d False by (subst (asm) lin_loop.simps) simp
        then show ?thesis
          using "2.IH"(4) [OF _ _ Some d [symmetric]] False ok "2.prems"(2,3) \<open>o1 = _\<close> by simp
      qed
    qed
  qed
qed

subsection \<open>Completeness: a search that gives up within its budget has missed nothing\<close>

lemma lin_search_complete:
  "lin_dfs M ops preds m used order s st = (False, order', st') \<Longrightarrow> \<not> ls_inconclusive st' \<Longrightarrow>
     length used = length ops \<Longrightarrow> length order + unused used = length ops \<Longrightarrow>
     seen_ok preds (op_step M ops) (unused used) (ls_seen st) \<Longrightarrow>
     dead preds (op_step M ops) used s \<and> seen_ok preds (op_step M ops) (unused used) (ls_seen st')"
  "lin_loop M ops preds m used order s idx st = (False, order', st') \<Longrightarrow> \<not> ls_inconclusive st' \<Longrightarrow>
     length used = length ops \<Longrightarrow> length order + unused used = length ops \<Longrightarrow>
     seen_mid preds (op_step M ops) used s (ls_seen st) \<Longrightarrow>
     (\<forall>i s'. idx \<le> i \<longrightarrow> ready preds used i \<longrightarrow> op_step M ops s i = Some s' \<longrightarrow>
        dead preds (op_step M ops) (used[i := True]) s')
     \<and> seen_mid preds (op_step M ops) used s (ls_seen st')"
proof (induction M ops preds m used order s st and M ops preds m used order s idx st
    arbitrary: order' st' and order' st' rule: lin_dfs_lin_loop.induct)
  case (1 M ops preds m used order s st)
  have len: "length order \<noteq> length ops" and budget: "\<not> m \<le> ls_explored st"
    using "1.prems"(1,2) by (auto simp: lin_dfs.simps [of M ops preds m used order s st] split: if_splits)
  then have pos: "0 < unused used" using "1.prems"(4) by simp
  show ?case
  proof (cases "(used, s) \<in> set (ls_seen st)")
    case True
    then have "st' = st" using "1.prems"(1) len budget by (simp add: lin_dfs.simps [of M ops preds m used order s st])
    moreover have "dead preds (op_step M ops) used s"
      using seen_okD [OF "1.prems"(5) True] by simp
    ultimately show ?thesis using "1.prems"(5) by simp
  next
    case False
    let ?st = "st\<lparr>ls_seen := ls_seen st @ [(used, s)], ls_explored := Suc (ls_explored st)\<rparr>"
    have loop: "lin_loop M ops preds m used order s 0 ?st = (False, order', st')"
      using "1.prems"(1) len budget False by (simp add: lin_dfs.simps [of M ops preds m used order s st])
    have "seen_mid preds (op_step M ops) used s (ls_seen ?st)"
      using seen_mid_enter [OF "1.prems"(5)] by simp
    from "1.IH" [OF len budget False loop "1.prems"(2-4) this]
    have all: "\<And>i s'. ready preds used i \<Longrightarrow> op_step M ops s i = Some s' \<Longrightarrow>
        dead preds (op_step M ops) (used[i := True]) s'"
      and mid: "seen_mid preds (op_step M ops) used s (ls_seen st')" by auto
    have "dead preds (op_step M ops) used s" using all by (simp add: dead_iff [OF pos])
    with seen_mid_leave [OF mid] show ?thesis by blast
  qed
next
  case (2 M ops preds m used order s idx st)
  note step = all_from_Suc [of idx]
  show ?case
  proof (cases "idx < length ops \<and> ready preds used idx")
    case False
    show ?thesis
    proof (cases "idx < length ops")
      case True
      then have "lin_loop M ops preds m used order s (Suc idx) st = (False, order', st')"
        using "2.prems"(1) False by (simp add: lin_loop.simps [of M ops preds m used order s idx st])
      then show ?thesis
        unfolding step using "2.IH"(1) False True "2.prems"(2-) by simp
    next
      case False
      then have "st' = st"
        using "2.prems"(1) by (simp add: lin_loop.simps [of M ops preds m used order s idx st])
      moreover have "\<not> ready preds used i" if "idx \<le> i" for i
        using that False "2.prems"(3) by (simp add: ready_def)
      ultimately show ?thesis using "2.prems"(5) by blast
    qed
  next
    case ok: True
    show ?thesis
    proof (cases "op_step M ops s idx")
      case None
      then have "lin_loop M ops preds m used order s (Suc idx) st = (False, order', st')"
        using "2.prems"(1) ok by (simp add: lin_loop.simps [of M ops preds m used order s idx st])
      then show ?thesis
        unfolding step using "2.IH"(2) ok None "2.prems"(2-) by simp
    next
      case (Some s')
      obtain r1 o1 st1 where d: "lin_dfs M ops preds m (used[idx := True]) (order @ [op_id (ops ! idx)]) s' st
          = (r1, o1, st1)"
        by (cases "lin_dfs M ops preds m (used[idx := True]) (order @ [op_id (ops ! idx)]) s' st")
      have r1: "\<not> r1"
        using "2.prems"(1) ok Some d by (auto simp: lin_loop.simps [of M ops preds m used order s idx st])
      then have o1: "o1 = order @ [op_id (ops ! idx)]"
        using lin_search_evolves(1) [OF d] by simp
      then have rest: "lin_loop M ops preds m used order s (Suc idx) st1 = (False, order', st')"
        using "2.prems"(1) ok Some d r1 by (simp add: lin_loop.simps [of M ops preds m used order s idx st])
      have inc: "\<not> ls_inconclusive st1"
        using lin_search_evolves(2) [OF rest] "2.prems"(2) by (auto simp: lin_evolves_def)
      have k: "Suc (unused (used[idx := True])) = unused used" using ok unused_ready [of preds used idx] by simp
      have sub: "dead preds (op_step M ops) (used[idx := True]) s'
          \<and> seen_ok preds (op_step M ops) (unused (used[idx := True])) (ls_seen st1)"
        using "2.IH"(3) [OF _ _ Some, of o1 st1] d r1 inc ok "2.prems"(3,4) k
          seen_mid_below [OF "2.prems"(5) k] by simp
      have mid: "seen_mid preds (op_step M ops) used s (ls_seen st1)"
        by (rule seen_mid_back [OF conjunct2 [OF sub] k _ "2.prems"(5)])
          (use lin_evolves_old [OF conjunct1 [OF lin_search_evolves(1) [OF d]]] k in force)
      have "(\<forall>i s'. Suc idx \<le> i \<longrightarrow> ready preds used i \<longrightarrow> op_step M ops s i = Some s' \<longrightarrow>
          dead preds (op_step M ops) (used[i := True]) s') \<and> seen_mid preds (op_step M ops) used s (ls_seen st')"
        using "2.IH"(4) [OF _ _ Some d [symmetric]] r1 o1 rest ok "2.prems"(2-4) mid by simp
      then show ?thesis unfolding step using sub Some by simp
    qed
  qed
qed

subsection \<open>The budget\<close>

text \<open>The most configurations a search over \<open>k\<close> unused operations looks at: itself, and one search for
  each operation it may take next. A budget of that many steps never runs out.\<close>

fun search_bound :: "nat \<Rightarrow> nat" where
  "search_bound 0 = 0"
| "search_bound (Suc k) = Suc (Suc k * search_bound k)"

definition unused_from :: "bool list \<Rightarrow> nat \<Rightarrow> nat" where
  "unused_from used idx = length (filter Not (drop idx used))"

lemma unused_from_0 [simp]: "unused_from used 0 = unused used"
  by (simp add: unused_from_def unused_def)

lemma unused_from_Suc:
  "idx < length used \<Longrightarrow> unused_from used idx = (if used ! idx then 0 else 1) + unused_from used (Suc idx)"
  by (simp add: unused_from_def Cons_nth_drop_Suc [symmetric])

lemma lin_search_within_budget:
  "lin_dfs M ops preds m used order s st = (r, order', st') \<Longrightarrow>
     length used = length ops \<Longrightarrow> length order + unused used = length ops \<Longrightarrow> \<not> ls_inconclusive st \<Longrightarrow>
     ls_explored st + search_bound (unused used) \<le> m \<Longrightarrow>
     \<not> ls_inconclusive st' \<and> ls_explored st' \<le> ls_explored st + search_bound (unused used)"
  "lin_loop M ops preds m used order s idx st = (r, order', st') \<Longrightarrow>
     length used = length ops \<Longrightarrow> length order + unused used = length ops \<Longrightarrow> \<not> ls_inconclusive st \<Longrightarrow>
     ls_explored st + unused_from used idx * search_bound (unused used - 1) \<le> m \<Longrightarrow>
     \<not> ls_inconclusive st'
     \<and> ls_explored st' \<le> ls_explored st + unused_from used idx * search_bound (unused used - 1)"
proof (induction M ops preds m used order s st and M ops preds m used order s idx st
    arbitrary: r order' st' and r order' st' rule: lin_dfs_lin_loop.induct)
  case (1 M ops preds m used order s st)
  show ?case
  proof (cases "length order = length ops \<or> (used, s) \<in> set (ls_seen st) \<and> \<not> m \<le> ls_explored st")
    case True
    then show ?thesis
      using "1.prems" by (subst (asm) lin_dfs.simps) (auto split: if_splits)
  next
    case False
    then obtain k where k: "unused used = Suc k"
      using "1.prems"(3) by (cases "unused used") auto
    then have lt: "\<not> m \<le> ls_explored st" using "1.prems"(5) by simp
    let ?st = "st\<lparr>ls_seen := ls_seen st @ [(used, s)], ls_explored := Suc (ls_explored st)\<rparr>"
    have "lin_loop M ops preds m used order s 0 ?st = (r, order', st')"
      using "1.prems"(1) False lt by (subst (asm) lin_dfs.simps) simp
    then show ?thesis
      using "1.IH" False lt "1.prems"(2-) k by simp
  qed
next
  case (2 M ops preds m used order s idx st)
  show ?case
  proof (cases "idx < length ops \<and> ready preds used idx")
    case False
    show ?thesis
    proof (cases "idx < length ops")
      case True
      then have "lin_loop M ops preds m used order s (Suc idx) st = (r, order', st')"
        using "2.prems"(1) False by (subst (asm) lin_loop.simps) simp
      then show ?thesis
        using "2.IH"(1) [of r order' st'] False True "2.prems"(2-) unused_from_Suc [of idx used]
        by (cases "used ! idx") simp_all
    qed (use "2.prems" in \<open>subst (asm) lin_loop.simps; simp\<close>)
  next
    case ok: True
    have from_idx: "unused_from used idx = Suc (unused_from used (Suc idx))"
      using ok by (simp add: ready_def unused_from_Suc)
    show ?thesis
    proof (cases "op_step M ops s idx")
      case None
      then have "lin_loop M ops preds m used order s (Suc idx) st = (r, order', st')"
        using "2.prems"(1) ok by (subst (asm) lin_loop.simps) simp
      then show ?thesis using "2.IH"(2) [of r order' st'] ok None "2.prems"(2-) from_idx by simp
    next
      case (Some s')
      obtain r1 o1 st1 where d: "lin_dfs M ops preds m (used[idx := True]) (order @ [op_id (ops ! idx)]) s' st
          = (r1, o1, st1)"
        by (cases "lin_dfs M ops preds m (used[idx := True]) (order @ [op_id (ops ! idx)]) s' st")
      have k: "unused used - 1 = unused (used[idx := True])" "0 < unused used"
        using ok unused_ready [of preds used idx] by linarith+
      let ?b = "search_bound (unused used - 1)"
      have sub: "\<not> ls_inconclusive st1 \<and> ls_explored st1 \<le> ls_explored st + ?b"
        unfolding k(1) using "2.IH"(3) [OF _ _ Some d] ok "2.prems"(2-) k from_idx by simp
      show ?thesis
      proof (cases r1)
        case True
        then have "st' = st1"
          using "2.prems"(1) ok Some d by (subst (asm) lin_loop.simps) simp
        then show ?thesis using sub from_idx by (simp add: trans_le_add1)
      next
        case False
        then have o1: "o1 = order @ [op_id (ops ! idx)]"
          using lin_search_evolves(1) [OF d] by simp
        then have "lin_loop M ops preds m used order s (Suc idx) st1 = (r, order', st')"
          using "2.prems"(1) ok Some d False by (subst (asm) lin_loop.simps) simp
        moreover have "ls_explored st1 + unused_from used (Suc idx) * ?b \<le> m"
          using sub "2.prems"(5) from_idx by simp
        ultimately have "\<not> ls_inconclusive st'
            \<and> ls_explored st' \<le> ls_explored st1 + unused_from used (Suc idx) * ?b"
          using "2.IH"(4) [OF _ _ Some d [symmetric]] False o1 ok "2.prems"(2-) sub by simp
        then show ?thesis using sub from_idx by simp
      qed
    qed
  qed
qed

subsection \<open>The specification\<close>

text \<open>
  A legal sequential order of the operations, as indices into \<open>ops\<close>: a permutation that takes no
  operation before one that precedes it in real time, and on which the sequential specification
  produces the outputs observed. As in the code, completing exactly when another operation is invoked
  counts as preceding it.
\<close>

definition precedes :: "('i, 'o) op_record \<Rightarrow> ('i, 'o) op_record \<Rightarrow> bool" where
  "precedes a b \<longleftrightarrow> (\<exists>t. op_complete a = Some t \<and> t \<le> op_invoke b)"

fun explains :: "('s, 'i, 'o) model \<Rightarrow> 's \<Rightarrow> ('i, 'o) op_record list \<Rightarrow> bool" where
  "explains M s [] = True"
| "explains M s (op # rest) =
     (\<exists>s' out. m_step M s (op_input op) = Some (s', out) \<and> op_output op = Some out \<and> explains M s' rest)"

definition linearization :: "('s, 'i, 'o) model \<Rightarrow> ('i, 'o) op_record list \<Rightarrow> nat list \<Rightarrow> bool" where
  "linearization M ops is \<longleftrightarrow>
     distinct is \<and> set is = {..<length ops}
     \<and> sorted_wrt (\<lambda>i j. \<not> precedes (ops ! j) (ops ! i)) is
     \<and> explains M (m_init M) (map ((!) ops) is)"

lemma op_predecessors_wf [simp]: "preds_wf (op_predecessors ops) (length ops)"
  by (auto simp: preds_wf_def op_predecessors_def)

lemma op_predecessors_iff:
  "i < length ops \<Longrightarrow> j < length ops \<Longrightarrow> i \<noteq> j \<Longrightarrow>
     j \<in> set (op_predecessors ops ! i) \<longleftrightarrow> precedes (ops ! j) (ops ! i)"
  by (auto simp: op_predecessors_def precedes_def split: option.splits)

lemma runs_op_step: "runs (op_step M ops) s is \<longleftrightarrow> explains M s (map ((!) ops) is)"
  by (induction "is" arbitrary: s) (auto simp: op_step_def split: option.splits prod.splits)

lemma sorted_wrt_distinct_cong:
  assumes "distinct is" and "\<And>i j. i \<in> set is \<Longrightarrow> j \<in> set is \<Longrightarrow> i \<noteq> j \<Longrightarrow> P i j \<longleftrightarrow> Q i j"
  shows "sorted_wrt P is \<longleftrightarrow> sorted_wrt Q is"
  using assms by (induction "is") fastforce+

lemma completion_linearization:
  "completion (op_predecessors ops) (op_step M ops) (replicate (length ops) False) (m_init M) is
     \<longleftrightarrow> linearization M ops is"
proof (cases "distinct is \<and> set is = {..<length ops}")
  case True
  then have "sorted_wrt (\<lambda>i j. j \<notin> set (op_predecessors ops ! i)) is
      \<longleftrightarrow> sorted_wrt (\<lambda>i j. \<not> precedes (ops ! j) (ops ! i)) is"
    by (intro sorted_wrt_distinct_cong) (auto simp: op_predecessors_iff)
  then show ?thesis
    by (simp add: completion_iff [OF op_predecessors_wf] linearization_def runs_op_step)
qed (auto simp: completion_iff linearization_def)

lemma run_search_sound:
  assumes "lr_linearizable (run_search M ops m)"
  shows "\<exists>is. linearization M ops is \<and> lr_order (run_search M ops m) = map (\<lambda>i. op_id (ops ! i)) is"
proof -
  let ?st = "\<lparr>ls_explored = 0, ls_inconclusive = False, ls_seen = []\<rparr>"
  obtain r order st' where d: "lin_dfs M ops (op_predecessors ops) m (replicate (length ops) False) []
      (m_init M) ?st = (r, order, st')"
    by (metis prod_cases3)
  with assms have "r" by (simp add: run_search_def)
  with lin_search_sound(1) [of M ops "op_predecessors ops" m "replicate (length ops) False" "[]"
      "m_init M" ?st order st'] d
  show ?thesis
    by (simp add: run_search_def completion_linearization)
qed

lemma run_search_complete:
  assumes "\<not> lr_linearizable (run_search M ops m)" and "\<not> lr_inconclusive (run_search M ops m)"
  shows "\<not> linearization M ops is"
proof -
  let ?st = "\<lparr>ls_explored = 0, ls_inconclusive = False, ls_seen = []\<rparr>"
  obtain r order st' where d: "lin_dfs M ops (op_predecessors ops) m (replicate (length ops) False) []
      (m_init M) ?st = (r, order, st')"
    by (metis prod_cases3)
  with assms have "\<not> r" "\<not> ls_inconclusive st'" by (auto simp: run_search_def)
  with lin_search_complete(1) [of M ops "op_predecessors ops" m "replicate (length ops) False" "[]"
      "m_init M" ?st order st'] d
  have "dead (op_predecessors ops) (op_step M ops) (replicate (length ops) False) (m_init M)"
    by simp
  then show ?thesis by (simp add: dead_def completion_linearization)
qed

lemma run_search_inconclusive:
  "lr_inconclusive (run_search M ops m) \<Longrightarrow> m \<le> lr_explored (run_search M ops m)"
  using lin_search_evolves(1) [of M ops "op_predecessors ops" m "replicate (length ops) False" "[]"
      "m_init M" "\<lparr>ls_explored = 0, ls_inconclusive = False, ls_seen = []\<rparr>"]
  by (auto simp: run_search_def lin_evolves_def split: prod.splits)

lemma run_search_concludes:
  "search_bound (length ops) \<le> m \<Longrightarrow> \<not> lr_inconclusive (run_search M ops m)"
  using lin_search_within_budget(1) [of M ops "op_predecessors ops" m "replicate (length ops) False" "[]"
      "m_init M" "\<lparr>ls_explored = 0, ls_inconclusive = False, ls_seen = []\<rparr>"]
  by (auto simp: run_search_def split: prod.splits)

interpretation lin: order_search
  "\<lambda>m (M, ops). lr_linearizable (run_search M ops m)" "\<lambda>m (M, ops). lr_inconclusive (run_search M ops m)"
  "\<lambda>m (M, ops). lr_explored (run_search M ops m)" "\<lambda>(M, ops). linearization M ops"
  "\<lambda>(M, ops). search_bound (length ops)"
  by unfold_locales
    (auto simp: run_search_complete run_search_inconclusive run_search_concludes dest: run_search_sound)

lemma run_search_Nil: "lr_linearizable (run_search M [] m)"
  by (simp add: run_search_def lin_dfs.simps)

subsection \<open>The minimal subhistory\<close>

lemma minimize_loop_fails:
  "lr_linearizable (run_search M (map ((!) ops) keep) m) = False \<Longrightarrow>
   lr_inconclusive (run_search M (map ((!) ops) keep) m) = False \<Longrightarrow>
   subseq (minimize_loop M ops m keep pos) keep
   \<and> \<not> lr_linearizable (run_search M (map ((!) ops) (minimize_loop M ops m keep pos)) m)
   \<and> \<not> lr_inconclusive (run_search M (map ((!) ops) (minimize_loop M ops m keep pos)) m)"
proof (induction M ops m keep pos rule: minimize_loop.induct)
  case (1 M ops m keep pos)
  show ?case
  proof (cases "length keep \<le> pos")
    case True
    then show ?thesis
      using "1.prems" by (simp add: minimize_loop.simps [of M ops m keep pos])
  next
    case False
    then show ?thesis
      using 1 by (auto simp: minimize_loop.simps [of M ops m keep pos] Let_def intro: subseq_vec_removeI)
  qed
qed

lemma minimize_failure_fails:
  assumes "\<not> lr_linearizable (run_search M ops m)" and "\<not> lr_inconclusive (run_search M ops m)"
  shows "\<exists>sub. subseq sub ops \<and> sub \<noteq> [] \<and> minimize_failure M ops m = map op_id sub
    \<and> (\<nexists>is. linearization M sub is)"
proof -
  let ?keep = "minimize_loop M ops m [0..<length ops] 0"
  let ?sub = "map ((!) ops) ?keep"
  have k: "subseq ?keep [0..<length ops]" "\<not> lr_linearizable (run_search M ?sub m)"
      "\<not> lr_inconclusive (run_search M ?sub m)"
    using minimize_loop_fails [of M ops "[0..<length ops]" m 0] assms by (simp_all add: map_nth)
  have "subseq ?sub ops"
    using subseq_map [OF k(1), of "(!) ops"] by (simp add: map_nth)
  moreover have "?sub \<noteq> []" using k(2) run_search_Nil by fastforce
  moreover have "minimize_failure M ops m = map op_id ?sub" by (simp add: minimize_failure_def)
  moreover have "\<nexists>is. linearization M ?sub is" using k(2,3) run_search_complete by blast
  ultimately show ?thesis by blast
qed

lemma conflict_of_ends: "ids \<noteq> [] \<Longrightarrow> conflict_of ids = Some (hd ids, last ids)"
  by (auto simp: conflict_of_def split: list.splits)

subsection \<open>The verdicts\<close>

text \<open>C2. The verdict of the linearizability checker is right. A reported order is the order of a
  linearization of the completed operations; a rejection means there is none, and the minimal subhistory
  reported with it is a non-empty subsequence of them that cannot be linearized on its own, whose first and
  last operations are the conflict; an inconclusive answer means the budget was used up.\<close>

theorem check_linearizable_verdict:
  "case check_linearizable_with_budget M history m of
     Linearizable order \<Rightarrow>
       (\<exists>is. linearization M (filter is_complete history) is
          \<and> order = map (\<lambda>i. op_id (filter is_complete history ! i)) is)
   | NotLinearizable reason conflict minimal explored budget_exhausted \<Rightarrow>
       (\<nexists>is. linearization M (filter is_complete history) is) \<and> \<not> budget_exhausted
       \<and> (\<exists>sub. subseq sub (filter is_complete history) \<and> sub \<noteq> [] \<and> minimal = map op_id sub
            \<and> conflict = Some (op_id (hd sub), op_id (last sub)) \<and> (\<nexists>is. linearization M sub is))
   | LinInconclusive explored budget_exhausted \<Rightarrow> budget_exhausted \<and> m \<le> explored"
proof -
  let ?ops = "filter is_complete history"
  let ?s = "run_search M ?ops m"
  consider (inc) "lr_inconclusive ?s" | (lin) "\<not> lr_inconclusive ?s" "lr_linearizable ?s"
    | (no) "\<not> lr_inconclusive ?s" "\<not> lr_linearizable ?s" by blast
  then show ?thesis
  proof cases
    case inc
    then show ?thesis by (simp add: check_linearizable_with_budget_def run_search_inconclusive)
  next
    case lin
    then show ?thesis by (simp add: check_linearizable_with_budget_def run_search_sound)
  next
    case no
    then obtain sub where "subseq sub ?ops" "sub \<noteq> []" "minimize_failure M ?ops m = map op_id sub"
        "\<nexists>is. linearization M sub is"
      using minimize_failure_fails by blast
    with no show ?thesis
      by (auto simp: check_linearizable_with_budget_def Let_def run_search_complete conflict_of_ends
          hd_map last_map)
  qed
qed

text \<open>C8. With a budget of at least \<open>search_bound n\<close> steps for \<open>n\<close> completed operations the checker always
  concludes, so that it answers \<open>Linearizable\<close> exactly when there is a linearization.\<close>

theorem check_linearizable_decides:
  assumes "search_bound (length (filter is_complete history)) \<le> m"
  shows "(\<exists>order. check_linearizable_with_budget M history m = Linearizable order)
    \<longleftrightarrow> (\<exists>is. linearization M (filter is_complete history) is)"
proof -
  have "\<not> lr_inconclusive (run_search M (filter is_complete history) m)"
    using assms by (rule run_search_concludes)
  then show ?thesis
    using lin.decides_with_budget [of "(M, filter is_complete history)" m] assms
    by (simp add: check_linearizable_with_budget_def Let_def)
qed

subsection \<open>Artifacts\<close>

record checker_stats =
  cs_witness_order :: "u64 list"
  cs_conflict_ops :: "u64 list"
  cs_minimal_subhistory :: "u64 list"
  cs_explored_states :: nat
  cs_budget_exhausted :: bool

record checker_artifact =
  ca_model :: string
  ca_outcome :: string
  ca_stats :: checker_stats
  ca_details :: "string list"

definition checker_stats_of :: "linearizability_result \<Rightarrow> checker_stats" where
  "checker_stats_of r =
     (case r of
        Linearizable order \<Rightarrow>
          \<lparr>cs_witness_order = order, cs_conflict_ops = [], cs_minimal_subhistory = [],
           cs_explored_states = 0, cs_budget_exhausted = False\<rparr>
      | NotLinearizable reason conflict minimal explored exhausted \<Rightarrow>
          \<lparr>cs_witness_order = [],
           cs_conflict_ops = (case conflict of None \<Rightarrow> []
             | Some (left, right) \<Rightarrow> if left = right then [left] else [left, right]),
           cs_minimal_subhistory = minimal, cs_explored_states = explored,
           cs_budget_exhausted = exhausted\<rparr>
      | LinInconclusive explored exhausted \<Rightarrow>
          \<lparr>cs_witness_order = [], cs_conflict_ops = [], cs_minimal_subhistory = [],
           cs_explored_states = explored, cs_budget_exhausted = exhausted\<rparr>)"

definition lin_checker_artifact :: "linearizability_result \<Rightarrow> string \<Rightarrow> checker_artifact" where
  "lin_checker_artifact r name =
     \<lparr>ca_model = name,
      ca_outcome = (case r of Linearizable _ \<Rightarrow> ''linearizable''
        | NotLinearizable _ _ _ _ _ \<Rightarrow> ''not-linearizable'' | LinInconclusive _ _ \<Rightarrow> ''inconclusive''),
      ca_stats = checker_stats_of r, ca_details = []\<rparr>"

subsection \<open>The process of an operation does not matter\<close>

definition at_process :: "u32 \<Rightarrow> ('i, 'o) op_record \<Rightarrow> ('i, 'o) op_record" where
  "at_process p op = op\<lparr>op_process := p\<rparr>"

lemma at_process_fields [simp]:
  "op_id (at_process p op) = op_id op" "op_invoke (at_process p op) = op_invoke op"
  "op_complete (at_process p op) = op_complete op" "op_input (at_process p op) = op_input op"
  "op_output (at_process p op) = op_output op" "is_complete (at_process p op) = is_complete op"
  by (simp_all add: at_process_def is_complete_def)

lemma op_predecessors_at_process: "op_predecessors (map (at_process p) ops) = op_predecessors ops"
  by (auto simp: op_predecessors_def intro!: filter_cong split: option.split)

lemma op_step_at_process: "i < length ops \<Longrightarrow> op_step M (map (at_process p) ops) s i = op_step M ops s i"
  by (simp add: op_step_def cong: option.case_cong)

lemma lin_search_at_process:
  "lin_dfs M (map (at_process p) ops) preds m used order s st = lin_dfs M ops preds m used order s st"
  "lin_loop M (map (at_process p) ops) preds m used order s idx st = lin_loop M ops preds m used order s idx st"
proof (induction M ops preds m used order s st and M ops preds m used order s idx st rule: lin_dfs_lin_loop.induct)
  case (1 M ops preds m used order s st)
  then show ?case by (simp add: lin_dfs.simps [of M _ preds m used order s st])
next
  case (2 M ops preds m used order s idx st)
  show ?case
    unfolding lin_loop.simps [of M _ preds m used order s idx st]
    using 2 by (auto simp: op_step_at_process split: option.split prod.split bool.split)
qed

lemma run_search_at_process: "run_search M (map (at_process p) ops) m = run_search M ops m"
  by (simp add: run_search_def op_predecessors_at_process lin_search_at_process)

lemma minimize_loop_at_process:
  "set keep \<subseteq> {..<length ops} \<Longrightarrow>
     minimize_loop M (map (at_process p) ops) m keep pos = minimize_loop M ops m keep pos
     \<and> set (minimize_loop M ops m keep pos) \<subseteq> {..<length ops}"
proof (induction M ops m keep pos rule: minimize_loop.induct)
  case (1 M ops m keep pos)
  have sub: "set (vec_remove pos keep) \<subseteq> {..<length ops}"
    using 1 by (auto simp: vec_remove_def dest: in_set_takeD in_set_dropD)
  then have "map ((!) (map (at_process p) ops)) (vec_remove pos keep)
      = map (at_process p) (map ((!) ops) (vec_remove pos keep))"
    by auto
  then show ?case
    unfolding minimize_loop.simps [of M _ m keep pos]
    using 1 sub by (simp add: run_search_at_process Let_def del: map_map)
qed

lemma check_at_process:
  "check_linearizable_with_budget M (map (at_process p) history) m = check_linearizable_with_budget M history m"
proof -
  let ?ops = "filter is_complete history"
  have ops: "filter is_complete (map (at_process p) history) = map (at_process p) ?ops"
    by (simp add: filter_map comp_def)
  have "minimize_failure M (map (at_process p) ?ops) m = minimize_failure M ?ops m"
    using minimize_loop_at_process [of "[0..<length ?ops]" ?ops M p m 0]
    by (simp add: minimize_failure_def atLeast0LessThan) (auto simp: subset_iff)
  then show ?thesis
    by (simp add: check_linearizable_with_budget_def ops run_search_at_process Let_def)
qed

end
