(* ===== verification/Check_Txn.thy ===== *)
theory Check_Txn
  imports Check_Linear Ordered_Map
begin

section \<open>The serializability checker\<close>

text \<open>
  Models the transaction half of \<^verbatim>\<open>crates/detersim-check/src/lib.rs\<close>: \<^verbatim>\<open>TxnAction\<close>,
  \<^verbatim>\<open>TxnOpRecord\<close>, \<^verbatim>\<open>check_serializable\<close> and its search
  \<^verbatim>\<open>TxnSearch::dfs\<close>. This search counts a step for every candidate it tries, tests its budget before
  it looks whether all transactions are placed, and stops at once when a nested search ran out of budget;
  otherwise it is the search of \<^verbatim>\<open>check_linearizable\<close> and meets the same contract. Because it keeps the
  real-time order of the transactions, what it decides is strict serializability. Its mutable
  fields (\<^verbatim>\<open>explored\<close>, \<^verbatim>\<open>inconclusive\<close>, \<^verbatim>\<open>seen\<close>) are those of \<open>lin_search\<close>.
\<close>

subsection \<open>Transactions\<close>

datatype ('k, 'v) txn_action = TxnRead 'k "'v option" | TxnWrite 'k 'v

record ('k, 'v) txn_op_record =
  txn_id :: u64
  txn_process :: u32
  txn_invoke :: sim_time
  txn_complete :: "sim_time option"
  txn_actions :: "('k, 'v) txn_action list"
  txn_is_committed :: bool

definition txn_committed ::
  "u64 \<Rightarrow> u32 \<Rightarrow> ('k, 'v) txn_action list \<Rightarrow> u64 \<Rightarrow> u64 \<Rightarrow> ('k, 'v) txn_op_record" where
  "txn_committed id0 process actions call_index return_index =
     \<lparr>txn_id = id0, txn_process = process, txn_invoke = call_index, txn_complete = Some return_index,
      txn_actions = actions, txn_is_committed = True\<rparr>"

datatype serializable_result =
    Serializable "u64 list"
  | NotSerializable string "(u64 \<times> u64) option" "u64 list" nat bool
  | SerInconclusive nat bool

fun apply_actions ::
  "('k::linorder, 'v) btree_map \<Rightarrow> ('k, 'v) txn_action list \<Rightarrow> ('k, 'v) btree_map option" where
  "apply_actions store [] = Some store"
| "apply_actions store (action # actions) =
     (case action of
        TxnRead key value \<Rightarrow> if btm_get store key \<noteq> value then None else apply_actions store actions
      | TxnWrite key value \<Rightarrow> apply_actions (btm_insert key value store) actions)"

definition apply_txn ::
  "('k::linorder, 'v) btree_map \<Rightarrow> ('k, 'v) txn_op_record \<Rightarrow> ('k, 'v) btree_map option" where
  "apply_txn state txn = apply_actions state (txn_actions txn)"

definition txn_predecessors :: "('k, 'v) txn_op_record list \<Rightarrow> nat list list" where
  "txn_predecessors txns =
     map (\<lambda>j. filter (\<lambda>i. case txn_complete (txns ! i) of None \<Rightarrow> False
                         | Some a_complete \<Rightarrow> i \<noteq> j \<and> a_complete \<le> txn_invoke (txns ! j))
            [0..<length txns])
       [0..<length txns]"

definition txn_step ::
  "('k::linorder, 'v) txn_op_record list \<Rightarrow> ('k, 'v) btree_map \<Rightarrow> nat \<Rightarrow> ('k, 'v) btree_map option" where
  "txn_step txns state idx = apply_txn state (txns ! idx)"

subsection \<open>The search\<close>

definition count_step :: "'s lin_search \<Rightarrow> 's lin_search" where
  "count_step st = st\<lparr>ls_explored := Suc (ls_explored st)\<rparr>"

function (sequential) txn_dfs ::
    "('k::linorder, 'v) txn_op_record list \<Rightarrow> nat list list \<Rightarrow> nat \<Rightarrow> bool list \<Rightarrow> u64 list
       \<Rightarrow> ('k, 'v) btree_map \<Rightarrow> ('k, 'v) btree_map lin_search
       \<Rightarrow> bool \<times> u64 list \<times> ('k, 'v) btree_map lin_search"
  and txn_loop ::
    "('k::linorder, 'v) txn_op_record list \<Rightarrow> nat list list \<Rightarrow> nat \<Rightarrow> bool list \<Rightarrow> u64 list
       \<Rightarrow> ('k, 'v) btree_map \<Rightarrow> nat \<Rightarrow> ('k, 'v) btree_map lin_search
       \<Rightarrow> bool \<times> u64 list \<times> ('k, 'v) btree_map lin_search" where
  "txn_dfs txns preds max_steps used order s st =
     (if max_steps \<le> ls_explored st then (False, order, st\<lparr>ls_inconclusive := True\<rparr>)
      else if list_all id used then (True, order, st)
      else if (used, s) \<in> set (ls_seen st) then (False, order, st)
      else txn_loop txns preds max_steps used order s 0 (st\<lparr>ls_seen := ls_seen st @ [(used, s)]\<rparr>))"
| "txn_loop txns preds max_steps used order s idx st =
     (if length txns \<le> idx then (False, order, st)
      else if \<not> ready preds used idx then txn_loop txns preds max_steps used order s (Suc idx) st
      else case txn_step txns s idx of
             None \<Rightarrow> txn_loop txns preds max_steps used order s (Suc idx) (count_step st)
           | Some s' \<Rightarrow>
               (case txn_dfs txns preds max_steps (used[idx := True]) (order @ [txn_id (txns ! idx)]) s'
                       (count_step st) of
                  (True, order', st') \<Rightarrow> (True, order', st')
                | (False, order', st') \<Rightarrow>
                    if ls_inconclusive st' then (False, butlast order', st')
                    else txn_loop txns preds max_steps used (butlast order') s (Suc idx) st'))"
  by pat_completeness auto
termination
  by (relation "measures
      [\<lambda>x. case x of Inl (txns, preds, max_steps, used, order, s, st) \<Rightarrow> unused used
         | Inr (txns, preds, max_steps, used, order, s, idx, st) \<Rightarrow> unused used,
       \<lambda>x. case x of Inl (txns, preds, max_steps, used, order, s, st) \<Rightarrow> Suc (length txns)
         | Inr (txns, preds, max_steps, used, order, s, idx, st) \<Rightarrow> length txns - idx]")
    (auto dest: unused_ready)

declare txn_dfs.simps [simp del] txn_loop.simps [simp del]

definition txn_search ::
  "('k::linorder, 'v) btree_map \<Rightarrow> ('k, 'v) txn_op_record list \<Rightarrow> nat
     \<Rightarrow> bool \<times> u64 list \<times> ('k, 'v) btree_map lin_search" where
  "txn_search initial txns max_steps =
     txn_dfs txns (txn_predecessors txns) max_steps (replicate (length txns) False) [] initial
       \<lparr>ls_explored = 0, ls_inconclusive = False, ls_seen = []\<rparr>"

definition committed_txns :: "('k, 'v) txn_op_record list \<Rightarrow> ('k, 'v) txn_op_record list" where
  "committed_txns history = filter (\<lambda>txn. txn_is_committed txn \<and> txn_complete txn \<noteq> None) history"

definition check_serializable ::
  "('k::linorder, 'v) btree_map \<Rightarrow> ('k, 'v) txn_op_record list \<Rightarrow> nat \<Rightarrow> serializable_result" where
  "check_serializable initial history max_steps =
     (let txns = committed_txns history;
          (serializable, order, search) = txn_search initial txns max_steps
      in if ls_inconclusive search then SerInconclusive (ls_explored search) True
         else if serializable then Serializable order
         else let ids = map txn_id txns
              in NotSerializable ''no serial transaction order matched observed reads''
                   (conflict_of ids) ids (ls_explored search) False)"

definition ser_checker_artifact :: "serializable_result \<Rightarrow> string \<Rightarrow> checker_artifact" where
  "ser_checker_artifact r name =
     (let (outcome, stats) =
        (case r of
           Serializable order \<Rightarrow> (''serializable'',
             \<lparr>cs_witness_order = order, cs_conflict_ops = [], cs_minimal_subhistory = [],
              cs_explored_states = 0, cs_budget_exhausted = False\<rparr>)
         | NotSerializable reason conflict minimal explored exhausted \<Rightarrow> (''not-serializable'',
             \<lparr>cs_witness_order = [],
              cs_conflict_ops = (case conflict of None \<Rightarrow> [] | Some (left, right) \<Rightarrow> [left, right]),
              cs_minimal_subhistory = minimal, cs_explored_states = explored,
              cs_budget_exhausted = exhausted\<rparr>)
         | SerInconclusive explored exhausted \<Rightarrow> (''inconclusive'',
             \<lparr>cs_witness_order = [], cs_conflict_ops = [], cs_minimal_subhistory = [],
              cs_explored_states = explored, cs_budget_exhausted = exhausted\<rparr>))
      in \<lparr>ca_model = name, ca_outcome = outcome, ca_stats = stats, ca_details = []\<rparr>)"

subsection \<open>What the search leaves behind\<close>

lemma count_step_simps [simp]:
  "ls_explored (count_step st) = Suc (ls_explored st)"
  "ls_inconclusive (count_step st) = ls_inconclusive st"
  "ls_seen (count_step st) = ls_seen st"
  by (simp_all add: count_step_def)

lemma lin_evolves_count: "lin_evolves m k (count_step st) st' \<Longrightarrow> lin_evolves m k st st'"
  by (auto simp: lin_evolves_def)

lemma list_all_used: "list_all id used \<longleftrightarrow> unused used = 0"
  by (simp add: list_all_iff unused_0_iff)

lemma lin_evolves_push:
  "lin_evolves m (unused used) st (st\<lparr>ls_seen := ls_seen st @ [(used, s)]\<rparr>)"
  by (simp add: lin_evolves_def)

text \<open>One turn of the loop, by the fate of the candidate.\<close>

lemma txn_loop_end: "length txns \<le> idx \<Longrightarrow> txn_loop txns preds m used order s idx st = (False, order, st)"
  by (simp add: txn_loop.simps)

lemma txn_loop_skip:
  "idx < length txns \<Longrightarrow> \<not> ready preds used idx \<Longrightarrow>
     txn_loop txns preds m used order s idx st = txn_loop txns preds m used order s (Suc idx) st"
  by (simp add: txn_loop.simps [of txns preds m used order s idx st])

lemma txn_loop_refused:
  "idx < length txns \<Longrightarrow> ready preds used idx \<Longrightarrow> txn_step txns s idx = None \<Longrightarrow>
     txn_loop txns preds m used order s idx st = txn_loop txns preds m used order s (Suc idx) (count_step st)"
  by (simp add: txn_loop.simps [of txns preds m used order s idx st])

lemma txn_loop_accepted:
  "idx < length txns \<Longrightarrow> ready preds used idx \<Longrightarrow> txn_step txns s idx = Some s' \<Longrightarrow>
     txn_dfs txns preds m (used[idx := True]) (order @ [txn_id (txns ! idx)]) s' (count_step st)
       = (r1, o1, st1) \<Longrightarrow>
     txn_loop txns preds m used order s idx st =
       (if r1 then (True, o1, st1)
        else if ls_inconclusive st1 then (False, butlast o1, st1)
        else txn_loop txns preds m used (butlast o1) s (Suc idx) st1)"
  by (simp add: txn_loop.simps [of txns preds m used order s idx st])

text \<open>The induction all proofs about the search share: one case for each way out of it.\<close>

lemma txn_search_rule [case_names stop found_all seen enter over skip refused found abort continue]:
  assumes stop: "\<And>used order s st. m \<le> ls_explored st \<Longrightarrow> D used order s st (False, order, st\<lparr>ls_inconclusive := True\<rparr>)"
    and found_all: "\<And>used order s st. ls_explored st < m \<Longrightarrow> unused used = 0 \<Longrightarrow> D used order s st (True, order, st)"
    and seen: "\<And>used order s st. ls_explored st < m \<Longrightarrow> (used, s) \<in> set (ls_seen st) \<Longrightarrow> D used order s st (False, order, st)"
    and enter: "\<And>used order s st res. ls_explored st < m \<Longrightarrow> 0 < unused used \<Longrightarrow>
       L used order s 0 (st\<lparr>ls_seen := ls_seen st @ [(used, s)]\<rparr>) res \<Longrightarrow> D used order s st res"
    and over: "\<And>used order s idx st. length txns \<le> idx \<Longrightarrow> L used order s idx st (False, order, st)"
    and skip: "\<And>used order s idx st res. idx < length txns \<Longrightarrow> \<not> ready preds used idx \<Longrightarrow>
       L used order s (Suc idx) st res \<Longrightarrow> L used order s idx st res"
    and refused: "\<And>used order s idx st res. idx < length txns \<Longrightarrow> ready preds used idx \<Longrightarrow>
       txn_step txns s idx = None \<Longrightarrow> L used order s (Suc idx) (count_step st) res \<Longrightarrow> L used order s idx st res"
    and found: "\<And>used order s idx st s' o1 st1. idx < length txns \<Longrightarrow> ready preds used idx \<Longrightarrow>
       txn_step txns s idx = Some s' \<Longrightarrow>
       D (used[idx := True]) (order @ [txn_id (txns ! idx)]) s' (count_step st) (True, o1, st1) \<Longrightarrow>
       L used order s idx st (True, o1, st1)"
    and abort: "\<And>used order s idx st s' o1 st1. idx < length txns \<Longrightarrow> ready preds used idx \<Longrightarrow>
       txn_step txns s idx = Some s' \<Longrightarrow> ls_inconclusive st1 \<Longrightarrow>
       D (used[idx := True]) (order @ [txn_id (txns ! idx)]) s' (count_step st) (False, o1, st1) \<Longrightarrow>
       L used order s idx st (False, butlast o1, st1)"
    and continue: "\<And>used order s idx st s' o1 st1 res. idx < length txns \<Longrightarrow> ready preds used idx \<Longrightarrow>
       txn_step txns s idx = Some s' \<Longrightarrow> \<not> ls_inconclusive st1 \<Longrightarrow>
       D (used[idx := True]) (order @ [txn_id (txns ! idx)]) s' (count_step st) (False, o1, st1) \<Longrightarrow>
       L used (butlast o1) s (Suc idx) st1 res \<Longrightarrow> L used order s idx st res"
  shows "D used order s st (txn_dfs txns preds m used order s st)"
    and "L used order s idx st (txn_loop txns preds m used order s idx st)"
proof -
  have "T = txns \<Longrightarrow> P = preds \<Longrightarrow> n = m \<Longrightarrow> D used order s st (txn_dfs T P n used order s st)"
    and "T = txns \<Longrightarrow> P = preds \<Longrightarrow> n = m \<Longrightarrow> L used order s idx st (txn_loop T P n used order s idx st)"
    for T P n
  proof (induction T P n used order s st and T P n used order s idx st rule: txn_dfs_txn_loop.induct)
    case (1 T P n used order s st)
    then show ?case
      by (subst txn_dfs.simps) (auto simp: list_all_used intro: stop found_all seen enter)
  next
    case (2 T P n used order s idx st)
    note args = "2.prems"
    show ?case
    proof (cases "idx < length T \<and> ready P used idx")
      case False
      then show ?thesis
        using 2 by (cases "idx < length T") (auto simp: txn_loop_end txn_loop_skip intro: over skip)
    next
      case ok: True
      show ?thesis
      proof (cases "txn_step T s idx")
        case None
        then show ?thesis
          using ok 2 by (auto simp: txn_loop_refused intro: refused)
      next
        case (Some s')
        obtain r1 o1 st1 where d: "txn_dfs T P n (used[idx := True]) (order @ [txn_id (T ! idx)]) s'
            (count_step st) = (r1, o1, st1)"
          by (metis prod_cases3)
        have "D (used[idx := True]) (order @ [txn_id (T ! idx)]) s' (count_step st) (r1, o1, st1)"
          using "2.IH"(3) [OF _ _ Some args] ok d by simp
        moreover have "L used (butlast o1) s (Suc idx) st1 (txn_loop T P n used (butlast o1) s (Suc idx) st1)"
          if "\<not> r1" "\<not> ls_inconclusive st1"
          using "2.IH"(4) [OF _ _ Some d [symmetric]] that ok args by auto
        ultimately show ?thesis
          using ok Some args unfolding txn_loop_accepted [OF conjunct1 [OF ok] conjunct2 [OF ok] Some d]
          by (cases r1; cases "ls_inconclusive st1") (auto intro: found abort continue)
      qed
    qed
  qed
  then show "D used order s st (txn_dfs txns preds m used order s st)"
    and "L used order s idx st (txn_loop txns preds m used order s idx st)" by blast+
qed

text \<open>The counters only grow, the table only gets smaller configurations, and a failed search leaves the
  order as it was.\<close>

lemma txn_search_evolves:
  "case txn_dfs txns preds m used order s st of (r, order', st') \<Rightarrow>
     lin_evolves m (unused used) st st' \<and> (\<not> r \<longrightarrow> order' = order)"
  "case txn_loop txns preds m used order s idx st of (r, order', st') \<Rightarrow>
     lin_evolves m (unused used - 1) st st' \<and> (\<not> r \<longrightarrow> order' = order)"
proof (induction rule: txn_search_rule)
  case (enter used order s st res)
  then show ?case
    using lin_evolves_trans [OF lin_evolves_push lin_evolves_mono] by fastforce
next
  case (found used order s idx st s' o1 st1)
  then show ?case by (auto simp: unused_after intro: lin_evolves_count)
next
  case (abort used order s idx st s' o1 st1)
  then show ?case by (auto simp: unused_after intro: lin_evolves_count)
next
  case (continue used order s idx st s' o1 st1 res)
  then have "lin_evolves m (unused used - 1) st st1"
    by (auto simp: unused_after intro: lin_evolves_count)
  with continue show ?case by (auto intro: lin_evolves_trans)
qed (auto simp: lin_evolves_def)

lemma txn_dfs_failed_order:
  "txn_dfs txns preds m used order s st = (False, order', st') \<Longrightarrow> order' = order"
  using txn_search_evolves(1) [where txns = txns and preds = preds and m = m and used = used
      and order = order and s = s and st = st] by simp

subsection \<open>The search decides\<close>

lemma txn_search_sound:
  "case txn_dfs txns preds m used order s st of (r, order', st') \<Rightarrow> (\<not> r \<longrightarrow> order' = order) \<and> (r \<longrightarrow>
     (\<exists>is. completion preds (txn_step txns) used s is \<and> order' = order @ map (\<lambda>i. txn_id (txns ! i)) is))"
  "case txn_loop txns preds m used order s idx st of (r, order', st') \<Rightarrow> (\<not> r \<longrightarrow> order' = order) \<and> (r \<longrightarrow>
     (\<exists>is. completion preds (txn_step txns) used s is \<and> order' = order @ map (\<lambda>i. txn_id (txns ! i)) is))"
proof (induction rule: txn_search_rule)
  case (found_all used order s st)
  then show ?case by (auto simp: completion_Nil intro!: exI [of _ "[]"])
next
  case (found used order s idx st s' o1 st1)
  then obtain "is" where "completion preds (txn_step txns) (used[idx := True]) s' is"
      "o1 = order @ map (\<lambda>i. txn_id (txns ! i)) (idx # is)" by auto
  with found(2,3) show ?case
    by (auto simp: completion_Cons simp del: list.map intro!: exI [of _ "idx # is"])
qed auto

lemma txn_search_complete:
  "case txn_dfs txns preds m used order s st of (r, order', st') \<Rightarrow>
     lin_evolves m (unused used) st st' \<and>
     (\<not> r \<longrightarrow> \<not> ls_inconclusive st' \<longrightarrow> length used = length txns \<longrightarrow>
      seen_ok preds (txn_step txns) (unused used) (ls_seen st) \<longrightarrow>
      dead preds (txn_step txns) used s \<and> seen_ok preds (txn_step txns) (unused used) (ls_seen st'))"
  "case txn_loop txns preds m used order s idx st of (r, order', st') \<Rightarrow>
     lin_evolves m (unused used - 1) st st' \<and>
     (\<not> r \<longrightarrow> \<not> ls_inconclusive st' \<longrightarrow> length used = length txns \<longrightarrow>
      seen_mid preds (txn_step txns) used s (ls_seen st) \<longrightarrow>
      (\<forall>i s'. idx \<le> i \<longrightarrow> ready preds used i \<longrightarrow> txn_step txns s i = Some s' \<longrightarrow>
         dead preds (txn_step txns) (used[i := True]) s')
      \<and> seen_mid preds (txn_step txns) used s (ls_seen st'))"
proof (induction rule: txn_search_rule)
  case (enter used order s st res)
  obtain r order' st' where res: "res = (r, order', st')" by (metis prod_cases3)
  have "lin_evolves m (unused used) st st'"
    using enter(3) lin_evolves_trans [OF lin_evolves_push lin_evolves_mono] res by fastforce
  moreover have "dead preds (txn_step txns) used s \<and> seen_ok preds (txn_step txns) (unused used) (ls_seen st')"
    if "\<not> r" "\<not> ls_inconclusive st'" "length used = length txns"
      "seen_ok preds (txn_step txns) (unused used) (ls_seen st)"
  proof -
    have "dead preds (txn_step txns) used s" "seen_mid preds (txn_step txns) used s (ls_seen st')"
      using enter(3) that seen_mid_enter [OF that(4)] by (simp_all add: res dead_iff [OF enter(2)])
    then show ?thesis by (intro conjI seen_mid_leave)
  qed
  ultimately show ?case by (simp add: res)
next
  case (seen used order s st)
  then show ?case by (auto dest: seen_okD)
next
  case (over used order s idx st)
  then show ?case by (auto simp: ready_def)
next
  case (skip used order s idx st res)
  then show ?case unfolding all_from_Suc [of idx] by auto
next
  case (refused used order s idx st res)
  then show ?case unfolding all_from_Suc [of idx] by (auto intro: lin_evolves_count)
next
  case (found used order s idx st s' o1 st1)
  then show ?case by (auto simp: unused_after intro: lin_evolves_count)
next
  case (abort used order s idx st s' o1 st1)
  then show ?case by (auto simp: unused_after intro: lin_evolves_count)
next
  case (continue used order s idx st s' o1 st1 res)
  obtain r order' st' where res: "res = (r, order', st')" by (metis prod_cases3)
  have k: "Suc (unused (used[idx := True])) = unused used" using continue(2) by (rule unused_ready)
  have ev: "lin_evolves m (unused (used[idx := True])) st st1"
    using continue(5) by (auto intro: lin_evolves_count)
  have "lin_evolves m (unused used - 1) st st'"
    using ev continue(6) k res by (auto simp: unused_after [OF continue(2)] intro: lin_evolves_trans)
  moreover have "(\<forall>i s''. idx \<le> i \<longrightarrow> ready preds used i \<longrightarrow> txn_step txns s i = Some s'' \<longrightarrow>
         dead preds (txn_step txns) (used[i := True]) s'')
      \<and> seen_mid preds (txn_step txns) used s (ls_seen st')"
    if "\<not> r" "\<not> ls_inconclusive st'" "length used = length txns"
      "seen_mid preds (txn_step txns) used s (ls_seen st)"
  proof -
    have sub: "dead preds (txn_step txns) (used[idx := True]) s'
        \<and> seen_ok preds (txn_step txns) (unused (used[idx := True])) (ls_seen st1)"
      using continue(4,5) that(3) seen_mid_below [OF that(4) k] by simp
    have "seen_mid preds (txn_step txns) used s (ls_seen st1)"
      by (rule seen_mid_back [OF conjunct2 [OF sub] k _ that(4)])
        (use lin_evolves_old [OF ev] k in force)
    then have "(\<forall>i s''. Suc idx \<le> i \<longrightarrow> ready preds used i \<longrightarrow> txn_step txns s i = Some s'' \<longrightarrow>
         dead preds (txn_step txns) (used[i := True]) s'')
      \<and> seen_mid preds (txn_step txns) used s (ls_seen st')"
      using continue(6) that res by simp
    with sub continue(3) show ?thesis unfolding all_from_Suc [of idx] by simp
  qed
  ultimately show ?case by (simp add: res)
qed (auto simp: lin_evolves_def)

fun txn_bound :: "nat \<Rightarrow> nat" where
  "txn_bound 0 = 0"
| "txn_bound (Suc k) = Suc k * Suc (txn_bound k)"

lemma txn_bound_unused: "0 < unused used \<Longrightarrow> txn_bound (unused used) = unused used * Suc (txn_bound (unused used - 1))"
  by (cases "unused used") auto

lemma txn_search_within_budget:
  "case txn_dfs txns preds m used order s st of (r, order', st') \<Rightarrow>
     length used = length txns \<longrightarrow> \<not> ls_inconclusive st \<longrightarrow>
     ls_explored st + txn_bound (unused used) < m \<longrightarrow>
     \<not> ls_inconclusive st' \<and> ls_explored st' \<le> ls_explored st + txn_bound (unused used)"
  "case txn_loop txns preds m used order s idx st of (r, order', st') \<Rightarrow>
     length used = length txns \<longrightarrow> \<not> ls_inconclusive st \<longrightarrow>
     ls_explored st + unused_from used idx * Suc (txn_bound (unused used - 1)) < m \<longrightarrow>
     \<not> ls_inconclusive st'
     \<and> ls_explored st' \<le> ls_explored st + unused_from used idx * Suc (txn_bound (unused used - 1))"
proof (induction rule: txn_search_rule)
  case (enter used order s st res)
  then show ?case by (auto simp: txn_bound_unused)
next
  case (skip used order s idx st res)
  then show ?case by (cases "used ! idx") (auto simp: unused_from_Suc)
next
  case (refused used order s idx st res)
  then show ?case by (auto simp: unused_from_Suc ready_def)
next
  case (found used order s idx st s' o1 st1)
  then show ?case by (auto simp: unused_from_Suc ready_def unused_after)
next
  case (abort used order s idx st s' o1 st1)
  then show ?case by (auto simp: unused_from_Suc ready_def unused_after)
next
  case (continue used order s idx st s' o1 st1 res)
  then show ?case by (fastforce simp: unused_from_Suc ready_def unused_after)
qed auto

subsection \<open>The specification\<close>

text \<open>Reads and writes on a map, without the ordered map the code keeps. A serialization is any order of
  the transactions in which every read sees the last write; a strict one never moves a transaction before one that
  completed before it began.\<close>

fun map_actions :: "('k \<Rightarrow> 'v option) \<Rightarrow> ('k, 'v) txn_action list \<Rightarrow> ('k \<Rightarrow> 'v option) option" where
  "map_actions m [] = Some m"
| "map_actions m (TxnRead key value # actions) = (if m key = value then map_actions m actions else None)"
| "map_actions m (TxnWrite key value # actions) = map_actions (m(key \<mapsto> value)) actions"

fun serial_run :: "('k \<Rightarrow> 'v option) \<Rightarrow> ('k, 'v) txn_op_record list \<Rightarrow> bool" where
  "serial_run m [] = True"
| "serial_run m (txn # rest) = (\<exists>m'. map_actions m (txn_actions txn) = Some m' \<and> serial_run m' rest)"

definition txn_precedes :: "('k, 'v) txn_op_record \<Rightarrow> ('k, 'v) txn_op_record \<Rightarrow> bool" where
  "txn_precedes a b \<longleftrightarrow> (\<exists>t. txn_complete a = Some t \<and> t \<le> txn_invoke b)"

definition serialization ::
  "('k \<Rightarrow> 'v option) \<Rightarrow> ('k, 'v) txn_op_record list \<Rightarrow> nat list \<Rightarrow> bool" where
  "serialization m txns is \<longleftrightarrow>
     distinct is \<and> set is = {..<length txns} \<and> serial_run m (map ((!) txns) is)"

definition strict_serialization ::
  "('k \<Rightarrow> 'v option) \<Rightarrow> ('k, 'v) txn_op_record list \<Rightarrow> nat list \<Rightarrow> bool" where
  "strict_serialization m txns is \<longleftrightarrow>
     serialization m txns is \<and> sorted_wrt (\<lambda>i j. \<not> txn_precedes (txns ! j) (txns ! i)) is"

text \<open>The two extremes: no transaction completes before another begins, and each completes before the next
  begins.\<close>

definition concurrent_txns :: "('k, 'v) txn_op_record list \<Rightarrow> bool" where
  "concurrent_txns txns \<longleftrightarrow>
     (\<forall>i < length txns. \<forall>j < length txns. i \<noteq> j \<longrightarrow> \<not> txn_precedes (txns ! i) (txns ! j))"

definition sequential_txns :: "('k, 'v) txn_op_record list \<Rightarrow> bool" where
  "sequential_txns txns \<longleftrightarrow>
     sorted_wrt (\<lambda>a b. txn_precedes a b \<and> \<not> txn_precedes b a) txns"

lemma strict_serialization_concurrent:
  assumes "concurrent_txns txns"
  shows "strict_serialization m txns is \<longleftrightarrow> serialization m txns is"
proof -
  have "sorted_wrt (\<lambda>i j. \<not> txn_precedes (txns ! j) (txns ! i)) is"
    if "distinct is" "set is = {..<length txns}"
    unfolding sorted_wrt_iff_nth_less
  proof (intro allI impI)
    fix a b
    assume ab: "a < b" "b < length is"
    then have "is ! a < length txns" "is ! b < length txns" using nth_mem that(2) by force+
    moreover have "is ! b \<noteq> is ! a" using that(1) ab by (simp add: nth_eq_iff_index_eq)
    ultimately show "\<not> txn_precedes (txns ! (is ! b)) (txns ! (is ! a))"
      using assms by (simp add: concurrent_txns_def)
  qed
  then show ?thesis by (auto simp: strict_serialization_def serialization_def)
qed

lemma sorted_wrt_less_upt:
  assumes "sorted_wrt (<) is" and "set is = {..<n}"
  shows "is = [0..<n]"
  by (rule strict_sorted_equal [OF sorted_wrt_upt assms(1)]) (simp add: assms(2) atLeast0LessThan)

text \<open>Transactions that do not overlap have one order at most: the one in which they ran.\<close>

lemma strict_serialization_sequential:
  assumes "sequential_txns txns"
  shows "strict_serialization m txns is \<longleftrightarrow> is = [0..<length txns] \<and> serial_run m txns"
proof
  assume s: "strict_serialization m txns is"
  then have d: "distinct is" and set: "set is = {..<length txns}"
    by (simp_all add: strict_serialization_def serialization_def)
  have "sorted_wrt (<) is"
    unfolding sorted_wrt_iff_nth_less
  proof (intro allI impI)
    fix a b
    assume ab: "a < b" "b < length is"
    then have lt: "is ! a < length txns" "is ! b < length txns" using nth_mem set by force+
    have "\<not> txn_precedes (txns ! (is ! b)) (txns ! (is ! a))"
      using s ab by (simp add: strict_serialization_def sorted_wrt_iff_nth_less)
    then have "\<not> is ! b < is ! a"
      using assms lt by (auto simp: sequential_txns_def sorted_wrt_iff_nth_less)
    moreover have "is ! a \<noteq> is ! b" using d ab by (simp add: nth_eq_iff_index_eq)
    ultimately show "is ! a < is ! b" by simp
  qed
  then have "is = [0..<length txns]" using set by (rule sorted_wrt_less_upt)
  with s show "is = [0..<length txns] \<and> serial_run m txns"
    by (simp add: strict_serialization_def serialization_def map_nth)
next
  assume "is = [0..<length txns] \<and> serial_run m txns"
  with assms show "strict_serialization m txns is"
    by (auto simp: strict_serialization_def serialization_def map_nth atLeast0LessThan
        sequential_txns_def sorted_wrt_iff_nth_less)
qed

lemma apply_actions_refines: "map_option btm_get (apply_actions store actions) = map_actions (btm_get store) actions"
proof (induction actions arbitrary: store)
  case (Cons action actions)
  have "btm_get (btm_insert k v store) = (btm_get store)(k \<mapsto> v)" for k v by (simp add: fun_eq_iff)
  with Cons show ?case by (cases action) (simp_all del: fun_upd_apply)
qed simp

lemma runs_txn_step: "runs (txn_step txns) s is \<longleftrightarrow> serial_run (btm_get s) (map ((!) txns) is)"
proof (induction "is" arbitrary: s)
  case (Cons i "is")
  have "(\<exists>m'. map_actions (btm_get s) (txn_actions (txns ! i)) = Some m' \<and> serial_run m' rest)
      \<longleftrightarrow> (case txn_step txns s i of None \<Rightarrow> False | Some s' \<Rightarrow> serial_run (btm_get s') rest)" for rest
    by (cases "apply_actions s (txn_actions (txns ! i))")
      (simp_all add: txn_step_def apply_txn_def apply_actions_refines [symmetric])
  with Cons show ?case by (simp split: option.splits)
qed simp

lemma txn_predecessors_wf [simp]: "preds_wf (txn_predecessors txns) (length txns)"
  by (auto simp: preds_wf_def txn_predecessors_def split: option.splits)

lemma txn_predecessors_iff:
  "i < length txns \<Longrightarrow> j < length txns \<Longrightarrow> i \<noteq> j \<Longrightarrow>
     j \<in> set (txn_predecessors txns ! i) \<longleftrightarrow> txn_precedes (txns ! j) (txns ! i)"
  by (auto simp: txn_predecessors_def txn_precedes_def split: option.splits)

lemma completion_strict:
  "completion (txn_predecessors txns) (txn_step txns) (replicate (length txns) False) s is
     \<longleftrightarrow> strict_serialization (btm_get s) txns is"
proof (cases "distinct is \<and> set is = {..<length txns}")
  case True
  then have "sorted_wrt (\<lambda>i j. j \<notin> set (txn_predecessors txns ! i)) is
      \<longleftrightarrow> sorted_wrt (\<lambda>i j. \<not> txn_precedes (txns ! j) (txns ! i)) is"
    by (intro sorted_wrt_distinct_cong) (auto simp: txn_predecessors_iff)
  then show ?thesis
    by (auto simp: completion_iff [OF txn_predecessors_wf] strict_serialization_def serialization_def runs_txn_step)
qed (auto simp: completion_iff strict_serialization_def serialization_def)

definition txn_found :: "('k::linorder, 'v) btree_map \<Rightarrow> ('k, 'v) txn_op_record list \<Rightarrow> nat \<Rightarrow> bool" where
  "txn_found initial txns m = fst (txn_search initial txns m)"

definition txn_end :: "('k::linorder, 'v) btree_map \<Rightarrow> ('k, 'v) txn_op_record list \<Rightarrow> nat
    \<Rightarrow> ('k, 'v) btree_map lin_search" where
  "txn_end initial txns m = snd (snd (txn_search initial txns m))"

lemma txn_search_found:
  assumes "txn_found initial txns m"
  shows "\<exists>is. strict_serialization (btm_get initial) txns is
    \<and> fst (snd (txn_search initial txns m)) = map (\<lambda>i. txn_id (txns ! i)) is"
  using assms txn_search_sound(1) [where txns = txns and preds = "txn_predecessors txns" and m = m
    and used = "replicate (length txns) False" and order = "[]" and s = initial
    and st = "\<lparr>ls_explored = 0, ls_inconclusive = False, ls_seen = []\<rparr>"]
  by (auto simp: txn_found_def txn_search_def completion_strict)

lemma txn_search_none:
  assumes "\<not> txn_found initial txns m" and "\<not> ls_inconclusive (txn_end initial txns m)"
  shows "\<not> strict_serialization (btm_get initial) txns is"
  using assms txn_search_complete(1) [where txns = txns and preds = "txn_predecessors txns" and m = m
    and used = "replicate (length txns) False" and order = "[]" and s = initial
    and st = "\<lparr>ls_explored = 0, ls_inconclusive = False, ls_seen = []\<rparr>"]
  by (auto simp: txn_found_def txn_end_def txn_search_def dead_def completion_strict)

lemma txn_search_exhausted:
  "ls_inconclusive (txn_end initial txns m) \<Longrightarrow> m \<le> ls_explored (txn_end initial txns m)"
  using txn_search_complete(1) [where txns = txns and preds = "txn_predecessors txns" and m = m
    and used = "replicate (length txns) False" and order = "[]" and s = initial
    and st = "\<lparr>ls_explored = 0, ls_inconclusive = False, ls_seen = []\<rparr>"]
  by (auto simp: txn_end_def txn_search_def lin_evolves_def)

lemma txn_search_concludes:
  "Suc (txn_bound (length txns)) \<le> m \<Longrightarrow> \<not> ls_inconclusive (txn_end initial txns m)"
  using txn_search_within_budget(1) [where txns = txns and preds = "txn_predecessors txns" and m = m
    and used = "replicate (length txns) False" and order = "[]" and s = initial
    and st = "\<lparr>ls_explored = 0, ls_inconclusive = False, ls_seen = []\<rparr>"]
  by (auto simp: txn_end_def txn_search_def)

interpretation txn: order_search
  "\<lambda>m (initial, txns). txn_found initial txns m"
  "\<lambda>m (initial, txns). ls_inconclusive (txn_end initial txns m)"
  "\<lambda>m (initial, txns). ls_explored (txn_end initial txns m)"
  "\<lambda>(initial, txns). strict_serialization (btm_get initial) txns"
  "\<lambda>(initial, txns). Suc (txn_bound (length txns))"
  by unfold_locales
    (auto simp: txn_search_none txn_search_exhausted txn_search_concludes dest: txn_search_found)

text \<open>C9. What the verdict of \<open>check_serializable\<close> means. The checker lets no transaction move
  before one that completed before it began, so what it decides is strict serializability: a reported
  order is that of a strict serialization of the committed transactions (a serial order that agrees with
  real time and in which every read sees the last write, hence a serialization too), a rejection means
  that there is no strict serialization, and an inconclusive answer means the budget was used up.\<close>

theorem check_serializable_verdict:
  "case check_serializable initial history m of
     Serializable order \<Rightarrow>
       (\<exists>is. strict_serialization (btm_get initial) (committed_txns history) is
          \<and> order = map (\<lambda>i. txn_id (committed_txns history ! i)) is)
   | NotSerializable reason conflict minimal explored budget_exhausted \<Rightarrow>
       (\<nexists>is. strict_serialization (btm_get initial) (committed_txns history) is)
       \<and> minimal = map txn_id (committed_txns history) \<and> \<not> budget_exhausted
   | SerInconclusive explored budget_exhausted \<Rightarrow> budget_exhausted \<and> m \<le> explored"
proof -
  obtain r order st where s: "txn_search initial (committed_txns history) m = (r, order, st)"
    by (metis prod_cases3)
  then show ?thesis
    using txn_search_exhausted [of initial "committed_txns history" m]
      txn_search_found [of initial "committed_txns history" m]
      txn_search_none [of initial "committed_txns history" m]
    by (auto simp: check_serializable_def Let_def txn_found_def txn_end_def)
qed

lemma check_accepts:
  assumes "txn_bound (length (committed_txns history)) < m"
  shows "(\<exists>order. check_serializable initial history m = Serializable order)
    \<longleftrightarrow> (\<exists>is. strict_serialization (btm_get initial) (committed_txns history) is)"
proof -
  let ?h = "(initial, committed_txns history)"
  have "\<not> ls_inconclusive (txn_end initial (committed_txns history) m)"
    using assms by (intro txn_search_concludes) simp
  then show ?thesis
    using txn.decides_with_budget [of ?h m] assms
    by (auto simp: check_serializable_def Let_def txn_found_def txn_end_def split: prod.splits)
qed

text \<open>C10. With more than \<open>txn_bound n\<close> steps for \<open>n\<close> committed transactions the checker always
  concludes, and answers \<open>Serializable\<close> exactly when there is a strict serialization of them; when
  they are pairwise concurrent, exactly when there is a serialization.\<close>

theorem check_serializable_decides:
  assumes "txn_bound (length (committed_txns history)) < m"
  shows "((\<exists>order. check_serializable initial history m = Serializable order)
      \<longleftrightarrow> (\<exists>is. strict_serialization (btm_get initial) (committed_txns history) is))
    \<and> (concurrent_txns (committed_txns history) \<longrightarrow>
        ((\<exists>order. check_serializable initial history m = Serializable order)
          \<longleftrightarrow> (\<exists>is. serialization (btm_get initial) (committed_txns history) is)))"
  by (simp add: check_accepts [OF assms] strict_serialization_concurrent)

lemma check_concludes:
  assumes "txn_bound (length (committed_txns history)) < m"
  shows "\<not> ls_inconclusive (txn_end initial (committed_txns history) m)"
  using assms by (intro txn_search_concludes) simp

text \<open>C36. On a sequential history, in which every committed transaction begins after the ones before it
  have completed, the checker replays the transactions in the order in which they ran: it accepts exactly
  if every read sees the last write in that order, reports that order, and rejects the history otherwise,
  also where another order is a serialization.\<close>

theorem sequential_history_replayed:
  assumes "sequential_txns (committed_txns history)"
    and "txn_bound (length (committed_txns history)) < m"
  shows "if serial_run (btm_get initial) (committed_txns history)
     then check_serializable initial history m = Serializable (map txn_id (committed_txns history))
     else \<exists>explored. check_serializable initial history m =
       NotSerializable ''no serial transaction order matched observed reads''
         (conflict_of (map txn_id (committed_txns history))) (map txn_id (committed_txns history)) explored False"
proof -
  let ?txns = "committed_txns history"
  obtain r order st where s: "txn_search initial ?txns m = (r, order, st)" by (metis prod_cases3)
  have concl: "\<not> ls_inconclusive st" using check_concludes [OF assms(2), of initial] s by (simp add: txn_end_def)
  have strict: "\<And>is. strict_serialization (btm_get initial) ?txns is
      \<longleftrightarrow> is = [0..<length ?txns] \<and> serial_run (btm_get initial) ?txns"
    by (rule strict_serialization_sequential [OF assms(1)])
  have ids: "map (\<lambda>i. txn_id (?txns ! i)) [0..<length ?txns] = map txn_id ?txns"
    by (rule nth_equalityI) simp_all
  show ?thesis
  proof (cases r)
    case True
    then show ?thesis
      using txn_search_found [of initial ?txns m] s concl strict ids
      by (auto simp: txn_found_def check_serializable_def)
  next
    case False
    then show ?thesis
      using txn_search_none [of initial ?txns m "[0..<length ?txns]"] s concl strict
      by (auto simp: txn_found_def txn_end_def check_serializable_def Let_def)
  qed
qed

end
