(* ===== verification/Json_Text.thy ===== *)
theory Json_Text
  imports Text_Format
begin

section \<open>JSON text\<close>

text \<open>
  The pieces every crate writes its artifacts with (\<^verbatim>\<open>escape_json\<close>,
  \<^verbatim>\<open>string_array\<close>, \<^verbatim>\<open>u64_array\<close>; the same functions stand in
  \<^verbatim>\<open>detersim-check\<close>, \<^verbatim>\<open>detersim-viz\<close>, \<^verbatim>\<open>detersim-search\<close> and
  \<^verbatim>\<open>detersim-testkit\<close>), and a reader of JSON string literals they are proved against. A
  \<^verbatim>\<open>char\<close> is a character below U+0100: its control characters are those below a space and
  those from 0x7F to 0x9F.
\<close>

definition hex_digit :: "nat \<Rightarrow> char" where
  "hex_digit d = ''0123456789abcdef'' ! d"

definition hex4 :: "nat \<Rightarrow> string" where
  "hex4 n = [hex_digit (n div 4096 mod 16), hex_digit (n div 256 mod 16), hex_digit (n div 16 mod 16),
             hex_digit (n mod 16)]"

definition is_control :: "char \<Rightarrow> bool" where
  "is_control c = (let k = (of_char c :: nat) in k < 32 \<or> 127 \<le> k \<and> k < 160)"

definition quote_char :: char where "quote_char = CHR 0x22"
definition backslash :: char where "backslash = CHR 0x5C"

definition escape_char :: "char \<Rightarrow> string" where
  "escape_char c =
     (if c = quote_char then [backslash, quote_char]
      else if c = backslash then [backslash, backslash]
      else if c = CHR 0x0A then [backslash, CHR ''n'']
      else if c = CHR 0x0D then [backslash, CHR ''r'']
      else if c = CHR 0x09 then [backslash, CHR ''t'']
      else if is_control c then [backslash, CHR ''u''] @ hex4 (of_char c)
      else [c])"

definition escape_json :: "string \<Rightarrow> string" where
  "escape_json value = concat (map escape_char value)"

text \<open>\<^verbatim>\<open>items.join(",")\<close>, and the other separators.\<close>

fun join_with :: "string \<Rightarrow> string list \<Rightarrow> string" where
  "join_with sep [] = []"
| "join_with sep [x] = x"
| "join_with sep (x # y # ys) = x @ sep @ join_with sep (y # ys)"

definition quoted :: "string \<Rightarrow> string" where
  "quoted value = quote_char # escape_json value @ [quote_char]"

definition u64_array :: "u64 list \<Rightarrow> string" where
  "u64_array values = ''['' @ join_with '','' (map (\<lambda>v. show_nat (unat v)) values) @ '']''"

definition string_array :: "string list \<Rightarrow> string" where
  "string_array values = ''['' @ join_with '','' (map quoted values) @ '']''"

definition show_bool :: "bool \<Rightarrow> string" where
  "show_bool b = (if b then ''true'' else ''false'')"

definition option_raw_json :: "string option \<Rightarrow> string" where
  "option_raw_json value = (case value of None \<Rightarrow> ''null'' | Some s \<Rightarrow> s)"

definition option_usize :: "nat option \<Rightarrow> string" where
  "option_usize value = (case value of None \<Rightarrow> ''null'' | Some n \<Rightarrow> show_nat n)"

subsection \<open>Reading a string literal\<close>

text \<open>The body of a JSON string literal up to its closing quote, and what follows it. Like a JSON reader,
  it refuses a bare control character and an unknown escape.\<close>

definition hex_value :: "char \<Rightarrow> nat option" where
  "hex_value c = (let k = of_char c in
     if 48 \<le> k \<and> k \<le> 57 then Some (k - 48)
     else if 97 \<le> k \<and> k \<le> 102 then Some (k - 87)
     else if 65 \<le> k \<and> k \<le> 70 then Some (k - 55) else None)"

fun read_hex4 :: "char list \<Rightarrow> nat option" where
  "read_hex4 [a, b, c, d] =
     (case (hex_value a, hex_value b, hex_value c, hex_value d) of
        (Some a, Some b, Some c, Some d) \<Rightarrow> Some (((a * 16 + b) * 16 + c) * 16 + d)
      | _ \<Rightarrow> None)"
| "read_hex4 _ = None"

definition prepend :: "char \<Rightarrow> (string \<times> string) option \<Rightarrow> (string \<times> string) option" where
  "prepend c r = map_option (\<lambda>(s, rest). (c # s, rest)) r"

function read_string_body :: "string \<Rightarrow> (string \<times> string) option" where
  "read_string_body [] = None"
| "read_string_body (c # s) =
     (if c = quote_char then Some ([], s)
      else if c = backslash then
        (case s of
           [] \<Rightarrow> None
         | e # s' \<Rightarrow>
             if e = quote_char \<or> e = backslash \<or> e = CHR ''/'' then prepend e (read_string_body s')
             else if e = CHR ''n'' then prepend (CHR 0x0A) (read_string_body s')
             else if e = CHR ''r'' then prepend (CHR 0x0D) (read_string_body s')
             else if e = CHR ''t'' then prepend (CHR 0x09) (read_string_body s')
             else if e = CHR ''u'' then
               (case read_hex4 (take 4 s') of
                  None \<Rightarrow> None
                | Some n \<Rightarrow> if n < 256 then prepend (char_of n) (read_string_body (drop 4 s')) else None)
             else None)
      else if of_char c < (32 :: nat) then None
      else prepend c (read_string_body s))"
  by pat_completeness auto
termination
  by (relation "measure length") auto

declare read_string_body.simps [simp del]

lemma hex_value_digit: "d < 16 \<Longrightarrow> hex_value (hex_digit d) = Some d"
proof -
  have "list_all (\<lambda>d. hex_value (hex_digit d) = Some d) [0..<16]" by code_simp
  then show "d < 16 \<Longrightarrow> hex_value (hex_digit d) = Some d" by (simp add: list_all_iff)
qed

lemma read_hex4_hex4: "n < 65536 \<Longrightarrow> read_hex4 (hex4 n) = Some n"
proof -
  assume n: "n < 65536"
  define a where "a = n div 16"
  define b where "b = a div 16"
  define c where "c = b div 16"
  have "c < 16" using n by (simp add: a_def b_def c_def div_mult2_eq [symmetric])
  moreover have "n div 4096 = c" "n div 256 = b" "n div 16 = a"
    by (simp_all add: a_def b_def c_def div_mult2_eq [symmetric])
  moreover have "c * 16 + b mod 16 = b" "b * 16 + a mod 16 = a" "a * 16 + n mod 16 = n"
    unfolding a_def b_def c_def by (rule div_mult_mod_eq)+
  ultimately show ?thesis by (simp add: hex4_def hex_value_digit)
qed

lemma hex4_length [simp]: "length (hex4 n) = 4"
  by (simp add: hex4_def)

lemma special_not_control: "\<not> is_control quote_char" "\<not> is_control backslash"
  by (simp_all add: is_control_def quote_char_def backslash_def)

lemma quote_backslash [simp]: "quote_char \<noteq> backslash" "backslash \<noteq> quote_char"
  by (simp_all add: quote_char_def backslash_def)

lemma read_backslash:
  "read_string_body (backslash # quote_char # s) = prepend quote_char (read_string_body s)"
  "read_string_body (backslash # backslash # s) = prepend backslash (read_string_body s)"
  "read_string_body (backslash # CHR ''n'' # s) = prepend (CHR 0x0A) (read_string_body s)"
  "read_string_body (backslash # CHR ''r'' # s) = prepend (CHR 0x0D) (read_string_body s)"
  "read_string_body (backslash # CHR ''t'' # s) = prepend (CHR 0x09) (read_string_body s)"
  by (subst read_string_body.simps(2); simp add: quote_char_def backslash_def)+

lemma read_unicode:
  "n < 256 \<Longrightarrow> read_string_body (backslash # CHR ''u'' # hex4 n @ s) = prepend (char_of n) (read_string_body s)"
  by (subst read_string_body.simps(2)) (simp add: quote_char_def backslash_def read_hex4_hex4)

lemma read_plain:
  "c \<noteq> quote_char \<Longrightarrow> c \<noteq> backslash \<Longrightarrow> \<not> is_control c \<Longrightarrow>
     read_string_body (c # s) = prepend c (read_string_body s)"
  by (simp add: read_string_body.simps(2) [of c] is_control_def Let_def)

lemma read_escape_char: "read_string_body (escape_char c @ s) = prepend c (read_string_body s)"
proof -
  consider "c \<in> {quote_char, backslash, CHR 0x0A, CHR 0x0D, CHR 0x09}"
    | (control) "is_control c" "c \<notin> {quote_char, backslash, CHR 0x0A, CHR 0x0D, CHR 0x09}"
    | (plain) "\<not> is_control c" "c \<notin> {quote_char, backslash, CHR 0x0A, CHR 0x0D, CHR 0x09}"
    by blast
  then show ?thesis
  proof cases
    case 1
    moreover have "CHR 0x0A \<noteq> quote_char" "CHR 0x0A \<noteq> backslash" "CHR 0x0D \<noteq> quote_char"
        "CHR 0x0D \<noteq> backslash" "CHR 0x09 \<noteq> quote_char" "CHR 0x09 \<noteq> backslash"
      by (simp_all add: quote_char_def backslash_def)
    ultimately show ?thesis by (auto simp: escape_char_def read_backslash)
  next
    case control
    then show ?thesis by (simp add: escape_char_def read_unicode)
  next
    case plain
    then show ?thesis by (simp add: escape_char_def read_plain)
  qed
qed

text \<open>C33. What \<open>escape_json\<close> writes between quotes is a JSON string literal that reads back as the
  value, whatever follows it: nothing in the value can close the literal early.\<close>

theorem escape_json_roundtrip:
  "read_string_body (escape_json s @ quote_char # rest) = Some (s, rest)"
proof (induction s)
  case Nil
  then show ?case by (simp add: escape_json_def read_string_body.simps(2) [of quote_char])
next
  case (Cons c cs)
  then show ?case by (simp add: escape_json_def read_escape_char prepend_def)
qed

end
