(* ===== verification/Check_Models.thy ===== *)
theory Check_Models
  imports Check_Txn Json_Text "HOL-Library.List_Lexorder" "HOL-Library.Char_ord"
begin

section \<open>The built-in sequential models, and checker artifacts as JSON\<close>

text \<open>
  Models the module \<^verbatim>\<open>models\<close> of \<^verbatim>\<open>crates/detersim-check/src/lib.rs\<close> (a register, a
  key-value store with one key and with many, an append-only log), \<^verbatim>\<open>check_invariant\<close>, and the JSON
  text of a checker artifact. Strings are lists of characters below U+0100, each a character of the code's
  \<^verbatim>\<open>String\<close>.
\<close>

subsection \<open>Models\<close>

datatype 'a register_input = RegRead | RegWrite 'a
datatype 'a register_output = RegValue 'a | RegOk

definition register_model :: "'a \<Rightarrow> ('a, 'a register_input, 'a register_output) model" where
  "register_model initial =
     \<lparr>m_init = initial,
      m_step = (\<lambda>state input. case input of
          RegRead \<Rightarrow> Some (state, RegValue state)
        | RegWrite value \<Rightarrow> Some (value, RegOk))\<rparr>"

datatype 'a single_key_input = SkGet | SkPut 'a
datatype 'a single_key_output = SkValue "'a option" | SkOk

definition single_key_kv :: "'a option \<Rightarrow> ('a option, 'a single_key_input, 'a single_key_output) model" where
  "single_key_kv initial =
     \<lparr>m_init = initial,
      m_step = (\<lambda>state input. case input of
          SkGet \<Rightarrow> Some (state, SkValue state)
        | SkPut value \<Rightarrow> Some (Some value, SkOk))\<rparr>"

datatype ('k, 'v) kv_input = KvGet 'k | KvPut 'k 'v
datatype 'v kv_output = KvValue "'v option" | KvOk

definition multi_key_kv ::
  "('k::linorder, 'v) btree_map \<Rightarrow> (('k, 'v) btree_map, ('k, 'v) kv_input, 'v kv_output) model" where
  "multi_key_kv initial =
     \<lparr>m_init = initial,
      m_step = (\<lambda>state input. case input of
          KvGet key \<Rightarrow> Some (state, KvValue (btm_get state key))
        | KvPut key value \<Rightarrow> Some (btm_insert key value state, KvOk))\<rparr>"

datatype 'a append_log_input = LogAppend 'a | LogReadAll
datatype 'a append_log_output = LogIndex nat | LogEntries "'a list"

definition append_only_log :: "'a list \<Rightarrow> ('a list, 'a append_log_input, 'a append_log_output) model" where
  "append_only_log initial =
     \<lparr>m_init = initial,
      m_step = (\<lambda>state input. case input of
          LogAppend value \<Rightarrow> Some (state @ [value], LogIndex (length state))
        | LogReadAll \<Rightarrow> Some (state, LogEntries state))\<rparr>"

lemma model_steps [simp]:
  "m_step (single_key_kv a) s1 SkGet = Some (s1, SkValue s1)"
  "m_step (single_key_kv a) s1 (SkPut v) = Some (Some v, SkOk)"
  "m_step (multi_key_kv b) s2 (KvGet k) = Some (s2, KvValue (btm_get s2 k))"
  "m_step (multi_key_kv b) s2 (KvPut k w) = Some (btm_insert k w s2, KvOk)"
  "m_step (register_model c) s3 RegRead = Some (s3, RegValue s3)"
  "m_step (register_model c) s3 (RegWrite x) = Some (x, RegOk)"
  by (simp_all add: single_key_kv_def multi_key_kv_def register_model_def)

subsection \<open>Many keys are many single-key stores\<close>

text \<open>What a history over many keys looks like at one of them.\<close>

definition kv_key :: "('k, 'v) kv_input \<Rightarrow> 'k" where
  "kv_key input = (case input of KvGet k \<Rightarrow> k | KvPut k v \<Rightarrow> k)"

fun single_out :: "'v kv_output \<Rightarrow> 'v single_key_output" where
  "single_out (KvValue v) = SkValue v"
| "single_out KvOk = SkOk"

lemma single_out_iff [simp]:
  "single_out out = SkValue v \<longleftrightarrow> out = KvValue v" "single_out out = SkOk \<longleftrightarrow> out = KvOk"
  by (cases out; simp)+

definition at_key :: "(('k, 'v) kv_input, 'v kv_output) op_record \<Rightarrow> ('v single_key_input, 'v single_key_output) op_record" where
  "at_key op =
     \<lparr>op_id = op_id op, op_process = op_process op, op_invoke = op_invoke op, op_complete = op_complete op,
      op_input = (case op_input op of KvGet k \<Rightarrow> SkGet | KvPut k v \<Rightarrow> SkPut v),
      op_output = map_option single_out (op_output op)\<rparr>"

definition project_key ::
  "'k \<Rightarrow> (('k, 'v) kv_input, 'v kv_output) op_record list \<Rightarrow> ('v single_key_input, 'v single_key_output) op_record list" where
  "project_key k ops = map at_key (filter (\<lambda>op. kv_key (op_input op) = k) ops)"

text \<open>C29. A sequence of operations is legal for \<open>MultiKeyKv\<close> exactly when, for every key, the
  operations on that key are legal for \<open>SingleKeyKv\<close> started with the key's value.\<close>

theorem multi_key_by_key:
  "explains (multi_key_kv initial) state ops
     \<longleftrightarrow> (\<forall>k. explains (single_key_kv start) (btm_get state k) (project_key k ops))"
proof (induction ops arbitrary: state)
  case Nil
  then show ?case by (simp add: project_key_def)
next
  case (Cons op ops)
  let ?k = "kv_key (op_input op)"
  have at_first: "(\<forall>k. P k) \<longleftrightarrow> P ?k \<and> (\<forall>k. k \<noteq> ?k \<longrightarrow> P k)" for P
    by metis
  have proj: "project_key k (op # ops) = (if k = ?k then at_key op # project_key k ops else project_key k ops)" for k
    by (simp add: project_key_def)
  let ?E = "\<lambda>s k. explains (single_key_kv start) (btm_get s k) (project_key k ops)"
  have here: "explains (multi_key_kv initial) s ops \<longleftrightarrow> ?E s ?k \<and> (\<forall>k. k \<noteq> ?k \<longrightarrow> ?E s k)" for s
    using Cons.IH [of s] by (simp only: at_first [of "?E s"])
  have goal: "(\<forall>k. explains (single_key_kv start) (btm_get state k) (project_key k (op # ops)))
      \<longleftrightarrow> explains (single_key_kv start) (btm_get state ?k) (at_key op # project_key ?k ops)
          \<and> (\<forall>k. k \<noteq> ?k \<longrightarrow> ?E state k)"
    by (subst at_first) (simp add: proj)
  show ?case
    unfolding goal
    by (cases "op_input op") (auto simp: here at_key_def kv_key_def)
qed

subsection \<open>Artifacts as JSON, and the invariant helper\<close>

definition checker_artifact_json :: "checker_artifact \<Rightarrow> string" where
  \<open>checker_artifact_json a =
     ''{"schema_version":3,"model":"'' @ escape_json (ca_model a)
     @ ''","outcome":"'' @ escape_json (ca_outcome a)
     @ ''","witness_order":'' @ u64_array (cs_witness_order (ca_stats a))
     @ '',"conflict_ops":'' @ u64_array (cs_conflict_ops (ca_stats a))
     @ '',"minimal_subhistory":'' @ u64_array (cs_minimal_subhistory (ca_stats a))
     @ '',"explored_states":'' @ show_nat (cs_explored_states (ca_stats a))
     @ '',"budget_exhausted":'' @ show_bool (cs_budget_exhausted (ca_stats a))
     @ '',"details":'' @ string_array (ca_details a) @ ''}''\<close>

definition check_invariant :: "string \<Rightarrow> bool \<Rightarrow> string + unit" where
  "check_invariant name ok = (if ok then Inr () else Inl (''invariant failed: '' @ name))"

subsection \<open>Histories the checker's tests use\<close>

text \<open>Two writes of one register in flight at the same time, and a read that sees the first of them.\<close>

definition sample_register_history :: "(int register_input, int register_output) op_record list" where
  "sample_register_history =
     [op_completed 1 0 (RegWrite 1) RegOk 0 10, op_completed 2 1 (RegWrite 2) RegOk 0 10,
      op_completed 3 2 RegRead (RegValue 1) 11 12]"

lemma check_linearizable_decides_witness:
  "(\<exists>order. check_linearizable_with_budget (register_model 0) sample_register_history 100 = Linearizable order)
    \<longleftrightarrow> (\<exists>is. linearization (register_model 0) (filter is_complete sample_register_history) is)"
  by (rule check_linearizable_decides)
    (simp add: sample_register_history_def op_completed_def op_completed_at_def is_complete_def numeral_3_eq_3)

lemma sample_register_order:
  "check_linearizable_with_budget (register_model 0) sample_register_history 100 = Linearizable [2, 1, 3]"
  by code_simp

lemma sample_stale_read:
  "check_linearizable_with_budget (register_model (0 :: int))
     [op_completed 1 0 (RegWrite 7) RegOk 0 1, op_completed 2 1 RegRead (RegValue 0) 2 3] 100
   = NotLinearizable ''no legal sequential order matched the observed outputs'' (Some (1, 2)) [1, 2] 2 False"
  by code_simp

definition sample_txns :: "(string, int) txn_op_record list" where
  "sample_txns =
     [txn_committed 1 0 [TxnWrite ''x'' 1] 0 10, txn_committed 2 1 [TxnRead ''x'' None, TxnWrite ''y'' 2] 0 10]"

lemma check_serializable_decides_witness:
  "((\<exists>order. check_serializable [] sample_txns 100 = Serializable order)
      \<longleftrightarrow> (\<exists>is. strict_serialization (btm_get []) (committed_txns sample_txns) is))
    \<and> ((\<exists>order. check_serializable [] sample_txns 100 = Serializable order)
      \<longleftrightarrow> (\<exists>is. serialization (btm_get []) (committed_txns sample_txns) is))"
proof -
  have "txn_bound (length (committed_txns sample_txns)) < 100"
    by (simp add: sample_txns_def txn_committed_def committed_txns_def numeral_2_eq_2)
  moreover have "concurrent_txns (committed_txns sample_txns)"
    by (simp add: sample_txns_def txn_committed_def committed_txns_def concurrent_txns_def txn_precedes_def
        less_Suc_eq all_conj_distrib)
  ultimately show ?thesis using check_serializable_decides [of sample_txns 100 "[]"] by blast
qed

text \<open>A transaction that reads the initial value after another one has overwritten it and completed.\<close>

definition stale_txns :: "(string, int) txn_op_record list" where
  "stale_txns =
     [txn_committed 1 0 [TxnWrite ''x'' 1] 0 1, txn_committed 2 1 [TxnRead ''x'' None, TxnWrite ''y'' 2] 2 3]"

lemma sequential_history_replayed_witness:
  "(\<exists>explored. check_serializable [] stale_txns 100 =
       NotSerializable ''no serial transaction order matched observed reads'' (Some (1, 2)) [1, 2] explored False)
    \<and> serialization (btm_get []) (committed_txns stale_txns) [1, 0]"
proof -
  have t: "committed_txns stale_txns = stale_txns"
    by (simp add: stale_txns_def txn_committed_def committed_txns_def)
  have "sequential_txns (committed_txns stale_txns)"
    unfolding t by (simp add: stale_txns_def txn_committed_def sequential_txns_def txn_precedes_def)
  moreover have "txn_bound (length (committed_txns stale_txns)) < 100"
    unfolding t by (simp add: stale_txns_def numeral_2_eq_2)
  ultimately have "if serial_run (btm_get []) stale_txns
     then check_serializable [] stale_txns 100 = Serializable (map txn_id stale_txns)
     else \<exists>explored. check_serializable [] stale_txns 100 =
       NotSerializable ''no serial transaction order matched observed reads''
         (conflict_of (map txn_id stale_txns)) (map txn_id stale_txns) explored False"
    using sequential_history_replayed [of stale_txns 100 "[]"] unfolding t by blast
  then show ?thesis
    unfolding t
    by (auto simp: stale_txns_def txn_committed_def serialization_def conflict_of_def)
qed

end
