(* ===== verification/Shrink.thy ===== *)
theory Shrink
  imports Complex_Main Prelude "HOL-Library.Multiset" "HOL-Library.List_Lexorder" "HOL-Library.Char_ord"
begin

section \<open>Shrinking an entropy tape\<close>

text \<open>
  Models \<^verbatim>\<open>crates/detersim-shrink/src/lib.rs\<close>. The failure predicate \<^verbatim>\<open>still_fails\<close>
  and the classifier are parameters, pure functions of the candidate tape: the callers replay it, which is
  deterministic. The loops thread a \<open>shrink_state\<close>, the four variables both shrinkers update; each loop
  ends because every trial costs one of \<^verbatim>\<open>max_attempts\<close>. The ratio (\<^verbatim>\<open>f64\<close>) is a
  real number.
\<close>

record shrink_report =
  sr_original_len :: nat
  sr_minimized :: "u64 list"
  sr_kept_indices :: "nat list"
  sr_attempts :: nat
  sr_reproduced :: bool
  sr_accepted_removals :: nat

record removed_label =
  rl_label :: string
  rl_count :: nat

record shrink_effectiveness =
  se_original_len :: nat
  se_minimized_len :: nat
  se_ratio :: real
  se_attempts :: nat
  se_accepted_removals :: nat

record label_aware_shrink_report =
  la_shrink :: shrink_report
  la_removed_labels :: "removed_label list"

record 'sig shrink_outcome =
  so_original_signature :: "'sig option"
  so_minimized_signature :: "'sig option"
  so_signature_preserved :: bool
  so_report :: shrink_report
  so_effectiveness :: shrink_effectiveness
  so_removed_labels :: "removed_label list"

record shrink_config =
  sc_max_attempts :: nat
  sc_min_chunk_len :: nat

definition shrink_config_default :: shrink_config where
  "shrink_config_default = \<lparr>sc_max_attempts = 1000, sc_min_chunk_len = 2\<rparr>"

definition effectiveness_from_report :: "shrink_report \<Rightarrow> shrink_effectiveness" where
  "effectiveness_from_report report =
     (let minimized_len = length (sr_minimized report)
      in \<lparr>se_original_len = sr_original_len report,
          se_minimized_len = minimized_len,
          se_ratio = (if sr_original_len report = 0 then 1
                      else real minimized_len / real (sr_original_len report)),
          se_attempts = sr_attempts report,
          se_accepted_removals = sr_accepted_removals report\<rparr>)"

subsection \<open>Trying to remove draws\<close>

record shrink_state =
  ss_current :: "u64 list"
  ss_kept :: "nat list"
  ss_attempts :: nat
  ss_accepted :: nat

definition shrink_start :: "u64 list \<Rightarrow> shrink_state" where
  "shrink_start tape =
     \<lparr>ss_current = tape, ss_kept = [0..<length tape], ss_attempts = 1, ss_accepted = 0\<rparr>"

text \<open>One trial: remove \<open>n\<close> draws at \<open>idx\<close>. The flag tells whether the candidate was accepted.\<close>

definition try_drain :: "(u64 list \<Rightarrow> bool) \<Rightarrow> nat \<Rightarrow> nat \<Rightarrow> shrink_state \<Rightarrow> bool \<times> shrink_state" where
  "try_drain fails idx n st =
     (let candidate = vec_drain idx n (ss_current st);
          st = st\<lparr>ss_attempts := ss_attempts st + 1\<rparr>
      in if fails candidate
         then (True, st\<lparr>ss_current := candidate, ss_kept := vec_drain idx n (ss_kept st),
                        ss_accepted := ss_accepted st + 1\<rparr>)
         else (False, st))"

lemma try_drain_attempts: "try_drain fails idx n st = (b, st') \<Longrightarrow> ss_attempts st' = Suc (ss_attempts st)"
  by (auto simp: try_drain_def Let_def split: if_splits)

text \<open>The inner loop of the chunk phase, and the phase.\<close>

function (sequential) chunk_round ::
  "(u64 list \<Rightarrow> bool) \<Rightarrow> nat \<Rightarrow> nat \<Rightarrow> nat \<Rightarrow> bool \<Rightarrow> shrink_state \<Rightarrow> bool \<times> shrink_state" where
  "chunk_round fails max_attempts chunk_len idx accepted_this_round st =
     (if idx + chunk_len \<le> length (ss_current st) \<and> ss_attempts st < max_attempts
      then (case try_drain fails idx chunk_len st of
              (True, st') \<Rightarrow> chunk_round fails max_attempts chunk_len idx True st'
            | (False, st') \<Rightarrow> chunk_round fails max_attempts chunk_len (idx + chunk_len) accepted_this_round st')
      else (accepted_this_round, st))"
  by pat_completeness auto
termination
  by (relation "measure (\<lambda>(fails, m, chunk_len, idx, acc, st). m - ss_attempts st)")
    (auto dest: try_drain_attempts try_drain_attempts [OF sym] split: prod.splits)

declare chunk_round.simps [simp del]

lemma chunk_round_attempts:
  "chunk_round fails m n idx acc st = (acc', st') \<Longrightarrow>
     ss_attempts st \<le> ss_attempts st' \<and> (idx + n \<le> length (ss_current st) \<longrightarrow> ss_attempts st < m \<longrightarrow> ss_attempts st < ss_attempts st')
     \<and> (acc' \<longrightarrow> acc \<or> ss_attempts st < ss_attempts st')"
proof (induction fails m n idx acc st rule: chunk_round.induct)
  case (1 fails m n idx acc st)
  show ?case
  proof (cases "idx + n \<le> length (ss_current st) \<and> ss_attempts st < m")
    case True
    obtain b st1 where t: "try_drain fails idx n st = (b, st1)" by fastforce
    then have "ss_attempts st1 = Suc (ss_attempts st)" by (rule try_drain_attempts)
    moreover have "chunk_round fails m n (if b then idx else idx + n) (b \<or> acc) st1 = (acc', st')"
      using "1.prems" True t by (subst (asm) chunk_round.simps) (cases b; simp)
    ultimately show ?thesis
      using "1.IH"(1) [OF True t [symmetric]] "1.IH"(2) [OF True t [symmetric]] by (cases b) force+
  next
    case False
    then show ?thesis using "1.prems" by (subst (asm) chunk_round.simps) auto
  qed
qed

function (sequential) chunk_phase ::
  "(u64 list \<Rightarrow> bool) \<Rightarrow> nat \<Rightarrow> nat \<Rightarrow> nat \<Rightarrow> shrink_state \<Rightarrow> shrink_state" where
  "chunk_phase fails max_attempts min_chunk_len chunk_len st =
     (if min_chunk_len \<le> chunk_len \<and> ss_attempts st < max_attempts
      then (case chunk_round fails max_attempts chunk_len 0 False st of
              (True, st') \<Rightarrow> chunk_phase fails max_attempts min_chunk_len chunk_len st'
            | (False, st') \<Rightarrow> chunk_phase fails max_attempts min_chunk_len (chunk_len div 2) st')
      else st)"
  by pat_completeness auto
termination
  by (relation "measures [\<lambda>(fails, m, min_len, n, st). m - ss_attempts st, \<lambda>(fails, m, min_len, n, st). n]")
    (auto dest!: chunk_round_attempts [OF sym])

declare chunk_phase.simps [simp del]

text \<open>The closing phase: one draw at a time.\<close>

function (sequential) single_phase ::
  "(u64 list \<Rightarrow> bool) \<Rightarrow> nat \<Rightarrow> nat \<Rightarrow> shrink_state \<Rightarrow> shrink_state" where
  "single_phase fails max_attempts idx st =
     (if idx < length (ss_current st) \<and> ss_attempts st < max_attempts
      then (case try_drain fails idx 1 st of
              (True, st') \<Rightarrow> single_phase fails max_attempts idx st'
            | (False, st') \<Rightarrow> single_phase fails max_attempts (idx + 1) st')
      else st)"
  by pat_completeness auto
termination
  by (relation "measure (\<lambda>(fails, m, idx, st). m - ss_attempts st)")
    (auto dest: try_drain_attempts try_drain_attempts [OF sym] split: prod.splits)

declare single_phase.simps [simp del]

definition report_unreproduced :: "u64 list \<Rightarrow> shrink_report" where
  "report_unreproduced tape =
     \<lparr>sr_original_len = length tape, sr_minimized = tape, sr_kept_indices = [0..<length tape],
      sr_attempts = 1, sr_reproduced = False, sr_accepted_removals = 0\<rparr>"

definition report_of_state :: "u64 list \<Rightarrow> bool \<Rightarrow> shrink_state \<Rightarrow> shrink_report" where
  "report_of_state tape reproduced st =
     \<lparr>sr_original_len = length tape, sr_minimized = ss_current st, sr_kept_indices = ss_kept st,
      sr_attempts = ss_attempts st, sr_reproduced = reproduced, sr_accepted_removals = ss_accepted st\<rparr>"

definition shrink_tape_with_config ::
  "u64 list \<Rightarrow> (u64 list \<Rightarrow> bool) \<Rightarrow> shrink_config \<Rightarrow> shrink_report" where
  "shrink_tape_with_config tape still_fails config =
     (if \<not> still_fails tape then report_unreproduced tape
      else let st = chunk_phase still_fails (sc_max_attempts config) (sc_min_chunk_len config)
                      (length tape div 2) (shrink_start tape);
               st = single_phase still_fails (sc_max_attempts config) 0 st
           in report_of_state tape True st)"

definition shrink_tape :: "u64 list \<Rightarrow> (u64 list \<Rightarrow> bool) \<Rightarrow> nat \<Rightarrow> shrink_report" where
  "shrink_tape tape still_fails max_attempts =
     shrink_tape_with_config tape still_fails (shrink_config_default\<lparr>sc_max_attempts := max_attempts\<rparr>)"

subsection \<open>Label-aware shrinking\<close>

definition label_tier :: "string \<Rightarrow> nat" where
  "label_tier label =
     (if label \<in> {''net-delay'', ''extra-delay'', ''jitter''} then 0
      else if label \<in> {''drop-decision'', ''duplicate-decision''} then 1
      else if label \<in> {''partition'', ''crash-point'', ''restart'', ''clock-skew'', ''nemesis''} then 2
      else 3)"

function (sequential) tier_pass ::
  "(u64 list \<Rightarrow> bool) \<Rightarrow> nat \<Rightarrow> string list \<Rightarrow> nat \<Rightarrow> nat \<Rightarrow> shrink_state \<Rightarrow> shrink_state" where
  "tier_pass fails max_attempts labels tier pos st =
     (if pos < length (ss_current st) \<and> ss_attempts st < max_attempts
      then let original_idx = ss_kept st ! pos
           in if label_tier (labels ! original_idx) \<noteq> tier
              then tier_pass fails max_attempts labels tier (pos + 1) st
              else (case try_drain fails pos 1 st of
                      (True, st') \<Rightarrow> tier_pass fails max_attempts labels tier pos st'
                    | (False, st') \<Rightarrow> tier_pass fails max_attempts labels tier (pos + 1) st')
      else st)"
  by pat_completeness auto
termination
  by (relation "measures [\<lambda>(fails, m, labels, tier, pos, st). m - ss_attempts st,
        \<lambda>(fails, m, labels, tier, pos, st). length (ss_current st) - pos]")
    (auto dest: try_drain_attempts try_drain_attempts [OF sym] split: prod.splits)

declare tier_pass.simps [simp del]

fun bump_label :: "string \<Rightarrow> removed_label list \<Rightarrow> removed_label list" where
  "bump_label label [] = [\<lparr>rl_label = label, rl_count = 1\<rparr>]"
| "bump_label label (existing # rest) =
     (if rl_label existing = label then existing\<lparr>rl_count := rl_count existing + 1\<rparr> # rest
      else existing # bump_label label rest)"

fun summarize_loop :: "(nat \<times> string) list \<Rightarrow> nat list \<Rightarrow> removed_label list \<Rightarrow> removed_label list" where
  "summarize_loop [] kept_indices out = out"
| "summarize_loop ((idx, label) # rest) kept_indices out =
     (if idx \<in> set kept_indices then summarize_loop rest kept_indices out
      else summarize_loop rest kept_indices (bump_label label out))"

definition summarize_removed_labels :: "string list \<Rightarrow> nat list \<Rightarrow> removed_label list" where
  "summarize_removed_labels labels kept_indices =
     sort_key rl_label (summarize_loop (enumerate 0 labels) kept_indices [])"

definition shrink_tape_label_aware_with_config ::
  "u64 list \<Rightarrow> string list \<Rightarrow> (u64 list \<Rightarrow> bool) \<Rightarrow> shrink_config \<Rightarrow> label_aware_shrink_report" where
  "shrink_tape_label_aware_with_config tape labels still_fails config =
     (if length labels \<noteq> length tape
      then \<lparr>la_shrink = shrink_tape_with_config tape still_fails config, la_removed_labels = []\<rparr>
      else let reproduced = still_fails tape;
               st = (if reproduced
                     then fold (\<lambda>tier st. tier_pass still_fails (sc_max_attempts config) labels tier 0 st)
                            [0, 1, 2, 3] (shrink_start tape)
                     else shrink_start tape)
           in \<lparr>la_shrink = report_of_state tape reproduced st,
               la_removed_labels = summarize_removed_labels labels (ss_kept st)\<rparr>)"

subsection \<open>Preserving a failure's signature\<close>

definition shrink_outcome_of ::
  "'sig option \<Rightarrow> (u64 list \<Rightarrow> 'sig option) \<Rightarrow> shrink_report \<Rightarrow> removed_label list \<Rightarrow> 'sig shrink_outcome" where
  "shrink_outcome_of original classify report removed =
     (let minimized = classify (sr_minimized report)
      in \<lparr>so_original_signature = original, so_minimized_signature = minimized,
          so_signature_preserved = (original \<noteq> None \<and> minimized = original),
          so_report = report, so_effectiveness = effectiveness_from_report report,
          so_removed_labels = removed\<rparr>)"

definition preserving_run ::
  "u64 list \<Rightarrow> (u64 list \<Rightarrow> 'sig option) \<Rightarrow> shrink_config \<Rightarrow> 'sig shrink_outcome" where
  "preserving_run tape classify config =
     (let original = classify tape;
          report = (case original of
              Some signature \<Rightarrow>
                shrink_tape_with_config tape (\<lambda>candidate. classify candidate = Some signature) config
            | None \<Rightarrow> report_unreproduced tape)
      in shrink_outcome_of original classify report [])"

definition preserving_run_label_aware ::
  "u64 list \<Rightarrow> string list \<Rightarrow> (u64 list \<Rightarrow> 'sig option) \<Rightarrow> shrink_config \<Rightarrow> 'sig shrink_outcome" where
  "preserving_run_label_aware tape labels classify config =
     (let original = classify tape;
          label_report = (case original of
              Some signature \<Rightarrow>
                shrink_tape_label_aware_with_config tape labels
                  (\<lambda>candidate. classify candidate = Some signature) config
            | None \<Rightarrow> \<lparr>la_shrink = report_unreproduced tape, la_removed_labels = []\<rparr>)
      in shrink_outcome_of original classify (la_shrink label_report) (la_removed_labels label_report))"

subsection \<open>The contract of a phase\<close>

text \<open>The current tape is what the kept indices select, and it fails.\<close>

definition shrink_inv :: "(u64 list \<Rightarrow> bool) \<Rightarrow> u64 list \<Rightarrow> shrink_state \<Rightarrow> bool" where
  "shrink_inv fails tape st \<longleftrightarrow>
     subseq (ss_kept st) [0..<length tape] \<and> ss_current st = map ((!) tape) (ss_kept st)
     \<and> fails (ss_current st)"

lemma shrink_inv_start: "fails tape \<Longrightarrow> shrink_inv fails tape (shrink_start tape)"
  by (simp add: shrink_inv_def shrink_start_def map_nth)

lemma shrink_inv_drain:
  "shrink_inv fails tape st \<Longrightarrow> try_drain fails idx n st = (b, st') \<Longrightarrow> shrink_inv fails tape st'"
  by (auto simp: shrink_inv_def try_drain_def Let_def map_vec_drain intro: subseq_vec_drainI
      subseq_order.order_trans [OF subseq_vec_drain] split: if_splits)

text \<open>A phase keeps the invariant, stays in the budget, and pays one attempt for every removal.\<close>

definition spends :: "nat \<Rightarrow> shrink_state \<Rightarrow> shrink_state \<Rightarrow> bool" where
  "spends m st st' \<longleftrightarrow> ss_attempts st \<le> ss_attempts st' \<and> ss_attempts st' \<le> max (ss_attempts st) m
     \<and> ss_accepted st' + ss_attempts st \<le> ss_accepted st + ss_attempts st'"

lemma spends_refl [simp]: "spends m st st"
  by (simp add: spends_def)

lemma spends_trans: "spends m st st' \<Longrightarrow> spends m st' st'' \<Longrightarrow> spends m st st''"
  by (auto simp: spends_def)

lemma spends_drain:
  "try_drain fails idx n st = (b, st') \<Longrightarrow> ss_attempts st < m \<Longrightarrow> spends m st st'"
  by (auto simp: spends_def try_drain_def Let_def split: if_splits)

definition phase_ok :: "(u64 list \<Rightarrow> bool) \<Rightarrow> u64 list \<Rightarrow> nat \<Rightarrow> shrink_state \<Rightarrow> shrink_state \<Rightarrow> bool" where
  "phase_ok fails tape m st st' \<longleftrightarrow>
     spends m st st' \<and> (shrink_inv fails tape st \<longrightarrow> shrink_inv fails tape st')"

lemma phase_ok_refl [simp]: "phase_ok fails tape m st st"
  by (simp add: phase_ok_def)

lemma phase_ok_trans: "phase_ok fails tape m st st' \<Longrightarrow> phase_ok fails tape m st' st'' \<Longrightarrow> phase_ok fails tape m st st''"
  unfolding phase_ok_def using spends_trans by blast

lemma phase_ok_drain:
  "try_drain fails idx n st = (b, st') \<Longrightarrow> ss_attempts st < m \<Longrightarrow> phase_ok fails tape m st st'"
  unfolding phase_ok_def using spends_drain shrink_inv_drain by blast

text \<open>A report is faithful to the tape and the predicate.\<close>

definition faithful_report :: "u64 list \<Rightarrow> (u64 list \<Rightarrow> bool) \<Rightarrow> nat \<Rightarrow> shrink_report \<Rightarrow> bool" where
  "faithful_report tape fails m r \<longleftrightarrow>
     sr_original_len r = length tape
     \<and> subseq (sr_kept_indices r) [0..<length tape]
     \<and> sr_minimized r = map ((!) tape) (sr_kept_indices r)
     \<and> sr_reproduced r = fails tape \<and> fails (sr_minimized r) = fails tape
     \<and> sr_attempts r \<le> max 1 m \<and> sr_accepted_removals r < sr_attempts r"

locale shrink_phase =
  fixes phase :: "(u64 list \<Rightarrow> bool) \<Rightarrow> nat \<Rightarrow> shrink_state \<Rightarrow> shrink_state"
  assumes phase_ok: "phase_ok fails tape m st (phase fails m st)"
begin

lemma report:
  assumes "fails tape" and "phase_ok fails tape m (shrink_start tape) st"
  shows "faithful_report tape fails m (report_of_state tape True (phase fails m st))"
  using phase_ok_trans [OF assms(2) phase_ok] shrink_inv_start [of fails tape] assms(1)
  by (auto simp: phase_ok_def report_of_state_def shrink_inv_def spends_def shrink_start_def
      faithful_report_def)

end

lemma chunk_round_ok:
  "chunk_round fails m n idx acc st = (acc', st') \<Longrightarrow> phase_ok fails tape m st st'"
proof (induction fails m n idx acc st rule: chunk_round.induct)
  case (1 fails m n idx acc st)
  show ?case
  proof (cases "idx + n \<le> length (ss_current st) \<and> ss_attempts st < m")
    case True
    obtain b st1 where t: "try_drain fails idx n st = (b, st1)" by fastforce
    have "chunk_round fails m n (if b then idx else idx + n) (b \<or> acc) st1 = (acc', st')"
      using "1.prems" True t by (subst (asm) chunk_round.simps) (cases b; simp)
    then have "phase_ok fails tape m st1 st'"
      using "1.IH"(1) [OF True t [symmetric]] "1.IH"(2) [OF True t [symmetric]] by (cases b) simp_all
    then show ?thesis
      using phase_ok_trans [OF phase_ok_drain [OF t]] True by blast
  next
    case False
    then show ?thesis using "1.prems" by (subst (asm) chunk_round.simps) auto
  qed
qed

lemma chunk_phase_ok: "phase_ok fails tape m st (chunk_phase fails m min_len n st)"
proof (induction fails m min_len n st rule: chunk_phase.induct)
  case (1 fails m min_len n st)
  show ?case
  proof (cases "min_len \<le> n \<and> ss_attempts st < m")
    case True
    obtain b st1 where r: "chunk_round fails m n 0 False st = (b, st1)" by fastforce
    have "chunk_phase fails m min_len n st = chunk_phase fails m min_len (if b then n else n div 2) st1"
      using True r by (subst chunk_phase.simps) (cases b; simp)
    moreover have "phase_ok fails tape m st1 (chunk_phase fails m min_len (if b then n else n div 2) st1)"
      using "1.IH"(1) [OF True r [symmetric]] "1.IH"(2) [OF True r [symmetric]] by (cases b) simp_all
    ultimately show ?thesis
      using phase_ok_trans [OF chunk_round_ok [OF r]] by simp
  qed (subst chunk_phase.simps; auto)
qed

lemma single_phase_ok: "phase_ok fails tape m st (single_phase fails m idx st)"
proof (induction fails m idx st rule: single_phase.induct)
  case (1 fails m idx st)
  show ?case
  proof (cases "idx < length (ss_current st) \<and> ss_attempts st < m")
    case True
    obtain b st1 where t: "try_drain fails idx 1 st = (b, st1)" by fastforce
    have "single_phase fails m idx st = single_phase fails m (if b then idx else idx + 1) st1"
      using True t by (subst single_phase.simps) (cases b; simp)
    moreover have "phase_ok fails tape m st1 (single_phase fails m (if b then idx else idx + 1) st1)"
      using "1.IH"(1) [OF True t [symmetric]] "1.IH"(2) [OF True t [symmetric]] by (cases b) simp_all
    ultimately show ?thesis
      using phase_ok_trans [OF phase_ok_drain [OF t]] True by simp
  qed (subst single_phase.simps; auto)
qed

lemma tier_pass_ok: "phase_ok fails tape m st (tier_pass fails m labels tier pos st)"
proof (induction fails m labels tier pos st rule: tier_pass.induct)
  case (1 fails m labels tier pos st)
  let ?mine = "label_tier (labels ! (ss_kept st ! pos)) = tier"
  show ?case
  proof (cases "pos < length (ss_current st) \<and> ss_attempts st < m")
    case True
    show ?thesis
    proof (cases ?mine)
      case eq: True
      obtain b st1 where t: "try_drain fails pos 1 st = (b, st1)" by fastforce
      have "tier_pass fails m labels tier pos st = tier_pass fails m labels tier (if b then pos else pos + 1) st1"
        using True eq t by (subst tier_pass.simps) (cases b; simp)
      moreover have "phase_ok fails tape m st1 (tier_pass fails m labels tier (if b then pos else pos + 1) st1)"
        using "1.IH"(2) [OF True refl _ t [symmetric]] "1.IH"(3) [OF True refl _ t [symmetric]] eq
        by (cases b) simp_all
      ultimately show ?thesis
        using phase_ok_trans [OF phase_ok_drain [OF t]] True by simp
    next
      case False
      then have "tier_pass fails m labels tier pos st = tier_pass fails m labels tier (pos + 1) st"
        using True by (subst tier_pass.simps) simp
      then show ?thesis using "1.IH"(1) [OF True refl] False by simp
    qed
  qed (subst tier_pass.simps; auto)
qed

lemma tiers_ok: "phase_ok fails tape m st (fold (\<lambda>tier st. tier_pass fails m labels tier 0 st) tiers st)"
  by (induction tiers arbitrary: st) (auto intro: phase_ok_trans [OF tier_pass_ok])

interpretation single: shrink_phase "\<lambda>fails m st. single_phase fails m 0 st"
  by unfold_locales (rule single_phase_ok)

interpretation tiers: shrink_phase "\<lambda>fails m st. fold (\<lambda>tier st. tier_pass fails m labels tier 0 st) [0, 1, 2, 3] st"
  for labels
  by unfold_locales (rule tiers_ok)

subsection \<open>What a report says\<close>

lemma faithful_unreproduced: "\<not> fails tape \<Longrightarrow> faithful_report tape fails m (report_unreproduced tape)"
  by (simp add: faithful_report_def report_unreproduced_def map_nth)

lemma faithful_start: "\<not> fails tape \<Longrightarrow> faithful_report tape fails m (report_of_state tape False (shrink_start tape))"
  by (simp add: faithful_report_def report_of_state_def shrink_start_def map_nth)

lemma shrink_with_config_faithful:
  "faithful_report tape fails (sc_max_attempts config) (shrink_tape_with_config tape fails config)"
proof (cases "fails tape")
  case True
  then show ?thesis
    by (simp add: shrink_tape_with_config_def Let_def single.report chunk_phase_ok)
qed (simp add: shrink_tape_with_config_def faithful_unreproduced)

lemma shrink_label_aware_faithful:
  "faithful_report tape fails (sc_max_attempts config)
     (la_shrink (shrink_tape_label_aware_with_config tape labels fails config))"
proof (cases "length labels = length tape")
  case eq: True
  show ?thesis
  proof (cases "fails tape")
    case True
    then show ?thesis
      using tiers.report [where fails = fails and tape = tape and m = "sc_max_attempts config"
        and st = "shrink_start tape" and labels = labels]
      by (simp add: shrink_tape_label_aware_with_config_def Let_def eq)
  next
    case False
    then show ?thesis
      by (simp add: shrink_tape_label_aware_with_config_def Let_def eq faithful_start)
  qed
qed (simp add: shrink_tape_label_aware_with_config_def shrink_with_config_faithful)

lemma faithful_flag: "faithful_report tape fails m r \<Longrightarrow> sr_reproduced r = fails tape"
  by (simp add: faithful_report_def)

lemma faithful_reproduces: "faithful_report tape fails m r \<Longrightarrow> fails tape \<Longrightarrow> fails (sr_minimized r)"
  unfolding faithful_report_def by blast

text \<open>C14. Both shrinkers report faithfully: the minimized tape is the original restricted to the kept
  indices, in order, it fails if the original does, \<open>reproduced\<close> says whether it did, the budget of attempts
  is respected, and every accepted removal was an attempt.\<close>

theorem shrink_reports_faithful:
  "faithful_report tape fails (sc_max_attempts config) (shrink_tape_with_config tape fails config)
   \<and> faithful_report tape fails (sc_max_attempts config)
       (la_shrink (shrink_tape_label_aware_with_config tape labels fails config))"
  by (simp add: shrink_with_config_faithful shrink_label_aware_faithful)

text \<open>C15. Shrinking for a signature preserves it: if the tape has one, the minimized tape has the same,
  with either shrinker, and the outcome says so exactly in that case.\<close>

theorem signature_preserved:
  "so_minimized_signature (preserving_run tape classify config) = classify tape
   \<and> so_signature_preserved (preserving_run tape classify config) = (classify tape \<noteq> None)
   \<and> so_minimized_signature (preserving_run_label_aware tape labels classify config) = classify tape
   \<and> so_signature_preserved (preserving_run_label_aware tape labels classify config) = (classify tape \<noteq> None)"
proof (cases "classify tape")
  case None
  then show ?thesis
    by (simp add: preserving_run_def preserving_run_label_aware_def shrink_outcome_of_def Let_def
        report_unreproduced_def)
next
  case (Some signature)
  then have "classify (sr_minimized (shrink_tape_with_config tape (\<lambda>c. classify c = Some signature) config))
      = Some signature"
    using faithful_reproduces [OF shrink_with_config_faithful
        [of tape "\<lambda>c. classify c = Some signature" config]] by simp
  moreover have "classify (sr_minimized (la_shrink (shrink_tape_label_aware_with_config tape labels
      (\<lambda>c. classify c = Some signature) config))) = Some signature"
    using faithful_reproduces [OF shrink_label_aware_faithful
        [of tape "\<lambda>c. classify c = Some signature" config labels]] Some by simp
  ultimately show ?thesis
    using Some by (simp add: preserving_run_def preserving_run_label_aware_def shrink_outcome_of_def Let_def)
qed

subsection \<open>Minimality\<close>

lemma vec_remove_Cons [simp]:
  "vec_remove 0 (x # xs) = xs" "vec_remove (Suc i) (x # xs) = x # vec_remove i xs"
  by (simp_all add: vec_remove_def)

lemma vec_remove_commute:
  "i < j \<Longrightarrow> j < length xs \<Longrightarrow> vec_remove i (vec_remove j xs) = vec_remove (j - 1) (vec_remove i xs)"
proof (induction xs arbitrary: i j)
  case (Cons x xs)
  then obtain j' where j: "j = Suc j'" by (cases j) simp_all
  show ?case
  proof (cases i)
    case (Suc i')
    then obtain k where k: "j' = Suc k" using Cons.prems(1) j by (cases j') simp_all
    have "vec_remove i' (vec_remove j' xs) = vec_remove (j' - 1) (vec_remove i' xs)"
      using Cons.prems j Suc by (intro Cons.IH) simp_all
    then show ?thesis by (simp add: Suc j k)
  qed (simp add: j)
qed simp

lemma subseq_proper: "subseq xs ys \<Longrightarrow> xs = ys \<or> (\<exists>i < length ys. subseq xs (vec_remove i ys))"
proof (induction rule: list_emb.induct)
  case (list_emb_Cons xs ys y)
  then have "subseq xs (vec_remove 0 (y # ys))" by (simp add: vec_remove_def)
  then show ?case by (metis length_Cons zero_less_Suc)
next
  case (list_emb_Cons2 x y xs ys)
  then show ?case
  proof (elim disjE exE conjE)
    fix i assume "i < length ys" "subseq xs (vec_remove i ys)"
    then have "Suc i < length (y # ys)" "subseq (x # xs) (vec_remove (Suc i) (y # ys))"
      using list_emb_Cons2(1) by simp_all
    then show ?case by blast
  qed (use list_emb_Cons2(1) in simp)
next
  case (list_emb_Nil ys)
  then show ?case by (cases ys) auto
qed

lemma single_phase_minimal:
  assumes mono: "\<And>xs ys. subseq xs ys \<Longrightarrow> fails xs \<Longrightarrow> fails ys"
  shows "\<forall>i < idx. i < length (ss_current st) \<longrightarrow> \<not> fails (vec_remove i (ss_current st)) \<Longrightarrow>
    ss_attempts (single_phase fails m idx st) < m \<Longrightarrow>
    i < length (ss_current (single_phase fails m idx st)) \<Longrightarrow>
    \<not> fails (vec_remove i (ss_current (single_phase fails m idx st)))"
proof (induction "m - ss_attempts st" arbitrary: idx st rule: less_induct)
  case less
  show ?case
  proof (cases "idx < length (ss_current st) \<and> ss_attempts st < m")
    case True
    obtain b st1 where t: "try_drain fails idx 1 st = (b, st1)" by fastforce
    have s: "single_phase fails m idx st = single_phase fails m (if b then idx else idx + 1) st1"
      using True t by (subst single_phase.simps) (cases b; simp)
    have dec: "m - ss_attempts st1 < m - ss_attempts st"
      using try_drain_attempts [OF t] True by linarith
    have "\<forall>i < (if b then idx else idx + 1). i < length (ss_current st1) \<longrightarrow> \<not> fails (vec_remove i (ss_current st1))"
    proof (cases b)
      case True
      then have c: "ss_current st1 = vec_remove idx (ss_current st)"
        using t by (auto simp: try_drain_def Let_def vec_remove_drain split: if_splits)
      have "\<not> fails (vec_remove i (vec_remove idx (ss_current st)))" if "i < idx" for i
        using vec_remove_commute [OF that] less.prems(1) that mono subseq_vec_remove
          \<open>idx < length (ss_current st) \<and> ss_attempts st < m\<close> order.strict_trans by metis
      then show ?thesis using c True by simp
    next
      case False
      then have "ss_current st1 = ss_current st" "\<not> fails (vec_remove idx (ss_current st))"
        using t by (auto simp: try_drain_def Let_def vec_remove_drain split: if_splits)
      then show ?thesis using False less.prems(1) by (auto simp: less_Suc_eq)
    qed
    then show ?thesis
      using less.hyps [OF dec] less.prems(2,3) by (simp add: s)
  next
    case False
    then have s: "single_phase fails m idx st = st" by (subst single_phase.simps) (simp only: if_False)
    with less.prems False show ?thesis by (metis leI order.strict_trans2)
  qed
qed

text \<open>C16. If the predicate is monotone (a tape fails as soon as a subsequence of it does) and the budget is
  not used up, the minimized tape is minimal: no proper subsequence of it fails.\<close>

theorem shrink_minimal:
  assumes "\<And>xs ys. subseq xs ys \<Longrightarrow> fails xs \<Longrightarrow> fails ys"
    and "fails tape"
    and "sr_attempts (shrink_tape_with_config tape fails config) < sc_max_attempts config"
    and "subseq xs (sr_minimized (shrink_tape_with_config tape fails config))" and "fails xs"
  shows "xs = sr_minimized (shrink_tape_with_config tape fails config)"
proof (rule ccontr)
  let ?m = "sc_max_attempts config"
  let ?st = "chunk_phase fails ?m (sc_min_chunk_len config) (length tape div 2) (shrink_start tape)"
  let ?final = "single_phase fails ?m 0 ?st"
  have r: "shrink_tape_with_config tape fails config = report_of_state tape True ?final"
    using assms(2) by (simp add: shrink_tape_with_config_def Let_def)
  assume "xs \<noteq> sr_minimized (shrink_tape_with_config tape fails config)"
  then obtain i where i: "i < length (ss_current ?final)" "subseq xs (vec_remove i (ss_current ?final))"
    using subseq_proper [OF assms(4)] by (auto simp: r report_of_state_def)
  have "\<not> fails (vec_remove i (ss_current ?final))"
    using assms(3) i(1) by (intro single_phase_minimal [OF assms(1)]) (simp_all add: r report_of_state_def)
  with assms(1) [OF i(2) assms(5)] show False by blast
qed

text \<open>A predicate that looks for one draw: the other five are removed, two and then one at a time.\<close>

lemma shrink_minimal_witness:
  "[7] = sr_minimized (shrink_tape_with_config [9, 8, 7, 6, 5, 4] (\<lambda>t. 7 \<in> set t) shrink_config_default)"
proof (rule shrink_minimal)
  have m: "sr_minimized (shrink_tape_with_config [9, 8, 7, 6, 5, 4] (\<lambda>t. 7 \<in> set t) shrink_config_default) = [7]"
    by code_simp
  show "subseq [7] (sr_minimized (shrink_tape_with_config [9, 8, 7, 6, 5, 4] (\<lambda>t. 7 \<in> set t) shrink_config_default))"
    unfolding m by simp
  show "sr_attempts (shrink_tape_with_config [9, 8, 7, 6, 5, 4] (\<lambda>t. 7 \<in> set t) shrink_config_default)
      < sc_max_attempts shrink_config_default"
    by code_simp
qed (auto dest: list_emb_set)

text \<open>With \<open>min_chunk_len = 0\<close> the chunk phase removes nothing until the budget is gone, and counts every
  trial as an accepted removal: a tape that could be emptied is returned as it was.\<close>

lemma zero_chunk_burns_budget:
  "shrink_tape_with_config [7] (\<lambda>t. True) \<lparr>sc_max_attempts = 10, sc_min_chunk_len = 0\<rparr>
   = \<lparr>sr_original_len = 1, sr_minimized = [7], sr_kept_indices = [0], sr_attempts = 10,
      sr_reproduced = True, sr_accepted_removals = 9\<rparr>"
  by code_simp

subsection \<open>The summary of removed labels\<close>

definition label_total :: "string \<Rightarrow> removed_label list \<Rightarrow> nat" where
  "label_total label out = sum_list (map rl_count (filter (\<lambda>e. rl_label e = label) out))"

lemma label_total_bump:
  "label_total l (bump_label l' out) = (if l = l' then 1 else 0) + label_total l out"
  by (induction out) (auto simp: label_total_def)

lemma bump_label_set: "set (map rl_label (bump_label l out)) = insert l (set (map rl_label out))"
  by (induction out) auto

lemma bump_label_distinct: "distinct (map rl_label out) \<Longrightarrow> distinct (map rl_label (bump_label l out))"
proof (induction out)
  case (Cons e out)
  then show ?case using bump_label_set [of l out] by auto
qed simp

lemma summarize_loop_total:
  "label_total l (summarize_loop xs kept out)
     = label_total l out + length (filter (\<lambda>(idx, label). label = l \<and> idx \<notin> set kept) xs)"
  by (induction xs kept out rule: summarize_loop.induct) (auto simp: label_total_bump)

lemma summarize_loop_distinct:
  "distinct (map rl_label out) \<Longrightarrow> distinct (map rl_label (summarize_loop xs kept out))"
  by (induction xs kept out rule: summarize_loop.induct) (auto simp: bump_label_distinct)

lemma length_filter_enumerate:
  "length (filter (\<lambda>(idx, label). P idx label) (enumerate 0 labels)) = card {i. i < length labels \<and> P i (labels ! i)}"
  by (auto simp: length_filter_conv_card enumerate_eq_zip intro!: arg_cong [where f = card])

lemma label_total_sort: "label_total l (sort_key rl_label out) = label_total l out"
proof -
  have "sum_mset (mset (map rl_count (sort_key rl_label ys))) = sum_mset (mset (map rl_count ys))" for ys
    by (simp only: mset_map mset_sort)
  then have "sum_list (map rl_count (sort_key rl_label ys)) = sum_list (map rl_count ys)" for ys
    by (simp only: sum_mset_sum_list)
  then show ?thesis by (simp add: label_total_def filter_sort)
qed

text \<open>The summary lists each label with the number of removed draws that carry it, once and in
  alphabetical order.\<close>

lemma summarize_counts_removed:
  "label_total label (summarize_removed_labels labels kept)
     = card {i. i < length labels \<and> labels ! i = label \<and> i \<notin> set kept}
   \<and> sorted_wrt (<) (map rl_label (summarize_removed_labels labels kept))"
proof -
  have "sorted (map rl_label (summarize_removed_labels labels kept))"
    by (simp add: summarize_removed_labels_def)
  moreover have "distinct (map rl_label (summarize_removed_labels labels kept))"
    using summarize_loop_distinct [of "[]"]
    by (simp add: summarize_removed_labels_def distinct_map inj_on_def)
  moreover have "label_total label (summarize_removed_labels labels kept)
      = card {i. i < length labels \<and> labels ! i = label \<and> i \<notin> set kept}"
    using summarize_loop_total [of label "enumerate 0 labels" kept "[]"]
    by (simp only: summarize_removed_labels_def label_total_sort length_filter_enumerate)
      (simp add: label_total_def)
  ultimately show ?thesis by (simp add: strict_sorted_iff)
qed

end
