(* ===== verification/Net_Stream.thy ===== *)
theory Net_Stream
  imports Ordered_Map Text_Format
begin

section \<open>Deterministic streams\<close>

text \<open>
  Models \<^verbatim>\<open>crates/detersim-net/src/lib.rs\<close>: an ordered stream of frames between two endpoints,
  sent under a list of faults. Sequence numbers are \<open>nat\<close>. The specification \<open>accepted_frames\<close> only says
  which frames get onto the link; the theorem at the end is that the delivered frames are those before the
  first gap, whatever was delayed or duplicated.
\<close>

record stream_endpoint =
  ep_node :: u32
  ep_connection :: u64

record frame =
  fr_seq :: nat
  fr_bytes :: "u8 list"

datatype stream_fault =
    FaultDrop nat
  | FaultDuplicate nat
  | FaultDelay nat nat
  | Disconnect
  | Reconnect

record stream_transcript =
  tr_events :: "string list"
  tr_delivered :: "frame list"

definition transcript_record :: "string \<Rightarrow> stream_transcript \<Rightarrow> stream_transcript" where
  "transcript_record label t = t\<lparr>tr_events := tr_events t @ [label]\<rparr>"

definition to_history_lines :: "stream_transcript \<Rightarrow> string list" where
  "to_history_lines t = tr_events t"

record det_stream =
  ds_source :: stream_endpoint
  ds_target :: stream_endpoint
  ds_next_send :: nat
  ds_next_deliver :: nat
  ds_connected :: bool
  ds_buffered :: "(nat, frame) btree_map"
  ds_delivered_once :: "nat set"
  ds_transcript :: stream_transcript

definition stream_new :: "stream_endpoint \<Rightarrow> stream_endpoint \<Rightarrow> det_stream" where
  "stream_new source target =
     \<lparr>ds_source = source, ds_target = target, ds_next_send = 0, ds_next_deliver = 0,
      ds_connected = True, ds_buffered = [], ds_delivered_once = {},
      ds_transcript = \<lparr>tr_events = [], tr_delivered = []\<rparr>\<rparr>"

definition stream_log :: "string \<Rightarrow> det_stream \<Rightarrow> det_stream" where
  "stream_log label st = st\<lparr>ds_transcript := transcript_record label (ds_transcript st)\<rparr>"

text \<open>One turn of \<^verbatim>\<open>drain_ordered\<close>, for the frame taken out of the buffer.\<close>

definition deliver_frame :: "frame \<Rightarrow> det_stream \<Rightarrow> det_stream" where
  "deliver_frame frame st =
     (let st = st\<lparr>ds_buffered := btm_remove (ds_next_deliver st) (ds_buffered st)\<rparr>;
          st = (if fr_seq frame \<in> ds_delivered_once st then st
                else let st = st\<lparr>ds_delivered_once := insert (fr_seq frame) (ds_delivered_once st)\<rparr>;
                         st = stream_log (''stream:deliver:'' @ show_nat (unat (ep_node (ds_source st)))
                                @ ''->'' @ show_nat (unat (ep_node (ds_target st)))
                                @ '':seq='' @ show_nat (fr_seq frame)) st
                     in st\<lparr>ds_transcript := (ds_transcript st)
                            \<lparr>tr_delivered := tr_delivered (ds_transcript st) @ [frame]\<rparr>\<rparr>)
      in st\<lparr>ds_next_deliver := ds_next_deliver st + 1\<rparr>)"

lemma length_btm_remove_less: "btm_get m k = Some v \<Longrightarrow> length (btm_remove k m) < length m"
  unfolding btm_remove_def by (rule length_filter_less [of "(k, v)"]) (auto dest: map_of_SomeD)

lemma deliver_frame_fields [simp]:
  "ds_buffered (deliver_frame f st) = btm_remove (ds_next_deliver st) (ds_buffered st)"
  "ds_next_deliver (deliver_frame f st) = Suc (ds_next_deliver st)"
  "ds_next_send (deliver_frame f st) = ds_next_send st"
  "ds_connected (deliver_frame f st) = ds_connected st"
  "ds_delivered_once (deliver_frame f st) = insert (fr_seq f) (ds_delivered_once st)"
  "tr_delivered (ds_transcript (deliver_frame f st)) = tr_delivered (ds_transcript st)
     @ (if fr_seq f \<in> ds_delivered_once st then [] else [f])"
  by (auto simp: deliver_frame_def Let_def stream_log_def transcript_record_def)

function drain_ordered :: "det_stream \<Rightarrow> det_stream" where
  "drain_ordered st =
     (case btm_get (ds_buffered st) (ds_next_deliver st) of
        None \<Rightarrow> st
      | Some frame \<Rightarrow> drain_ordered (deliver_frame frame st))"
  by pat_completeness auto
termination
  by (relation "measure (\<lambda>st. length (ds_buffered st))") (auto simp: length_btm_remove_less)

declare drain_ordered.simps [simp del]

definition find_delay :: "nat \<Rightarrow> stream_fault list \<Rightarrow> nat option" where
  "find_delay n faults =
     (case filter (\<lambda>fault. case fault of FaultDelay seq _ \<Rightarrow> seq = n | _ \<Rightarrow> False) faults of
        FaultDelay _ after_seq # _ \<Rightarrow> Some after_seq | _ \<Rightarrow> None)"

text \<open>The parts of \<^verbatim>\<open>send\<close>: the faults of the link, and a frame that gets onto it.\<close>

definition link_faults :: "stream_fault list \<Rightarrow> det_stream \<Rightarrow> det_stream" where
  "link_faults faults st =
     (let st = (if Disconnect \<in> set faults
                then stream_log ''stream:disconnect'' (st\<lparr>ds_connected := False\<rparr>) else st)
      in if Reconnect \<in> set faults
         then stream_log ''stream:reconnect'' (st\<lparr>ds_connected := True\<rparr>) else st)"

definition enqueue_frame :: "frame \<Rightarrow> bool \<Rightarrow> det_stream \<Rightarrow> det_stream" where
  "enqueue_frame frame duplicate st =
     (let st = st\<lparr>ds_buffered := btm_insert (fr_seq frame) frame (ds_buffered st)\<rparr>;
          st = stream_log (''stream:enqueue:seq='' @ show_nat (fr_seq frame)) st
      in if duplicate
         then stream_log (''stream:duplicate:seq='' @ show_nat (fr_seq frame))
                (st\<lparr>ds_buffered := btm_insert (fr_seq frame) frame (ds_buffered st)\<rparr>)
         else st)"

definition stream_send :: "u8 list \<Rightarrow> stream_fault list \<Rightarrow> det_stream \<Rightarrow> det_stream" where
  "stream_send bytes faults st =
     (let frame = \<lparr>fr_seq = ds_next_send st, fr_bytes = bytes\<rparr>;
          st = link_faults faults (st\<lparr>ds_next_send := ds_next_send st + 1\<rparr>)
      in if \<not> ds_connected st
         then stream_log (''stream:blocked:seq='' @ show_nat (fr_seq frame)) st
         else if FaultDrop (fr_seq frame) \<in> set faults
         then stream_log (''stream:drop:seq='' @ show_nat (fr_seq frame)) st
         else let st = enqueue_frame frame (FaultDuplicate (fr_seq frame) \<in> set faults) st
              in (case find_delay (fr_seq frame) faults of
                    None \<Rightarrow> drain_ordered st
                  | Some after_seq \<Rightarrow>
                      let st = stream_log (''stream:delay:seq='' @ show_nat (fr_seq frame)
                                 @ '':after='' @ show_nat after_seq) st
                      in if ds_next_deliver st \<le> after_seq then st else drain_ordered st))"

definition stream_flush :: "det_stream \<Rightarrow> det_stream" where
  "stream_flush st = drain_ordered st"

definition into_transcript :: "det_stream \<Rightarrow> stream_transcript" where
  "into_transcript st = ds_transcript (stream_flush st)"

definition connect_pair :: "u32 \<Rightarrow> u32 \<Rightarrow> u64 \<Rightarrow> det_stream" where
  "connect_pair left right connection =
     stream_new \<lparr>ep_node = left, ep_connection = connection\<rparr> \<lparr>ep_node = right, ep_connection = connection\<rparr>"

subsection \<open>The specification: which frames get onto the link\<close>

datatype stream_op = SendOp "u8 list" "stream_fault list" | FlushOp

fun stream_exec :: "stream_op \<Rightarrow> det_stream \<Rightarrow> det_stream" where
  "stream_exec (SendOp bytes faults) st = stream_send bytes faults st"
| "stream_exec FlushOp st = stream_flush st"

definition link_after :: "bool \<Rightarrow> stream_fault list \<Rightarrow> bool" where
  "link_after connected faults = (Reconnect \<in> set faults \<or> connected \<and> Disconnect \<notin> set faults)"

fun accepted_frames :: "bool \<Rightarrow> nat \<Rightarrow> stream_op list \<Rightarrow> frame option list" where
  "accepted_frames connected n [] = []"
| "accepted_frames connected n (FlushOp # ops) = accepted_frames connected n ops"
| "accepted_frames connected n (SendOp bytes faults # ops) =
     (if link_after connected faults \<and> FaultDrop n \<notin> set faults
      then Some \<lparr>fr_seq = n, fr_bytes = bytes\<rparr> else None)
     # accepted_frames (link_after connected faults) (Suc n) ops"

definition before_gap :: "'a option list \<Rightarrow> 'a list" where
  "before_gap acc = map the (takeWhile (\<lambda>f. f \<noteq> None) acc)"

subsection \<open>The invariant\<close>

definition stream_inv :: "frame option list \<Rightarrow> det_stream \<Rightarrow> bool" where
  "stream_inv acc st \<longleftrightarrow>
     ds_next_send st = length acc \<and> ds_next_deliver st \<le> length acc
     \<and> (\<forall>s < ds_next_deliver st. acc ! s \<noteq> None)
     \<and> (\<forall>s < length acc. \<forall>f. acc ! s = Some f \<longrightarrow> fr_seq f = s)
     \<and> tr_delivered (ds_transcript st) = map (\<lambda>s. the (acc ! s)) [0..<ds_next_deliver st]
     \<and> ds_delivered_once st = {..<ds_next_deliver st}
     \<and> (\<forall>s. btm_get (ds_buffered st) s =
            (if ds_next_deliver st \<le> s \<and> s < length acc then acc ! s else None))"

lemma stream_inv_log [simp]: "stream_inv acc (stream_log label st) = stream_inv acc st"
  by (simp add: stream_inv_def stream_log_def transcript_record_def)

lemma stream_inv_deliver:
  assumes "stream_inv acc st" and "btm_get (ds_buffered st) (ds_next_deliver st) = Some f"
  shows "stream_inv acc (deliver_frame f st)"
proof -
  have "ds_next_deliver st < length acc" "acc ! ds_next_deliver st = Some f" "fr_seq f = ds_next_deliver st"
    using assms by (auto simp: stream_inv_def split: if_splits)
  with assms(1) show ?thesis
    by (auto simp: stream_inv_def less_Suc_eq lessThan_Suc)
qed

lemma drain_ordered_inv:
  "stream_inv acc st \<Longrightarrow> stream_inv acc (drain_ordered st)
     \<and> btm_get (ds_buffered (drain_ordered st)) (ds_next_deliver (drain_ordered st)) = None
     \<and> ds_connected (drain_ordered st) = ds_connected st"
proof (induction st rule: drain_ordered.induct)
  case (1 st)
  then show ?case
    by (cases "btm_get (ds_buffered st) (ds_next_deliver st)")
      (simp_all add: drain_ordered.simps [of st] stream_inv_deliver)
qed

lemma delivered_before_gap:
  assumes "stream_inv acc st" and "btm_get (ds_buffered st) (ds_next_deliver st) = None"
  shows "tr_delivered (ds_transcript st) = before_gap acc"
proof -
  let ?k = "ds_next_deliver st"
  have "takeWhile (\<lambda>f. f \<noteq> None) acc = take ?k acc"
    using assms by (intro takeWhile_eq_take_P_nth) (auto simp: stream_inv_def split: if_splits)
  moreover have "map (\<lambda>s. the (acc ! s)) [0..<?k] = map the (take ?k acc)"
    using assms(1) by (intro nth_equalityI) (auto simp: stream_inv_def)
  ultimately show ?thesis using assms(1) by (simp add: before_gap_def stream_inv_def)
qed

lemma drain_delivered_prefix:
  "prefix (tr_delivered (ds_transcript st)) (tr_delivered (ds_transcript (drain_ordered st)))"
proof (induction st rule: drain_ordered.induct)
  case (1 st)
  show ?case
  proof (cases "btm_get (ds_buffered st) (ds_next_deliver st)")
    case None
    then show ?thesis by (simp add: drain_ordered.simps [of st])
  next
    case (Some f)
    have "prefix (tr_delivered (ds_transcript st)) (tr_delivered (ds_transcript (deliver_frame f st)))"
      by simp
    with 1 [OF Some] Some show ?thesis
      by (simp add: drain_ordered.simps [of st] del: deliver_frame_fields)
  qed
qed

lemma delivered_prefix:
  assumes "stream_inv acc st"
  shows "prefix (tr_delivered (ds_transcript st)) (before_gap acc)"
  using drain_delivered_prefix [of st] drain_ordered_inv [OF assms]
    delivered_before_gap [of acc "drain_ordered st"] by simp

subsection \<open>Every operation keeps it\<close>

lemma stream_inv_connected [simp]: "stream_inv acc (st\<lparr>ds_connected := c\<rparr>) = stream_inv acc st"
  by (simp add: stream_inv_def)

lemma stream_inv_skip:
  "stream_inv acc st \<Longrightarrow> stream_inv (acc @ [None]) (st\<lparr>ds_next_send := Suc (ds_next_send st)\<rparr>)"
  by (auto simp: stream_inv_def nth_append less_Suc_eq)

lemma stream_inv_buffer:
  "stream_inv (acc @ [x]) st \<Longrightarrow> x = None \<or> x = Some f \<Longrightarrow> ds_next_deliver st \<le> length acc \<Longrightarrow>
   fr_seq f = length acc \<Longrightarrow>
     stream_inv (acc @ [Some f]) (st\<lparr>ds_buffered := btm_insert (fr_seq f) f (ds_buffered st)\<rparr>)"
  by (auto simp: stream_inv_def nth_append less_Suc_eq)

lemma stream_log_simps [simp]:
  "ds_next_send (stream_log l st) = ds_next_send st"
  "ds_next_deliver (stream_log l st) = ds_next_deliver st"
  "ds_connected (stream_log l st) = ds_connected st"
  by (simp_all add: stream_log_def)

lemma link_faults_simps [simp]:
  "stream_inv acc (link_faults faults st) = stream_inv acc st"
  "ds_next_deliver (link_faults faults st) = ds_next_deliver st"
  "ds_connected (link_faults faults st) = link_after (ds_connected st) faults"
  by (simp_all add: link_faults_def link_after_def Let_def)

lemma enqueue_frame_simps [simp]:
  "ds_next_deliver (enqueue_frame f dup st) = ds_next_deliver st"
  "ds_connected (enqueue_frame f dup st) = ds_connected st"
  by (simp_all add: enqueue_frame_def Let_def)

lemma enqueue_frame_inv:
  assumes "stream_inv (acc @ [None]) st" and "fr_seq f = length acc"
  shows "stream_inv (acc @ [Some f]) (enqueue_frame f dup st)"
proof -
  have "ds_next_deliver st \<noteq> Suc (length acc)"
    using assms(1) by (auto simp: stream_inv_def)
  then have le: "ds_next_deliver st \<le> length acc"
    using assms(1) by (auto simp: stream_inv_def)
  let ?log = "stream_log (''stream:enqueue:seq='' @ show_nat (fr_seq f))
    (st\<lparr>ds_buffered := btm_insert (fr_seq f) f (ds_buffered st)\<rparr>)"
  have one: "stream_inv (acc @ [Some f]) ?log"
    using stream_inv_buffer [OF assms(1) _ le assms(2)] by simp
  have "stream_inv (acc @ [Some f]) (?log\<lparr>ds_buffered := btm_insert (fr_seq f) f (ds_buffered ?log)\<rparr>)"
    by (rule stream_inv_buffer [OF one]) (simp_all add: le assms(2))
  with one show ?thesis by (simp add: enqueue_frame_def Let_def)
qed

lemma stream_send_inv:
  assumes inv: "stream_inv acc st"
  defines "n \<equiv> length acc"
  shows "stream_inv (acc @ [if link_after (ds_connected st) faults \<and> FaultDrop n \<notin> set faults
                            then Some \<lparr>fr_seq = n, fr_bytes = bytes\<rparr> else None]) (stream_send bytes faults st)
    \<and> ds_connected (stream_send bytes faults st) = link_after (ds_connected st) faults"
proof -
  have n: "ds_next_send st = n" using inv by (simp add: stream_inv_def n_def)
  define st1 where "st1 = link_faults faults (st\<lparr>ds_next_send := ds_next_send st + 1\<rparr>)"
  have skip: "stream_inv (acc @ [None]) st1"
    using stream_inv_skip [OF inv] by (simp add: st1_def)
  have c: "ds_connected st1 = link_after (ds_connected st) faults" by (simp add: st1_def)
  define st2 where "st2 = enqueue_frame \<lparr>fr_seq = n, fr_bytes = bytes\<rparr> (FaultDuplicate n \<in> set faults) st1"
  have enq: "stream_inv (acc @ [Some \<lparr>fr_seq = n, fr_bytes = bytes\<rparr>]) st2"
    unfolding st2_def by (rule enqueue_frame_inv [OF skip]) (simp add: n_def)
  have c2: "ds_connected st2 = link_after (ds_connected st) faults" by (simp add: st2_def c)
  show ?thesis
    using skip c enq c2 drain_ordered_inv
    unfolding stream_send_def Let_def n st1_def [symmetric, unfolded n] frame.simps st2_def [symmetric]
    by (auto simp: st2_def [symmetric] split: option.split)
qed

lemma stream_exec_inv:
  "stream_inv acc st \<Longrightarrow>
     stream_inv (acc @ accepted_frames (ds_connected st) (length acc) ops) (fold stream_exec ops st)"
proof (induction ops arbitrary: acc st)
  case (Cons op ops)
  show ?case
  proof (cases op)
    case (SendOp bytes faults)
    then show ?thesis
      using stream_send_inv [OF Cons.prems, of faults bytes] Cons.IH by fastforce
  next
    case FlushOp
    then show ?thesis
      using drain_ordered_inv [OF Cons.prems] Cons.IH [of acc "drain_ordered st"] by (simp add: stream_flush_def)
  qed
qed simp

lemma stream_inv_new: "stream_inv [] (connect_pair left right connection)"
  by (simp add: stream_inv_def connect_pair_def stream_new_def)

text \<open>C17. A stream delivers what got onto the link before the first gap, each frame once, in order, and
  with the bytes sent, whatever faults delayed or duplicated frames; before the final flush, what it has
  delivered is a prefix of that. A frame that was dropped or blocked holds up everything behind it.\<close>

theorem stream_delivers_before_gap:
  "tr_delivered (into_transcript (fold stream_exec ops (connect_pair left right connection)))
     = before_gap (accepted_frames True 0 ops)
   \<and> prefix (tr_delivered (ds_transcript (fold stream_exec ops (connect_pair left right connection))))
       (before_gap (accepted_frames True 0 ops))"
proof -
  let ?st = "fold stream_exec ops (connect_pair left right connection)"
  have "ds_connected (connect_pair left right connection)"
    by (simp add: connect_pair_def stream_new_def)
  then have inv: "stream_inv (accepted_frames True 0 ops) ?st"
    using stream_exec_inv [OF stream_inv_new [of left right connection], of ops] by simp
  have "tr_delivered (ds_transcript (drain_ordered ?st)) = before_gap (accepted_frames True 0 ops)"
    using drain_ordered_inv [OF inv] by (intro delivered_before_gap) simp_all
  then show ?thesis
    using delivered_prefix [OF inv] by (simp add: into_transcript_def stream_flush_def)
qed

end
