(* ===== verification/Protocol_History.thy ===== *)
theory Protocol_History
  imports Check_Models "HOL-Library.Monad_Syntax"
begin

section \<open>The text encoding of client histories\<close>

text \<open>
  Models \<^verbatim>\<open>crates/detersim-protocols/src/history.rs\<close>: the lines a protocol writes into a run's
  history and the two parsers that give the checkers their operations back. An \<^verbatim>\<open>i32\<close> is a
  32-bit word read with \<open>sint\<close>; \<^verbatim>\<open>usize\<close> indices are at most \<open>u64_max\<close>.
\<close>

type_synonym i32 = "32 word"

subsection \<open>Signed decimal numbers\<close>

definition show_i32 :: "i32 \<Rightarrow> string" where
  "show_i32 v = (if sint v < 0 then CHR ''-'' # show_nat (nat (- sint v)) else show_nat (nat (sint v)))"

text \<open>\<^verbatim>\<open>s.parse::<i32>()\<close>.\<close>

definition parse_i32 :: "string \<Rightarrow> i32 option" where
  "parse_i32 s =
     (case s of
        [] \<Rightarrow> None
      | sign # digits \<Rightarrow>
          if sign = CHR ''-'' then
            (if digits = [] then None
             else case read_digits 0 digits of
                    None \<Rightarrow> None
                  | Some n \<Rightarrow> if n \<le> 2 ^ 31 then Some (word_of_int (- int n)) else None)
          else map_option (\<lambda>n. word_of_int (int n)) (parse_unsigned (2 ^ 31 - 1) s))"

lemma sint_i32_range: "- (2 ^ 31) \<le> sint (v :: i32)" "sint (v :: i32) < 2 ^ 31"
  using sint_range_size [of v] by (simp_all add: word_size)

lemma show_nat_hd: "show_nat n = c # cs \<Longrightarrow> is_digit c"
  using show_nat_digits [of c n] by simp

lemma parse_show_i32: "parse_i32 (show_i32 v) = Some v"
proof (cases "sint v < 0")
  case True
  have "nat (- sint v) \<le> 2 ^ 31" using sint_i32_range(1) [of v] by (simp add: nat_le_iff)
  then show ?thesis
    using True by (simp add: show_i32_def parse_i32_def read_digits_show_nat)
next
  case False
  obtain c cs where c: "show_nat (nat (sint v)) = c # cs" by (cases "show_nat (nat (sint v))") simp_all
  then have "c \<noteq> CHR ''-''" using show_nat_hd [OF c] by auto
  moreover have "nat (sint v) \<le> 2 ^ 31 - 1" using sint_i32_range(2) [of v] by (simp add: nat_le_iff)
  then have "parse_unsigned (2 ^ 31 - 1) (c # cs) = Some (nat (sint v))"
    using parse_show_nat c by metis
  ultimately show ?thesis
    using False by (simp add: show_i32_def parse_i32_def c)
qed

subsection \<open>Recorded operations\<close>

datatype recorded_op =
    RecKvPut u64 u32 i32 sim_time sim_time
  | RecKvGet u64 u32 "i32 option" sim_time sim_time
  | RecLogAppend u64 u32 string nat sim_time sim_time
  | RecLogRead u64 u32 "string list" sim_time sim_time

definition kv_value_msg :: "i32 option \<Rightarrow> string" where
  "kv_value_msg value = (case value of None \<Rightarrow> ''none'' | Some v \<Rightarrow> show_i32 v)"

abbreviation show_u64 :: "u64 \<Rightarrow> string" where
  "show_u64 v \<equiv> show_nat (unat v)"

fun to_history_line :: "recorded_op \<Rightarrow> string" where
  "to_history_line (RecKvPut id0 process value invoked returned) =
     ''kv:'' @ show_u64 id0 @ '':put:'' @ show_i32 value @ '':ok:'' @ show_u64 invoked @ '':'' @ show_u64 returned"
| "to_history_line (RecKvGet id0 process value invoked returned) =
     ''kv:'' @ show_u64 id0 @ '':get:'' @ kv_value_msg value @ '':value:'' @ show_u64 invoked @ '':'' @ show_u64 returned"
| "to_history_line (RecLogAppend id0 process value index invoked returned) =
     ''log:'' @ show_u64 id0 @ '':append:'' @ value @ '':index:'' @ show_nat index @ '':''
       @ show_u64 invoked @ '':'' @ show_u64 returned"
| "to_history_line (RecLogRead id0 process entries invoked returned) =
     ''log:'' @ show_u64 id0 @ '':read:'' @ join_with '','' entries @ '':entries:''
       @ show_u64 invoked @ '':'' @ show_u64 returned"

subsection \<open>The parsers\<close>

definition parse_u64 :: "string \<Rightarrow> u64 option" where
  "parse_u64 s = map_option of_nat (parse_unsigned u64_max s)"

definition get_part :: "string list \<Rightarrow> nat \<Rightarrow> string option" where
  "get_part parts i = (if i < length parts then Some (parts ! i) else None)"

definition parse_optional_i32 :: "string \<Rightarrow> i32 option" where
  "parse_optional_i32 value = (if value \<noteq> ''none'' then parse_i32 value else None)"

definition parse_entries :: "string \<Rightarrow> string list" where
  "parse_entries value = (if value = [] then [] else split_at_char CHR '','' value)"

definition parse_kv_line :: "string \<Rightarrow> (i32 single_key_input, i32 single_key_output) op_record option" where
  "parse_kv_line entry =
     (let parts = split_at_char CHR '':'' entry
      in if length parts \<noteq> 7 \<or> get_part parts 0 \<noteq> Some ''kv'' then None
         else do {
           id0 \<leftarrow> get_part parts 1 \<bind> parse_u64;
           invoked \<leftarrow> get_part parts 5 \<bind> parse_u64;
           returned \<leftarrow> get_part parts 6 \<bind> parse_u64;
           kind \<leftarrow> get_part parts 2;
           if kind = ''put'' then do {
             v \<leftarrow> get_part parts 3 \<bind> parse_i32;
             Some (op_completed_at id0 3 (SkPut v) SkOk invoked returned)
           }
           else if kind = ''get'' then do {
             v \<leftarrow> get_part parts 3;
             Some (op_completed_at id0 3 SkGet (SkValue (parse_optional_i32 v)) invoked returned)
           }
           else None
         })"

definition parse_log_line :: "string \<Rightarrow> (string append_log_input, string append_log_output) op_record option" where
  "parse_log_line entry =
     (let parts = split_at_char CHR '':'' entry
      in if get_part parts 0 \<noteq> Some ''log'' then None
         else do {
           id0 \<leftarrow> get_part parts 1 \<bind> parse_u64;
           kind \<leftarrow> get_part parts 2;
           if kind = ''append'' \<and> length parts = 8 then do {
             invoked \<leftarrow> get_part parts 6 \<bind> parse_u64;
             returned \<leftarrow> get_part parts 7 \<bind> parse_u64;
             v \<leftarrow> get_part parts 3;
             idx \<leftarrow> get_part parts 5 \<bind> parse_unsigned u64_max;
             Some (op_completed_at id0 3 (LogAppend v) (LogIndex idx) invoked returned)
           }
           else if kind = ''read'' \<and> length parts = 7 then do {
             invoked \<leftarrow> get_part parts 5 \<bind> parse_u64;
             returned \<leftarrow> get_part parts 6 \<bind> parse_u64;
             v \<leftarrow> get_part parts 3;
             Some (op_completed_at id0 3 LogReadAll (LogEntries (parse_entries v)) invoked returned)
           }
           else None
         })"

definition single_key_kv_history ::
  "string list \<Rightarrow> (i32 single_key_input, i32 single_key_output) op_record list" where
  "single_key_kv_history entries = List.map_filter parse_kv_line entries"

definition append_log_history ::
  "string list \<Rightarrow> (string append_log_input, string append_log_output) op_record list" where
  "append_log_history entries = List.map_filter parse_log_line entries"

subsection \<open>Round trips\<close>

text \<open>The operation a recorded operation stands for; the parsers give every operation process 3.\<close>

fun kv_operation :: "recorded_op \<Rightarrow> (i32 single_key_input, i32 single_key_output) op_record option" where
  "kv_operation (RecKvPut id0 process v invoked returned) =
     Some (op_completed_at id0 3 (SkPut v) SkOk invoked returned)"
| "kv_operation (RecKvGet id0 process v invoked returned) =
     Some (op_completed_at id0 3 SkGet (SkValue v) invoked returned)"
| "kv_operation _ = None"

fun log_operation :: "recorded_op \<Rightarrow> (string append_log_input, string append_log_output) op_record option" where
  "log_operation (RecLogAppend id0 process v index invoked returned) =
     Some (op_completed_at id0 3 (LogAppend v) (LogIndex index) invoked returned)"
| "log_operation (RecLogRead id0 process entries invoked returned) =
     Some (op_completed_at id0 3 LogReadAll (LogEntries entries) invoked returned)"
| "log_operation _ = None"

text \<open>Entries the log format can carry.\<close>

fun log_encodable :: "recorded_op \<Rightarrow> bool" where
  "log_encodable (RecLogAppend id0 process v index invoked returned) =
     (CHR '':'' \<notin> set v \<and> index \<le> u64_max)"
| "log_encodable (RecLogRead id0 process entries invoked returned) =
     (entries \<noteq> [[]] \<and> (\<forall>e \<in> set entries. CHR '':'' \<notin> set e \<and> CHR '','' \<notin> set e))"
| "log_encodable _ = True"

lemma parse_u64_show [simp]: "parse_u64 (show_u64 v) = Some v"
  by (simp add: parse_u64_def parse_show_nat unat_u64_le_max)

lemma show_nat_no_special [simp]: "CHR '':'' \<notin> set (show_nat n)" "CHR '','' \<notin> set (show_nat n)"
  using show_nat_digits by fastforce+

lemma show_i32_no_special [simp]: "CHR '':'' \<notin> set (show_i32 v)"
  by (simp add: show_i32_def)

lemma kv_value_msg_no_special [simp]: "CHR '':'' \<notin> set (kv_value_msg v)"
  by (simp add: kv_value_msg_def split: option.split)

lemma show_i32_not_none: "show_i32 v \<noteq> ''none''"
proof -
  obtain c cs where c: "show_nat (nat (sint v)) = c # cs" by (cases "show_nat (nat (sint v))") simp_all
  then have "hd (show_i32 v) = CHR ''-'' \<or> is_digit (hd (show_i32 v))"
    using show_nat_hd [OF c] by (simp add: show_i32_def)
  moreover have "\<not> is_digit CHR ''n''" by (simp add: is_digit_def digit_value_def)
  ultimately show ?thesis by auto
qed

lemma parse_optional_i32_msg [simp]: "parse_optional_i32 (kv_value_msg v) = v"
  by (simp add: parse_optional_i32_def kv_value_msg_def parse_show_i32 show_i32_not_none split: option.split)

lemma split_parts:
  "CHR '':'' \<notin> set a \<Longrightarrow> split_at_char CHR '':'' (a @ CHR '':'' # b) = a # split_at_char CHR '':'' b"
  by (rule split_at_char_append)

lemma split_last: "CHR '':'' \<notin> set a \<Longrightarrow> split_at_char CHR '':'' a = [a]"
  by (rule split_at_char_single)

lemma kv_line_parts:
  "split_at_char CHR '':'' (to_history_line (RecKvPut id0 process v invoked returned)) =
     [''kv'', show_u64 id0, ''put'', show_i32 v, ''ok'', show_u64 invoked, show_u64 returned]"
  "split_at_char CHR '':'' (to_history_line (RecKvGet id0 process w invoked returned)) =
     [''kv'', show_u64 id0, ''get'', kv_value_msg w, ''value'', show_u64 invoked, show_u64 returned]"
  by (simp_all add: split_parts split_last)

lemma log_line_parts:
  "CHR '':'' \<notin> set v \<Longrightarrow>
   split_at_char CHR '':'' (to_history_line (RecLogAppend id0 process v index invoked returned)) =
     [''log'', show_u64 id0, ''append'', v, ''index'', show_nat index, show_u64 invoked, show_u64 returned]"
  "CHR '':'' \<notin> set (join_with '','' entries) \<Longrightarrow>
   split_at_char CHR '':'' (to_history_line (RecLogRead id0 process entries invoked returned)) =
     [''log'', show_u64 id0, ''read'', join_with '','' entries, ''entries'', show_u64 invoked, show_u64 returned]"
  by (simp_all add: split_parts split_last)

lemma first_part:
  "get_part (split_at_char CHR '':'' (to_history_line op)) 0 =
     Some (case op of RecKvPut _ _ _ _ _ \<Rightarrow> ''kv'' | RecKvGet _ _ _ _ _ \<Rightarrow> ''kv'' | _ \<Rightarrow> ''log'')"
  by (cases op) (simp_all add: get_part_def split: list.split)

lemma parse_kv_line_of: "parse_kv_line (to_history_line op) = kv_operation op"
proof (cases op)
  case (RecKvPut id0 process v invoked returned)
  then show ?thesis
    using kv_line_parts(1) [of id0 process v invoked returned]
    by (simp add: parse_kv_line_def Let_def get_part_def parse_show_i32 del: to_history_line.simps)
next
  case (RecKvGet id0 process w invoked returned)
  then show ?thesis
    using kv_line_parts(2) [of id0 process w invoked returned]
    by (simp add: parse_kv_line_def Let_def get_part_def del: to_history_line.simps)
qed (use first_part [of op] in \<open>simp_all add: parse_kv_line_def Let_def del: to_history_line.simps\<close>)

lemma join_no_colon: "\<forall>e \<in> set entries. CHR '':'' \<notin> set e \<Longrightarrow> CHR '':'' \<notin> set (join_with '','' entries)"
  by (induction "'','' :: string" entries rule: join_with.induct) auto

lemma split_join:
  "entries \<noteq> [] \<Longrightarrow> \<forall>e \<in> set entries. CHR '','' \<notin> set e \<Longrightarrow>
     split_at_char CHR '','' (join_with '','' entries) = entries"
  by (induction "'','' :: string" entries rule: join_with.induct)
    (simp_all add: split_at_char_single split_at_char_append)

lemma join_Nil_iff: "join_with '','' entries = [] \<longleftrightarrow> entries = [] \<or> entries = [[]]"
  by (induction "'','' :: string" entries rule: join_with.induct) auto

lemma parse_entries_join:
  "entries \<noteq> [[]] \<Longrightarrow> \<forall>e \<in> set entries. CHR '','' \<notin> set e \<Longrightarrow>
     parse_entries (join_with '','' entries) = entries"
  by (cases "entries = []") (simp_all add: parse_entries_def split_join join_Nil_iff)

lemma parse_log_line_of: "log_encodable op \<Longrightarrow> parse_log_line (to_history_line op) = log_operation op"
proof (cases op)
  case (RecLogAppend id0 process v index invoked returned)
  assume "log_encodable op"
  with RecLogAppend show ?thesis
    using log_line_parts(1) [of v id0 process index invoked returned]
    by (simp add: parse_log_line_def Let_def get_part_def parse_show_nat del: to_history_line.simps)
next
  case (RecLogRead id0 process entries invoked returned)
  assume "log_encodable op"
  with RecLogRead show ?thesis
    using log_line_parts(2) [of entries id0 process invoked returned] join_no_colon [of entries]
      parse_entries_join [of entries]
    by (simp add: parse_log_line_def Let_def get_part_def del: to_history_line.simps)
qed (use first_part [of op] in \<open>simp_all add: parse_log_line_def Let_def del: to_history_line.simps\<close>)

lemma kv_history_of: "single_key_kv_history (map to_history_line ops) = List.map_filter kv_operation ops"
  by (induction ops) (simp_all add: single_key_kv_history_def map_filter_simps parse_kv_line_of split: option.split)

text \<open>What an operation means to a checker, with the process that recorded it.\<close>

fun recorded_kv :: "recorded_op \<Rightarrow> (i32 single_key_input, i32 single_key_output) op_record option" where
  "recorded_kv (RecKvPut id0 process v invoked returned) =
     Some (op_completed_at id0 process (SkPut v) SkOk invoked returned)"
| "recorded_kv (RecKvGet id0 process v invoked returned) =
     Some (op_completed_at id0 process SkGet (SkValue v) invoked returned)"
| "recorded_kv _ = None"

lemma kv_operation_recorded: "kv_operation op = map_option (at_process 3) (recorded_kv op)"
  by (cases op) (simp_all add: at_process_def op_completed_at_def)

lemma kv_operations_recorded: "List.map_filter kv_operation ops = map (at_process 3) (List.map_filter recorded_kv ops)"
  by (induction ops) (simp_all add: map_filter_simps kv_operation_recorded split: option.split)

text \<open>C34. The lines of a history carry its key-value operations to the checker, except for the process
  that made them: what is parsed are the recorded operations, in order, with their identifiers, values and times and
  with process 3 in place of their own (other lines are skipped), and for every model and budget the verdict of
  \<^verbatim>\<open>check_linearizable_with_budget\<close> on them is the verdict on the operations as recorded.\<close>

theorem kv_history_checked:
  "single_key_kv_history (map to_history_line ops) = map (at_process 3) (List.map_filter recorded_kv ops)
   \<and> check_linearizable_with_budget M (single_key_kv_history (map to_history_line ops)) m
       = check_linearizable_with_budget M (List.map_filter recorded_kv ops) m"
  by (simp add: kv_history_of kv_operations_recorded check_at_process)

text \<open>The same operations come back for the log, provided that no appended value holds a colon, no entry read a colon or
  a comma, and no read returned just the empty string.\<close>

lemma log_history_of:
  assumes "\<forall>op \<in> set ops. log_encodable op"
  shows "append_log_history (map to_history_line ops) = List.map_filter log_operation ops"
  using assms
  by (induction ops) (simp_all add: append_log_history_def map_filter_simps parse_log_line_of split: option.split)

text \<open>Outside that format an operation is lost or changed without a word.\<close>

lemma log_history_loses:
  "append_log_history [to_history_line (RecLogAppend id0 process ''a:b'' index invoked returned)] = []"
  "append_log_history [to_history_line (RecLogRead id0 process [[]] invoked returned)]
     = [op_completed_at id0 3 LogReadAll (LogEntries []) invoked returned]"
  by (simp_all add: append_log_history_def map_filter_simps parse_log_line_def Let_def get_part_def
      split_parts split_last parse_entries_def)

end
