(* ===== verification/Run_Report.thy ===== *)
theory Run_Report
  imports Json_Text Entropy_Tape "HOL-Library.List_Lexorder" "HOL-Library.Char_ord"
begin

section \<open>Run reports as text\<close>

text \<open>
  The report of a run as the tools around the simulator see it: \<^verbatim>\<open>RunReport\<close> of
  \<^verbatim>\<open>crates/detersim-sim/src/lib.rs\<close> with its traces as lines of text, and
  \<^verbatim>\<open>semantic_coverage\<close>, which reads those lines. A \<^verbatim>\<open>BTreeSet\<close> of strings that
  is collected into a vector is the sorted list of the set; strings compare by character.
\<close>

subsection \<open>Searching in text\<close>

text \<open>\<^verbatim>\<open>line.contains(pat)\<close>, \<^verbatim>\<open>split_once\<close> at a string, \<^verbatim>\<open>strip_prefix\<close>,
  and \<^verbatim>\<open>split_whitespace\<close> with its generalisation.\<close>

definition contains_str :: "string \<Rightarrow> string \<Rightarrow> bool" where
  "contains_str line pat = sublist pat line"

fun split_once_str :: "string \<Rightarrow> string \<Rightarrow> (string \<times> string) option" where
  "split_once_str pat [] = (if pat = [] then Some ([], []) else None)"
| "split_once_str pat (c # s) =
     (if prefix pat (c # s) then Some ([], drop (length pat) (c # s))
      else map_option (\<lambda>(a, b). (c # a, b)) (split_once_str pat s))"

definition strip_prefix :: "string \<Rightarrow> string \<Rightarrow> string option" where
  "strip_prefix pat s = (if prefix pat s then Some (drop (length pat) s) else None)"

fun split_where :: "(char \<Rightarrow> bool) \<Rightarrow> string \<Rightarrow> string list" where
  "split_where P [] = [[]]"
| "split_where P (c # s) =
     (if P c then [] # split_where P s
      else case split_where P s of [] \<Rightarrow> [[c]] | p # ps \<Rightarrow> (c # p) # ps)"

definition is_whitespace :: "char \<Rightarrow> bool" where
  "is_whitespace c = (let k = (of_char c :: nat) in 9 \<le> k \<and> k \<le> 13 \<or> k = 32 \<or> k = 133 \<or> k = 160)"

definition first_nonempty :: "string list \<Rightarrow> string option" where
  "first_nonempty parts = List.find (\<lambda>p. p \<noteq> []) parts"

definition first_word :: "string \<Rightarrow> string option" where
  "first_word s = first_nonempty (split_where is_whitespace s)"

definition is_ident_char :: "char \<Rightarrow> bool" where
  "is_ident_char c = (let k = (of_char c :: nat) in
     48 \<le> k \<and> k \<le> 57 \<or> 65 \<le> k \<and> k \<le> 90 \<or> 97 \<le> k \<and> k \<le> 122 \<or> k = 95)"

lemma split_once_str_append:
  "split_once_str pat s = Some (a, b) \<Longrightarrow> s = a @ pat @ b"
proof (induction s arbitrary: a)
  case (Cons c s)
  then show ?case by (auto simp: prefix_def split: if_splits)
qed (auto split: if_splits)

lemma split_once_str_None: "split_once_str pat s = None \<longleftrightarrow> \<not> contains_str s pat"
proof (induction s)
  case (Cons c s)
  then show ?case by (auto simp: contains_str_def sublist_Cons_right)
qed (simp add: contains_str_def)

lemma split_once_str_skip:
  "pat \<noteq> [] \<Longrightarrow> hd pat \<notin> set a \<Longrightarrow>
     split_once_str pat (a @ b) = map_option (\<lambda>(x, y). (a @ x, y)) (split_once_str pat b)"
proof (induction a)
  case Nil
  then show ?case by (simp add: option.map_ident case_prod_beta)
next
  case (Cons c a)
  then have "\<not> prefix pat ((c # a) @ b)" by (cases pat) auto
  with Cons show ?case by (auto simp: option.map_comp o_def case_prod_beta)
qed

lemma split_once_str_here: "pat \<noteq> [] \<Longrightarrow> split_once_str pat (pat @ s) = Some ([], s)"
  by (cases pat) simp_all

subsection \<open>The report\<close>

record text_report =
  rp_seed :: u64
  rp_trace :: "string list"
  rp_nemesis_trace :: "string list"
  rp_history :: "string list"
  rp_coverage_signals :: "string list"
  rp_tape_log :: "u64 list"
  rp_tape_events :: "tape_event list"
  rp_tape_replaying :: bool
  rp_tape_input_len :: "nat option"
  rp_tape_cursor :: nat
  rp_tape_consumed_all :: bool
  rp_tape_exhausted :: bool
  rp_dispatched :: nat
  rp_aborted :: bool
  rp_deadlocked :: bool
  rp_parked_tasks :: nat
  rp_tape_log_len :: nat

subsection \<open>Semantic coverage\<close>

definition trace_edge :: "string \<Rightarrow> string option" where
  "trace_edge line =
     (case split_once_str ''deliver '' line of None \<Rightarrow> None | Some (before, after) \<Rightarrow> first_word after)"

definition trace_drop_kind :: "string \<Rightarrow> string option" where
  "trace_drop_kind line =
     (case split_once_str ''] '' line of
        None \<Rightarrow> None
      | Some (before, after) \<Rightarrow>
          (case first_word after of None \<Rightarrow> None | Some kind \<Rightarrow> strip_prefix ''drop-'' kind))"

definition nemesis_signals :: "string \<Rightarrow> string list" where
  "nemesis_signals entry =
     (case first_nonempty (split_where (\<lambda>ch. \<not> is_ident_char ch) entry) of
        None \<Rightarrow> [] | Some kind \<Rightarrow> [''nemesis:'' @ kind])"

definition history_signal :: "string \<Rightarrow> string" where
  "history_signal entry =
     (case split_once CHR '':'' entry of
        Some (kind, rest) \<Rightarrow> ''history:'' @ kind | None \<Rightarrow> ''history:'' @ entry)"

definition trace_signals :: "string \<Rightarrow> string list" where
  "trace_signals line =
     (case trace_edge line of None \<Rightarrow> [] | Some edge \<Rightarrow> [''message-edge:'' @ edge])
     @ (case trace_drop_kind line of None \<Rightarrow> [] | Some d \<Rightarrow> [''network:'' @ d])
     @ (if contains_str line ''timer fire='' then [''timer:fire''] else [])
     @ (if contains_str line ''poll task='' then [''task:poll''] else [])
     @ (if contains_str line '' nemesis '' then [''nemesis:event''] else [])"

definition collect_set :: "string list \<Rightarrow> string list" where
  "collect_set xs = sorted_list_of_set (set xs)"

definition semantic_coverage ::
  "bool \<Rightarrow> bool \<Rightarrow> tape_event list \<Rightarrow> string list \<Rightarrow> string list \<Rightarrow> string list \<Rightarrow> string list" where
  "semantic_coverage over_limit stuck events nemesis_trace history trace =
     collect_set
       ((if over_limit then ''outcome:aborted''
         else if stuck then ''outcome:deadlocked'' else ''outcome:quiesced'')
        # map (\<lambda>event. ''tape:'' @ label_as_str (te_label event)) events
        @ concat (map nemesis_signals nemesis_trace)
        @ map history_signal history
        @ concat (map trace_signals trace))"

lemma collect_set_simps [simp]:
  "set (collect_set xs) = set xs" "sorted_wrt (<) (collect_set xs)" "distinct (collect_set xs)"
  by (simp_all add: collect_set_def)

end
