(* ===== verification/Sim_Text.thy ===== *)
theory Sim_Text
  imports Sim_World Run_Report
begin

section \<open>The text of a run\<close>

text \<open>
  The lines the simulator writes into its traces (\<^verbatim>\<open>render\<close>, the
  \<^verbatim>\<open>format!\<close> calls of \<^verbatim>\<open>pop_until_poll\<close>, and the derived
  \<^verbatim>\<open>Debug\<close> of \<^verbatim>\<open>NemesisAction\<close>), and the report with these lines. The debug form of
  a message, \<^verbatim>\<open>String::from_utf8_lossy(msg)\<close> with \<^verbatim>\<open>{:?}\<close>, is the parameter
  \<open>dbg\<close>: nothing is assumed of it.
\<close>

subsection \<open>Debug output\<close>

definition show_node :: "node_id \<Rightarrow> string" where
  "show_node n = show_nat (unat n)"

definition show_int :: "int \<Rightarrow> string" where
  "show_int i = (if i < 0 then CHR ''-'' # show_nat (nat (- i)) else show_nat (nat i))"

definition debug_list :: "('a \<Rightarrow> string) \<Rightarrow> 'a list \<Rightarrow> string" where
  "debug_list f xs = ''['' @ join_with '', '' (map f xs) @ '']''"

fun debug_action :: "nemesis_action \<Rightarrow> string" where
  "debug_action (Partition groups) = ''Partition { groups: '' @ debug_list (debug_list show_node) groups @ '' }''"
| "debug_action (AsymmetricPartition from to) =
     ''AsymmetricPartition { from: '' @ show_node from @ '', to: '' @ show_node to @ '' }''"
| "debug_action (SetLink from to up) =
     ''SetLink { from: '' @ show_node from @ '', to: '' @ show_node to @ '', up: '' @ show_bool up @ '' }''"
| "debug_action HealAll = ''HealAll''"
| "debug_action (Crash node) = ''Crash { node: '' @ show_node node @ '' }''"
| "debug_action (Restart node) = ''Restart { node: '' @ show_node node @ '' }''"
| "debug_action (ClockSkew node offset_ns) =
     ''ClockSkew { node: '' @ show_node node @ '', offset_ns: '' @ show_int offset_ns @ '' }''"
| "debug_action (BitRot node) = ''BitRot { node: '' @ show_node node @ '' }''"
| "debug_action (TornWrite node) = ''TornWrite { node: '' @ show_node node @ '' }''"
| "debug_action (LostOnCrash node) = ''LostOnCrash { node: '' @ show_node node @ '' }''"
| "debug_action (PreFsyncReorder node) = ''PreFsyncReorder { node: '' @ show_node node @ '' }''"

subsection \<open>Trace lines\<close>

definition stamp :: "sim_time \<Rightarrow> nat \<Rightarrow> string" where
  "stamp time seq = ''[t='' @ pad_left 10 (show_nat (unat time)) @ '' #'' @ pad_left 6 (show_nat seq) @ ''] ''"

definition show_route :: "node_id \<Rightarrow> node_id \<Rightarrow> string" where
  "show_route from to = show_node from @ ''->'' @ show_node to"

definition render :: "(message \<Rightarrow> string) \<Rightarrow> sim_time \<Rightarrow> nat \<Rightarrow> event_kind \<Rightarrow> string" where
  "render dbg time seq kind =
     (case kind of
        PollTask task \<Rightarrow> stamp time seq @ ''poll task='' @ show_nat task
      | TimerFire timer \<Rightarrow> stamp time seq @ ''timer fire='' @ show_nat timer
      | DeliverMsg from to msg \<Rightarrow> stamp time seq @ ''deliver '' @ show_route from to @ '' '' @ dbg msg
      | NemesisEvent action \<Rightarrow> stamp time seq @ ''nemesis '' @ debug_action action)"

fun show_entry :: "(message \<Rightarrow> string) \<Rightarrow> trace_entry \<Rightarrow> string" where
  "show_entry dbg (Dispatched time seq kind) = render dbg time seq kind"
| "show_entry dbg (DropUnregistered time seq from to) = stamp time seq @ ''drop-unregistered '' @ show_route from to"
| "show_entry dbg (DropCrashed time seq from to) = stamp time seq @ ''drop-crashed '' @ show_route from to"
| "show_entry dbg (DropPartition time seq from to) = stamp time seq @ ''drop-partition '' @ show_route from to"
| "show_entry dbg (DropRandom time seq from to) = stamp time seq @ ''drop-random '' @ show_route from to"
| "show_entry dbg (SendFromCrashed from to) = ''send-from-crashed:'' @ show_route from to"

definition text_report_of :: "(message \<Rightarrow> string) \<Rightarrow> run_report \<Rightarrow> text_report" where
  "text_report_of dbg r =
     (let trace = map (show_entry dbg) (rr_trace r);
          nemesis = map debug_action (rr_nemesis_trace r)
      in \<lparr>rp_seed = rr_seed r, rp_trace = trace, rp_nemesis_trace = nemesis, rp_history = rr_history r,
          rp_coverage_signals = semantic_coverage (rr_aborted r) (rr_deadlocked r) (rr_tape_events r)
            nemesis (rr_history r) trace,
          rp_tape_log = rr_tape_log r, rp_tape_events = rr_tape_events r,
          rp_tape_replaying = rr_tape_replaying r, rp_tape_input_len = rr_tape_input_len r,
          rp_tape_cursor = rr_tape_cursor r, rp_tape_consumed_all = rr_tape_consumed_all r,
          rp_tape_exhausted = rr_tape_exhausted r, rp_dispatched = rr_dispatched r,
          rp_aborted = rr_aborted r, rp_deadlocked = rr_deadlocked r,
          rp_parked_tasks = rr_parked_tasks r, rp_tape_log_len = rr_tape_log_len r\<rparr>)"

subsection \<open>What the coverage reads out of a line\<close>

lemma show_nat_chars: "\<not> is_digit c \<Longrightarrow> c \<notin> set (show_nat n)"
  using show_nat_digits by blast

lemma not_digit_letters [simp]:
  "\<not> is_digit CHR ''v''" "\<not> is_digit CHR ''d''" "\<not> is_digit CHR '']''" "\<not> is_digit CHR ''>''"
  by (simp_all add: is_digit_def digit_value_def)

lemma pad_left_chars: "c \<noteq> CHR '' '' \<Longrightarrow> c \<in> set (pad_left w s) \<longleftrightarrow> c \<in> set s"
  by (auto simp: pad_left_def)

lemma join_with_chars: "c \<in> set (join_with sep xs) \<Longrightarrow> c \<in> set sep \<or> (\<exists>x \<in> set xs. c \<in> set x)"
  by (induction sep xs rule: join_with.induct) auto

lemma debug_list_no_v: "(\<And>x. CHR ''v'' \<notin> set (f x)) \<Longrightarrow> CHR ''v'' \<notin> set (debug_list f xs)"
  using join_with_chars [of "CHR ''v''" "'', ''" "map f xs"] by (auto simp: debug_list_def)

lemma show_node_no_v [simp]: "CHR ''v'' \<notin> set (show_node n)"
  by (simp add: show_node_def show_nat_chars)

lemma debug_action_no_v: "CHR ''v'' \<notin> set (debug_action action)"
  by (cases action) (auto simp: debug_list_no_v show_nat_chars show_bool_def show_int_def)

lemma stamp_no_v [simp]: "CHR ''v'' \<notin> set (stamp time seq)" and stamp_no_d [simp]: "CHR ''d'' \<notin> set (stamp time seq)"
  by (simp_all add: stamp_def pad_left_chars show_nat_chars)

lemma show_route_no_v [simp]: "CHR ''v'' \<notin> set (show_route from to)"
  by (simp add: show_route_def)

lemma split_once_str_no_char: "c \<in> set pat \<Longrightarrow> c \<notin> set s \<Longrightarrow> split_once_str pat s = None"
  by (auto simp: split_once_str_None contains_str_def dest: set_mono_sublist)

lemma split_where_first:
  "\<forall>c \<in> set a. \<not> P c \<Longrightarrow> P x \<Longrightarrow> split_where P (a @ x # b) = a # split_where P b"
  by (induction a) auto

lemma split_where_single: "\<forall>c \<in> set a. \<not> P c \<Longrightarrow> split_where P a = [a]"
  by (induction a) auto

lemma first_word_space: "a \<noteq> [] \<Longrightarrow> \<forall>c \<in> set a. \<not> is_whitespace c \<Longrightarrow> first_word (a @ CHR '' '' # b) = Some a"
  by (simp add: first_word_def first_nonempty_def split_where_first is_whitespace_def)

lemma digit_not_whitespace: "is_digit c \<Longrightarrow> \<not> is_whitespace c"
  by (auto simp: is_digit_def digit_value_def is_whitespace_def Let_def split: if_splits)

lemma show_route_word: "show_route from to \<noteq> []" "\<forall>c \<in> set (show_route from to). \<not> is_whitespace c"
  using show_nat_digits digit_not_whitespace
  by (auto simp: show_route_def show_node_def is_whitespace_def)

lemma route_word: "first_word (show_route from to @ CHR '' '' # rest) = Some (show_route from to)"
  by (rule first_word_space [OF show_route_word])

lemma stamp_after: "\<exists>a. stamp time seq = a @ ''] '' \<and> CHR '']'' \<notin> set a"
  by (intro exI [of _ "''[t='' @ pad_left 10 (show_nat (unat time)) @ '' #'' @ pad_left 6 (show_nat seq)"])
    (simp add: stamp_def pad_left_chars show_nat_chars)

lemma split_stamp: "\<exists>a. split_once_str ''] '' (stamp time seq @ rest) = Some (a, rest)"
proof -
  obtain a where a: "stamp time seq = a @ ''] ''" "CHR '']'' \<notin> set a" using stamp_after by blast
  then have "split_once_str ''] '' (stamp time seq @ rest)
      = map_option (\<lambda>(x, y). (a @ x, y)) (split_once_str ''] '' (''] '' @ rest))"
    using split_once_str_skip [of "''] ''" a "''] '' @ rest"] by simp
  then show ?thesis by (simp only: split_once_str_here) simp
qed

definition entry_edge :: "trace_entry \<Rightarrow> string option" where
  "entry_edge e = (case e of
     Dispatched time seq kind \<Rightarrow> (case kind of DeliverMsg from to msg \<Rightarrow> Some (show_route from to) | _ \<Rightarrow> None)
   | _ \<Rightarrow> None)"

definition entry_drop :: "trace_entry \<Rightarrow> string option" where
  "entry_drop e = (case e of
     DropUnregistered _ _ _ _ \<Rightarrow> Some ''unregistered'' | DropCrashed _ _ _ _ \<Rightarrow> Some ''crashed''
   | DropPartition _ _ _ _ \<Rightarrow> Some ''partition'' | DropRandom _ _ _ _ \<Rightarrow> Some ''random'' | _ \<Rightarrow> None)"

lemma trace_edge_deliver:
  "trace_edge (stamp time seq @ ''deliver '' @ show_route from to @ '' '' @ rest) = Some (show_route from to)"
proof -
  let ?rest = "show_route from to @ '' '' @ rest"
  have "split_once_str ''deliver '' (''deliver '' @ ?rest) = Some ([], ?rest)"
    by (rule split_once_str_here) simp
  moreover have "split_once_str ''deliver '' (stamp time seq @ ''deliver '' @ ?rest)
      = map_option (\<lambda>(x, y). (stamp time seq @ x, y)) (split_once_str ''deliver '' (''deliver '' @ ?rest))"
    by (rule split_once_str_skip) simp_all
  ultimately have "split_once_str ''deliver '' (stamp time seq @ ''deliver '' @ ?rest)
      = Some (stamp time seq, ?rest)" by (simp only: option.map prod.case append_Nil2)
  then show ?thesis by (simp add: trace_edge_def route_word)
qed

lemma trace_edge_none: "CHR ''v'' \<notin> set line \<Longrightarrow> trace_edge line = None"
  by (simp add: trace_edge_def split_once_str_no_char [of "CHR ''v''"])

lemma drop_kind_word:
  "word \<noteq> [] \<Longrightarrow> \<forall>c \<in> set word. \<not> is_whitespace c \<Longrightarrow>
     trace_drop_kind (stamp time seq @ word @ CHR '' '' # rest) = strip_prefix ''drop-'' word"
  using split_stamp [of time seq "word @ CHR '' '' # rest"] first_word_space [of word rest]
  by (auto simp: trace_drop_kind_def)

lemma drop_kind_no_stamp: "trace_drop_kind (show_entry dbg (SendFromCrashed from to)) = None"
  by (simp add: trace_drop_kind_def split_once_str_no_char [of "CHR '']''"] show_route_def show_node_def show_nat_chars)

lemma entry_edge_shown: "trace_edge (show_entry dbg e) = entry_edge e"
proof (cases e)
  case (Dispatched time seq kind)
  show ?thesis
  proof (cases kind)
    case (DeliverMsg src dst msg)
    then show ?thesis
      using Dispatched trace_edge_deliver [of time seq src dst "dbg msg"]
      by (simp only: show_entry.simps render_def event_kind.case entry_edge_def trace_entry.case)
  qed (simp_all add: Dispatched render_def entry_edge_def trace_edge_none show_nat_chars debug_action_no_v)
qed (simp_all add: entry_edge_def trace_edge_none)

lemma entry_drop_shown: "trace_drop_kind (show_entry dbg e) = entry_drop e"
proof (cases e)
  case (Dispatched time seq kind)
  then show ?thesis
    using drop_kind_word [of "''poll''" time seq] drop_kind_word [of "''timer''" time seq]
      drop_kind_word [of "''deliver''" time seq] drop_kind_word [of "''nemesis''" time seq]
    by (cases kind) (simp_all add: render_def entry_drop_def strip_prefix_def is_whitespace_def)
next
  case (DropUnregistered time seq src dst)
  then show ?thesis
    using drop_kind_word [of "''drop-unregistered''" time seq]
    by (simp add: entry_drop_def strip_prefix_def is_whitespace_def)
next
  case (DropCrashed time seq src dst)
  then show ?thesis
    using drop_kind_word [of "''drop-crashed''" time seq]
    by (simp add: entry_drop_def strip_prefix_def is_whitespace_def)
next
  case (DropPartition time seq src dst)
  then show ?thesis
    using drop_kind_word [of "''drop-partition''" time seq]
    by (simp add: entry_drop_def strip_prefix_def is_whitespace_def)
next
  case (DropRandom time seq src dst)
  then show ?thesis
    using drop_kind_word [of "''drop-random''" time seq]
    by (simp add: entry_drop_def strip_prefix_def is_whitespace_def)
next
  case (SendFromCrashed src dst)
  then show ?thesis using drop_kind_no_stamp by (simp only: entry_drop_def trace_entry.case)
qed

text \<open>C31. The coverage reads the trace lines exactly, whatever the messages contain: a line names a
  message edge if and only if it is the line of a delivery, and then the edge delivered; it names a kind of
  drop if and only if it is the line of a dropped message.\<close>

theorem coverage_reads_lines:
  "trace_edge (show_entry dbg e) = entry_edge e \<and> trace_drop_kind (show_entry dbg e) = entry_drop e"
  by (rule conjI [OF entry_edge_shown entry_drop_shown])

end
