(* ===== verification/Viz_Artifact.thy ===== *)
theory Viz_Artifact
  imports Run_Report
begin

section \<open>Debug artifacts\<close>

text \<open>
  Models \<^verbatim>\<open>crates/detersim-viz/src/lib.rs\<close>: the JSON and HTML forms of a run report and of
  debug artifacts, the reader of their schema version, and the causal graph of a run. The format strings are
  those of the code, cut at their arguments.
\<close>

subsection \<open>Artifacts\<close>

record debug_artifact =
  da_title :: string
  da_run :: text_report
  da_experiment_json :: "string option"
  da_checker_json :: "string option"
  da_shrink_json :: "string option"
  da_failure_signature_json :: "string option"

record debug_artifact_v3 =
  d3_title :: string
  d3_run :: text_report
  d3_experiment_json :: "string option"
  d3_search_json :: "string option"
  d3_checker_json :: "string option"
  d3_shrink_json :: "string option"
  d3_failure_signature_json :: "string option"
  d3_coverage_json :: "string option"
  d3_causal_graph_json :: "string option"
  d3_environment_json :: "string option"

abbreviation show_u64 :: "u64 \<Rightarrow> string" where
  "show_u64 v \<equiv> show_nat (unat v)"

definition tape_events_json :: "text_report \<Rightarrow> string" where
  \<open>tape_events_json r =
     ''['' @ join_with '','' (map (\<lambda>event. ''{"index":'' @ show_nat (te_index event) @ '',"label":"'' @ label_as_str (te_label event) @ ''","value":'' @ show_u64 (te_value event) @ ''}'')
       (rp_tape_events r)) @ '']''\<close>

definition run_report_to_json :: "text_report \<Rightarrow> string" where
  \<open>run_report_to_json r =
     ''{"schema_version":2,"seed":''
     @ show_u64 (rp_seed r)
     @ '',"dispatched":''
     @ show_nat (rp_dispatched r)
     @ '',"aborted":''
     @ show_bool (rp_aborted r)
     @ '',"deadlocked":''
     @ show_bool (rp_deadlocked r)
     @ '',"trace":''
     @ string_array (rp_trace r)
     @ '',"history":''
     @ string_array (rp_history r)
     @ '',"coverage_signals":''
     @ string_array (rp_coverage_signals r)
     @ '',"nemesis":''
     @ string_array (rp_nemesis_trace r)
     @ '',"nemesis_trace":''
     @ string_array (rp_nemesis_trace r)
     @ '',"tape":''
     @ u64_array (rp_tape_log r)
     @ '',"tape_events":''
     @ tape_events_json r
     @ '',"tape_replaying":''
     @ show_bool (rp_tape_replaying r)
     @ '',"tape_input_len":''
     @ option_usize (rp_tape_input_len r)
     @ '',"tape_cursor":''
     @ show_nat (rp_tape_cursor r)
     @ '',"tape_consumed_all":''
     @ show_bool (rp_tape_consumed_all r)
     @ '',"tape_exhausted":''
     @ show_bool (rp_tape_exhausted r)
     @ ''}''\<close>

definition debug_artifact_to_json :: "debug_artifact \<Rightarrow> string" where
  \<open>debug_artifact_to_json a =
     ''{"schema_version":2,"title":"''
     @ escape_json (da_title a)
     @ ''","run":''
     @ run_report_to_json (da_run a)
     @ '',"experiment":''
     @ option_raw_json (da_experiment_json a)
     @ '',"checker":''
     @ option_raw_json (da_checker_json a)
     @ '',"shrink":''
     @ option_raw_json (da_shrink_json a)
     @ '',"failure_signature":''
     @ option_raw_json (da_failure_signature_json a)
     @ ''}''\<close>

definition debug_artifact_v3_to_json :: "debug_artifact_v3 \<Rightarrow> string" where
  \<open>debug_artifact_v3_to_json a =
     ''{"schema_version":3,"title":"''
     @ escape_json (d3_title a)
     @ ''","run":''
     @ run_report_to_json (d3_run a)
     @ '',"experiment":''
     @ option_raw_json (d3_experiment_json a)
     @ '',"search":''
     @ option_raw_json (d3_search_json a)
     @ '',"checker":''
     @ option_raw_json (d3_checker_json a)
     @ '',"shrink":''
     @ option_raw_json (d3_shrink_json a)
     @ '',"failure_signature":''
     @ option_raw_json (d3_failure_signature_json a)
     @ '',"coverage":''
     @ option_raw_json (d3_coverage_json a)
     @ '',"causal_graph":''
     @ option_raw_json (d3_causal_graph_json a)
     @ '',"environment":''
     @ option_raw_json (d3_environment_json a)
     @ ''}''\<close>

definition is_ascii_whitespace :: "char \<Rightarrow> bool" where
  "is_ascii_whitespace c = (c \<in> {CHR 0x20, CHR 0x09, CHR 0x0A, CHR 0x0C, CHR 0x0D})"

definition version_marker :: string where
  \<open>version_marker = ''"schema_version":''\<close>

definition debug_artifact_schema_version :: "string \<Rightarrow> nat option" where
  "debug_artifact_schema_version json =
     (case split_once_str version_marker json of
        None \<Rightarrow> None
      | Some (before, after) \<Rightarrow>
          parse_unsigned (2 ^ 32 - 1) (takeWhile is_digit (dropWhile is_ascii_whitespace after)))"

definition debug_artifact_html :: "debug_artifact \<Rightarrow> string" where
  \<open>debug_artifact_html a =
     ''<!doctype html><html><head><meta charset="utf-8"><title>detersim debug artifact</title><style>body{f''
     @ ''ont-family:system-ui,sans-serif;margin:24px;line-height:1.4}section{margin-block:18px}pre{white-spac''
     @ ''e:pre-wrap;border:1px solid #ccc;padding:12px;overflow:auto}.nemesis{border-color:#9b2c2c;background''
     @ '':#fff5f5}.history{border-color:#2b6cb0;background:#ebf8ff}.conflict{border-color:#744210;background:''
     @ ''#fffff0}.lanes{display:grid;grid-template-columns:repeat(auto-fit,minmax(260px,1fr));gap:12px}h2{fon''
     @ ''t-size:16px;margin-bottom:6px}</style></head><body><h1>''
     @ escape_json (da_title a)
     @ ''</h1><section><h2>failure signature</h2><pre class="conflict" id="signature"></pre></section><sectio''
     @ ''n><h2>experiment</h2><pre id="experiment"></pre></section><section><h2>checker / shrink</h2><pre id=''
     @ ''"checker"></pre><pre id="shrink"></pre></section><section><h2>nemesis</h2><pre class="nemesis" id="n''
     @ ''emesis"></pre></section><section><h2>history</h2><pre class="history" id="history"></pre></section><''
     @ ''section><h2>tape events</h2><pre id="tape"></pre></section><section><h2>node lanes</h2><div class="l''
     @ ''anes" id="lanes"></div></section><section><h2>raw trace</h2><pre id="trace"></pre></section><script>''
     @ ''const artifact=''
     @ debug_artifact_to_json a
     @ '';const report=artifact.run;const byNode=new Map();function add(node,line){if(!byNode.has(node))byNod''
     @ ''e.set(node,[]);byNode.get(node).push(line);}for(const line of report.trace){const deliver=line.match''
     @ ''(/deliver (''
     @ [CHR 0x5C]
     @ ''d+)->(''
     @ [CHR 0x5C]
     @ ''d+)/);if(deliver){add(deliver[1],line);add(deliver[2],line);continue;}const poll=line.match(/poll ta''
     @ ''sk=(''
     @ [CHR 0x5C]
     @ ''d+)/);add(poll?`task-${poll[1]}`:''
     @ [CHR 0x27]
     @ ''system''
     @ [CHR 0x27]
     @ '',line);}function pretty(value){return value===null||value===undefined?''
     @ [CHR 0x27]
     @ [CHR 0x27]
     @ '':JSON.stringify(value,null,2);}document.getElementById(''
     @ [CHR 0x27]
     @ ''signature''
     @ [CHR 0x27]
     @ '').textContent=pretty(artifact.failure_signature);document.getElementById(''
     @ [CHR 0x27]
     @ ''experiment''
     @ [CHR 0x27]
     @ '').textContent=pretty(artifact.experiment);document.getElementById(''
     @ [CHR 0x27]
     @ ''checker''
     @ [CHR 0x27]
     @ '').textContent=pretty(artifact.checker);document.getElementById(''
     @ [CHR 0x27]
     @ ''shrink''
     @ [CHR 0x27]
     @ '').textContent=pretty(artifact.shrink);document.getElementById(''
     @ [CHR 0x27]
     @ ''nemesis''
     @ [CHR 0x27]
     @ '').textContent=report.nemesis_trace.join(''
     @ [CHR 0x27]
     @ [CHR 0x5C]
     @ ''n''
     @ [CHR 0x27]
     @ '');document.getElementById(''
     @ [CHR 0x27]
     @ ''history''
     @ [CHR 0x27]
     @ '').textContent=report.history.join(''
     @ [CHR 0x27]
     @ [CHR 0x5C]
     @ ''n''
     @ [CHR 0x27]
     @ '');document.getElementById(''
     @ [CHR 0x27]
     @ ''tape''
     @ [CHR 0x27]
     @ '').textContent=pretty(report.tape_events);document.getElementById(''
     @ [CHR 0x27]
     @ ''trace''
     @ [CHR 0x27]
     @ '').textContent=report.trace.join(''
     @ [CHR 0x27]
     @ [CHR 0x5C]
     @ ''n''
     @ [CHR 0x27]
     @ '');const lanes=document.getElementById(''
     @ [CHR 0x27]
     @ ''lanes''
     @ [CHR 0x27]
     @ '');for(const [node,lines] of [...byNode.entries()].sort()){const section=document.createElement(''
     @ [CHR 0x27]
     @ ''section''
     @ [CHR 0x27]
     @ '');const h=document.createElement(''
     @ [CHR 0x27]
     @ ''h2''
     @ [CHR 0x27]
     @ '');h.textContent=node;const pre=document.createElement(''
     @ [CHR 0x27]
     @ ''pre''
     @ [CHR 0x27]
     @ '');pre.textContent=lines.join(''
     @ [CHR 0x27]
     @ [CHR 0x5C]
     @ ''n''
     @ [CHR 0x27]
     @ '');section.append(h,pre);lanes.append(section);}</script></body></html>''\<close>

definition debug_artifact_v3_html :: "debug_artifact_v3 \<Rightarrow> string" where
  \<open>debug_artifact_v3_html a =
     ''<!doctype html><html><head><meta charset="utf-8"><title>detersim debug artifact v3</title><style>bod''
     @ ''y{font-family:system-ui,sans-serif;margin:24px;line-height:1.4}section{margin-block:18px}pre{white-s''
     @ ''pace:pre-wrap;border:1px solid #ccc;padding:12px;overflow:auto}.nemesis{border-color:#9b2c2c;backgro''
     @ ''und:#fff5f5}.history{border-color:#2b6cb0;background:#ebf8ff}.conflict{border-color:#744210;backgrou''
     @ ''nd:#fffff0}.coverage{border-color:#276749;background:#f0fff4}.lanes{display:grid;grid-template-colum''
     @ ''ns:repeat(auto-fit,minmax(260px,1fr));gap:12px}h2{font-size:16px;margin-bottom:6px}</style></head><b''
     @ ''ody><h1>''
     @ escape_json (d3_title a)
     @ ''</h1><section><h2>run overview</h2><pre id="overview"></pre></section><section><h2>failure signature''
     @ ''</h2><pre class="conflict" id="signature"></pre></section><section><h2>experiment and search</h2><pr''
     @ ''e id="experiment"></pre><pre id="search"></pre></section><section><h2>checker witness</h2><pre class''
     @ ''="conflict" id="checker"></pre></section><section><h2>shrink diff</h2><pre id="shrink"></pre></secti''
     @ ''on><section><h2>coverage</h2><pre class="coverage" id="coverage"></pre></section><section><h2>causal''
     @ '' graph</h2><pre id="causal"></pre></section><section><h2>nemesis and storage faults</h2><pre class="''
     @ ''nemesis" id="nemesis"></pre></section><section><h2>client history</h2><pre class="history" id="histo''
     @ ''ry"></pre></section><section><h2>node lanes</h2><div class="lanes" id="lanes"></div></section><secti''
     @ ''on><h2>raw trace</h2><pre id="trace"></pre></section><script>const artifact=''
     @ debug_artifact_v3_to_json a
     @ '';const report=artifact.run;function pretty(value){return value===null||value===undefined?''
     @ [CHR 0x27]
     @ [CHR 0x27]
     @ '':JSON.stringify(value,null,2);}document.getElementById(''
     @ [CHR 0x27]
     @ ''overview''
     @ [CHR 0x27]
     @ '').textContent=pretty({seed:report.seed,dispatched:report.dispatched,deadlocked:report.deadlocked,abo''
     @ ''rted:report.aborted,tape_cursor:report.tape_cursor,tape_consumed_all:report.tape_consumed_all,tape_e''
     @ ''xhausted:report.tape_exhausted});document.getElementById(''
     @ [CHR 0x27]
     @ ''signature''
     @ [CHR 0x27]
     @ '').textContent=pretty(artifact.failure_signature);document.getElementById(''
     @ [CHR 0x27]
     @ ''experiment''
     @ [CHR 0x27]
     @ '').textContent=pretty(artifact.experiment);document.getElementById(''
     @ [CHR 0x27]
     @ ''search''
     @ [CHR 0x27]
     @ '').textContent=pretty(artifact.search);document.getElementById(''
     @ [CHR 0x27]
     @ ''checker''
     @ [CHR 0x27]
     @ '').textContent=pretty(artifact.checker);document.getElementById(''
     @ [CHR 0x27]
     @ ''shrink''
     @ [CHR 0x27]
     @ '').textContent=pretty(artifact.shrink);document.getElementById(''
     @ [CHR 0x27]
     @ ''coverage''
     @ [CHR 0x27]
     @ '').textContent=pretty(artifact.coverage ?? report.coverage_signals);document.getElementById(''
     @ [CHR 0x27]
     @ ''causal''
     @ [CHR 0x27]
     @ '').textContent=pretty(artifact.causal_graph);document.getElementById(''
     @ [CHR 0x27]
     @ ''nemesis''
     @ [CHR 0x27]
     @ '').textContent=report.nemesis_trace.join(''
     @ [CHR 0x27]
     @ [CHR 0x5C]
     @ ''n''
     @ [CHR 0x27]
     @ '');document.getElementById(''
     @ [CHR 0x27]
     @ ''history''
     @ [CHR 0x27]
     @ '').textContent=report.history.join(''
     @ [CHR 0x27]
     @ [CHR 0x5C]
     @ ''n''
     @ [CHR 0x27]
     @ '');document.getElementById(''
     @ [CHR 0x27]
     @ ''trace''
     @ [CHR 0x27]
     @ '').textContent=report.trace.join(''
     @ [CHR 0x27]
     @ [CHR 0x5C]
     @ ''n''
     @ [CHR 0x27]
     @ '');const byNode=new Map();function add(node,line){if(!byNode.has(node))byNode.set(node,[]);byNode.get''
     @ ''(node).push(line);}for(const line of report.trace){const deliver=line.match(/deliver (''
     @ [CHR 0x5C]
     @ ''d+)->(''
     @ [CHR 0x5C]
     @ ''d+)/);if(deliver){add(deliver[1],line);add(deliver[2],line);continue;}const poll=line.match(/poll ta''
     @ ''sk=(''
     @ [CHR 0x5C]
     @ ''d+)/);add(poll?`task-${poll[1]}`:''
     @ [CHR 0x27]
     @ ''system''
     @ [CHR 0x27]
     @ '',line);}const lanes=document.getElementById(''
     @ [CHR 0x27]
     @ ''lanes''
     @ [CHR 0x27]
     @ '');for(const [node,lines] of [...byNode.entries()].sort()){const section=document.createElement(''
     @ [CHR 0x27]
     @ ''section''
     @ [CHR 0x27]
     @ '');const h=document.createElement(''
     @ [CHR 0x27]
     @ ''h2''
     @ [CHR 0x27]
     @ '');h.textContent=node;const pre=document.createElement(''
     @ [CHR 0x27]
     @ ''pre''
     @ [CHR 0x27]
     @ '');pre.textContent=lines.join(''
     @ [CHR 0x27]
     @ [CHR 0x5C]
     @ ''n''
     @ [CHR 0x27]
     @ '');section.append(h,pre);lanes.append(section);}</script></body></html>''\<close>

definition raw_debug_artifact_html :: "string \<Rightarrow> string \<Rightarrow> string" where
  \<open>raw_debug_artifact_html title json =
     ''<!doctype html><html><head><meta charset="utf-8"><title>''
     @ escape_json title
     @ ''</title><style>body{font-family:system-ui,sans-serif;margin:24px;line-height:1.4}pre{white-space:pre''
     @ ''-wrap;border:1px solid #ccc;padding:12px;overflow:auto}.panel{display:grid;grid-template-columns:rep''
     @ ''eat(auto-fit,minmax(280px,1fr));gap:12px}</style></head><body><h1>''
     @ escape_json title
     @ ''</h1><section><h2>artifact</h2><pre id="artifact"></pre></section><section class="panel"><div><h2>fa''
     @ ''ilure signature</h2><pre id="signature"></pre></div><div><h2>causal graph</h2><pre id="causal"></pre''
     @ ''></div><div><h2>shrink</h2><pre id="shrink"></pre></div></section><script>const artifact=''
     @ json
     @ '';function pretty(v){return v===null||v===undefined?''
     @ [CHR 0x27]
     @ [CHR 0x27]
     @ '':JSON.stringify(v,null,2);}document.getElementById(''
     @ [CHR 0x27]
     @ ''artifact''
     @ [CHR 0x27]
     @ '').textContent=pretty(artifact);document.getElementById(''
     @ [CHR 0x27]
     @ ''signature''
     @ [CHR 0x27]
     @ '').textContent=pretty(artifact.failure_signature);document.getElementById(''
     @ [CHR 0x27]
     @ ''causal''
     @ [CHR 0x27]
     @ '').textContent=pretty(artifact.causal_graph);document.getElementById(''
     @ [CHR 0x27]
     @ ''shrink''
     @ [CHR 0x27]
     @ '').textContent=pretty(artifact.shrink);</script></body></html>''\<close>

definition timeline_html :: "text_report \<Rightarrow> string" where
  "timeline_html r = debug_artifact_html
     \<lparr>da_title = ''detersim trace seed '' @ show_u64 (rp_seed r), da_run = r, da_experiment_json = None,
      da_checker_json = None, da_shrink_json = None, da_failure_signature_json = None\<rparr>"

subsection \<open>The causal graph\<close>

record causal_node =
  cn_id :: string
  cn_kind :: string
  cn_label :: string

record causal_edge =
  ce_from :: string
  ce_to :: string
  ce_kind :: string

record causal_graph =
  cg_nodes :: "causal_node list"
  cg_edges :: "causal_edge list"

definition message_edge :: "string \<Rightarrow> (string \<times> string \<times> string) option" where
  "message_edge line =
     (let marker =
        (if contains_str line ''deliver '' then Some ''deliver ''
         else if contains_str line ''drop-'' then
           (case split_once_str ''] '' line of
              None \<Rightarrow> None
            | Some (before, after) \<Rightarrow> map_option fst (split_once CHR '' '' after))
         else None)
      in case marker of
           None \<Rightarrow> None
         | Some marker \<Rightarrow>
             (case split_once_str marker line of
                None \<Rightarrow> None
              | Some (before, after) \<Rightarrow>
                  (case first_word after of
                     None \<Rightarrow> None
                   | Some route \<Rightarrow>
                       (case split_once_str ''->'' route of
                          None \<Rightarrow> None
                        | Some (from, to) \<Rightarrow>
                            Some (from, to, if marker = ''deliver '' then ''message-delivered''
                                            else ''message-dropped'')))))"

definition trace_is_fault_affected :: "string \<Rightarrow> bool" where
  "trace_is_fault_affected line =
     list_ex (contains_str line)
       [''drop-'', ''crash'', ''restart'', ''BitRot'', ''TornWrite'', ''LostOnCrash'']"

definition history_is_fault_affected :: "string \<Rightarrow> bool" where
  "history_is_fault_affected line =
     list_ex (contains_str line)
       [''storage-corruption'', ''raft-bug'', ''raft-invariant'', ''checksum:bad'', ''missing-message'']"

definition trace_kind :: "string \<Rightarrow> string" where
  "trace_kind line =
     (if contains_str line ''deliver '' then ''message''
      else if contains_str line ''timer'' \<or> contains_str line ''sleep'' then ''timer''
      else if contains_str line ''storage'' then ''storage'' else ''trace'')"

text \<open>\<^verbatim>\<open>format!("{kind}-{idx}")\<close>.\<close>

definition node_name :: "string \<Rightarrow> nat \<Rightarrow> string" where
  "node_name kind idx = kind @ ''-'' @ show_nat idx"

definition line_nodes :: "string \<Rightarrow> (string \<Rightarrow> string) \<Rightarrow> string list \<Rightarrow> causal_node list" where
  "line_nodes name kind lines =
     map (\<lambda>(idx, line). \<lparr>cn_id = node_name name idx, cn_kind = kind line, cn_label = line\<rparr>) (enumerate 0 lines)"

definition message_nodes :: "string list \<Rightarrow> causal_node list" where
  "message_nodes trace =
     concat (map (\<lambda>(idx, line).
       case message_edge line of
         None \<Rightarrow> []
       | Some (from, to, kind) \<Rightarrow>
           [\<lparr>cn_id = node_name ''message'' idx, cn_kind = ''message'', cn_label = from @ ''->'' @ to\<rparr>,
            \<lparr>cn_id = node_name ''message-send'' idx, cn_kind = ''message-send'', cn_label = from @ ''->'' @ to\<rparr>,
            \<lparr>cn_id = node_name ''message-result'' idx, cn_kind = kind, cn_label = line\<rparr>])
       (enumerate 0 trace))"

definition section_node :: "string \<Rightarrow> string option \<Rightarrow> causal_node list" where
  "section_node name section =
     (case section of None \<Rightarrow> []
      | Some json \<Rightarrow> [\<lparr>cn_id = node_name name 0, cn_kind = name, cn_label = json\<rparr>])"

definition causal_edge_of :: "string \<Rightarrow> string \<Rightarrow> string \<Rightarrow> causal_edge" where
  "causal_edge_of from to kind = \<lparr>ce_from = from, ce_to = to, ce_kind = kind\<rparr>"

definition trace_order_edges :: "text_report \<Rightarrow> causal_edge list" where
  "trace_order_edges r =
     map (\<lambda>idx. causal_edge_of (node_name ''trace'' (idx - 1)) (node_name ''trace'' idx) ''trace-order'')
       [1..<length (rp_trace r)]"

definition observed_edges :: "text_report \<Rightarrow> causal_edge list" where
  "observed_edges r =
     concat (map (\<lambda>idx. if rp_trace r \<noteq> []
         then [causal_edge_of (node_name ''trace'' (length (rp_trace r) - 1)) (node_name ''history'' idx) ''observed-as'']
         else []) [0..<length (rp_history r)])"

definition message_edges :: "text_report \<Rightarrow> causal_edge list" where
  "message_edges r =
     concat (map (\<lambda>(idx, line). if message_edge line \<noteq> None
         then [causal_edge_of (node_name ''message-send'' idx) (node_name ''message'' idx) ''message-send'',
               causal_edge_of (node_name ''message'' idx) (node_name ''message-result'' idx) ''message-delivery-result'',
               causal_edge_of (node_name ''message-result'' idx) (node_name ''trace'' idx) ''rendered-as-trace'']
         else []) (enumerate 0 (rp_trace r)))"

definition affected_edges :: "nat \<Rightarrow> string \<Rightarrow> (string \<Rightarrow> bool) \<Rightarrow> string list \<Rightarrow> string \<Rightarrow> causal_edge list" where
  "affected_edges nemesis_idx name affected lines kind =
     concat (map (\<lambda>(idx, line). if affected line
         then [causal_edge_of (node_name ''nemesis'' nemesis_idx) (node_name name idx) kind] else [])
       (enumerate 0 lines))"

definition nemesis_edges :: "text_report \<Rightarrow> causal_edge list" where
  "nemesis_edges r =
     concat (map (\<lambda>nemesis_idx.
         affected_edges nemesis_idx ''trace'' trace_is_fault_affected (rp_trace r) ''nemesis-affects-trace''
         @ affected_edges nemesis_idx ''history'' history_is_fault_affected (rp_history r) ''nemesis-affects-history'')
       [0..<length (rp_nemesis_trace r)])"

definition checker_edges :: "text_report \<Rightarrow> string option \<Rightarrow> causal_edge list" where
  "checker_edges r checker =
     (if checker \<noteq> None
      then map (\<lambda>idx. causal_edge_of (node_name ''checker'' 0) (node_name ''history'' idx) ''checker-conflict-op'')
             [0..<length (rp_history r)]
      else [])"

definition shrink_edges :: "text_report \<Rightarrow> string option \<Rightarrow> causal_edge list" where
  "shrink_edges r shrink =
     (if shrink \<noteq> None
      then [causal_edge_of (node_name ''shrink'' 0)
              (if rp_history r = [] then node_name ''trace'' 0 else node_name ''history'' 0) ''preserves-failure'']
      else [])"

definition causal_from_sections :: "text_report \<Rightarrow> string option \<Rightarrow> string option \<Rightarrow> causal_graph" where
  "causal_from_sections r checker shrink =
     \<lparr>cg_nodes =
        line_nodes ''nemesis'' (\<lambda>_. ''nemesis'') (rp_nemesis_trace r)
        @ line_nodes ''trace'' trace_kind (rp_trace r)
        @ line_nodes ''history'' (\<lambda>_. ''history'') (rp_history r)
        @ message_nodes (rp_trace r)
        @ section_node ''checker'' checker
        @ section_node ''shrink'' shrink,
      cg_edges =
        trace_order_edges r @ observed_edges r @ message_edges r @ nemesis_edges r
        @ checker_edges r checker @ shrink_edges r shrink\<rparr>"

definition causal_from_run :: "text_report \<Rightarrow> causal_graph" where
  "causal_from_run r = causal_from_sections r None None"

definition causal_node_json :: "causal_node \<Rightarrow> string" where
  \<open>causal_node_json node =
     ''{"id":"''
     @ escape_json (cn_id node)
     @ ''","kind":"''
     @ escape_json (cn_kind node)
     @ ''","label":"''
     @ escape_json (cn_label node)
     @ ''"}''\<close>

definition causal_edge_json :: "causal_edge \<Rightarrow> string" where
  \<open>causal_edge_json edge =
     ''{"from":"''
     @ escape_json (ce_from edge)
     @ ''","to":"''
     @ escape_json (ce_to edge)
     @ ''","kind":"''
     @ escape_json (ce_kind edge)
     @ ''"}''\<close>

definition causal_graph_json :: "causal_graph \<Rightarrow> string" where
  \<open>causal_graph_json g =
     ''{"schema_version":3,"nodes":[''
     @ join_with '','' (map causal_node_json (cg_nodes g))
     @ ''],"edges":[''
     @ join_with '','' (map causal_edge_json (cg_edges g))
     @ '']}''\<close>

subsection \<open>The version field\<close>

lemma version_of:
  \<open>debug_artifact_schema_version (''{'' @ version_marker @ show_nat v @ '','' @ rest)
     = (if v \<le> 2 ^ 32 - 1 then Some v else None)\<close>
proof -
  have m: "version_marker \<noteq> []" "hd version_marker \<noteq> CHR ''{''" by (simp_all add: version_marker_def)
  have "split_once_str version_marker (''{'' @ version_marker @ show_nat v @ '','' @ rest)
      = map_option (\<lambda>(x, y). (''{'' @ x, y)) (split_once_str version_marker (version_marker @ show_nat v @ '','' @ rest))"
    using m by (intro split_once_str_skip) simp_all
  also have "split_once_str version_marker (version_marker @ show_nat v @ '','' @ rest) = Some ([], show_nat v @ '','' @ rest)"
    using m(1) by (rule split_once_str_here)
  finally have split: "split_once_str version_marker (''{'' @ version_marker @ show_nat v @ '','' @ rest)
      = Some (''{'', show_nat v @ '','' @ rest)" by simp
  have first: "\<not> is_ascii_whitespace c" if "is_digit c" for c
    using that by (auto simp: is_ascii_whitespace_def is_digit_def digit_value_def)
  obtain c cs where cs: "show_nat v = c # cs" by (cases "show_nat v") simp_all
  then have c: "show_nat v = c # cs" "is_digit c" using show_nat_digits [of c v] by simp_all
  have "dropWhile is_ascii_whitespace (show_nat v @ '','' @ rest) = show_nat v @ '','' @ rest"
    using first c by simp
  moreover have "takeWhile is_digit (show_nat v @ '','' @ rest) = show_nat v"
    using show_nat_digits by (simp add: takeWhile_tail takeWhile_eq_all_conv)
  ultimately have "debug_artifact_schema_version (''{'' @ version_marker @ show_nat v @ '','' @ rest)
      = parse_unsigned (2 ^ 32 - 1) (show_nat v)"
    using split by (simp only: debug_artifact_schema_version_def option.case prod.case)
  then show ?thesis by (simp only: parse_show_nat_iff)
qed

text \<open>The version reader finds the version the artifacts were written with, whatever their title,
  run and sections contain.\<close>

lemma artifact_schema_versions:
  "debug_artifact_schema_version (debug_artifact_to_json a2) = Some 2
   \<and> debug_artifact_schema_version (debug_artifact_v3_to_json a3) = Some 3
   \<and> debug_artifact_schema_version (run_report_to_json r) = Some 2
   \<and> debug_artifact_schema_version (causal_graph_json g) = Some 3"
proof -
  have digits: "show_nat 2 = ''2''" "show_nat 3 = ''3''"
    by (simp_all add: show_nat.simps digit_char_def)
  have "\<exists>rest. debug_artifact_to_json a2 = ''{'' @ version_marker @ show_nat 2 @ '','' @ rest"
      "\<exists>rest. run_report_to_json r = ''{'' @ version_marker @ show_nat 2 @ '','' @ rest"
      "\<exists>rest. debug_artifact_v3_to_json a3 = ''{'' @ version_marker @ show_nat 3 @ '','' @ rest"
      "\<exists>rest. causal_graph_json g = ''{'' @ version_marker @ show_nat 3 @ '','' @ rest"
    unfolding debug_artifact_to_json_def run_report_to_json_def debug_artifact_v3_to_json_def
      causal_graph_json_def version_marker_def digits by simp_all
  then show ?thesis using version_of by fastforce
qed

subsection \<open>The graph is well formed\<close>

lemma append_last_sep:
  "x \<notin> set us \<Longrightarrow> x \<notin> set vs \<Longrightarrow> a @ x # us = b @ x # vs \<longleftrightarrow> a = b \<and> us = vs"
proof
  assume x: "x \<notin> set us" "x \<notin> set vs" and eq: "a @ x # us = b @ x # vs"
  then have "takeWhile (\<lambda>y. y \<noteq> x) (rev us @ x # rev a) = takeWhile (\<lambda>y. y \<noteq> x) (rev vs @ x # rev b)"
    by (metis append_Cons append_Nil append_assoc rev.simps(2) rev_append)
  then have "takeWhile (\<lambda>y. y \<noteq> x) (rev us) = takeWhile (\<lambda>y. y \<noteq> x) (rev vs)"
    by (simp add: takeWhile_tail)
  moreover have "takeWhile (\<lambda>y. y \<noteq> x) (rev zs) = rev zs" if "x \<notin> set zs" for zs
    using that by (auto simp: takeWhile_eq_all_conv)
  ultimately have "us = vs" using x by simp
  with eq show "a = b \<and> us = vs" by simp
qed simp

lemma node_name_inject [simp]: "node_name k i = node_name k' i' \<longleftrightarrow> k = k' \<and> i = i'"
proof -
  have "CHR ''-'' \<notin> set (show_nat n)" for n using show_nat_digits by fastforce
  then show ?thesis using append_last_sep [of "CHR ''-''"] by (simp add: node_name_def)
qed

definition names_of :: "(string \<times> nat) list \<Rightarrow> string list" where
  "names_of keys = map (\<lambda>(k, i). node_name k i) keys"

lemma distinct_names_of: "distinct (names_of keys) \<longleftrightarrow> distinct keys"
  by (auto simp: names_of_def distinct_map inj_on_def)

definition line_keys :: "string \<Rightarrow> 'a list \<Rightarrow> (string \<times> nat) list" where
  "line_keys name lines = map (\<lambda>i. (name, i)) [0..<length lines]"

definition message_keys :: "nat \<Rightarrow> string list \<Rightarrow> (string \<times> nat) list" where
  "message_keys n trace = concat (map (\<lambda>(idx, line). if message_edge line = None then []
     else [(''message'', idx), (''message-send'', idx), (''message-result'', idx)]) (enumerate n trace))"

lemma line_nodes_ids: "map cn_id (line_nodes name kind lines) = names_of (line_keys name lines)"
proof -
  have "cn_id \<circ> (\<lambda>(idx, line). \<lparr>cn_id = node_name name idx, cn_kind = kind line, cn_label = line\<rparr>)
      = node_name name \<circ> fst"
    by auto
  then have "map cn_id (line_nodes name kind lines) = map (node_name name) (map fst (enumerate 0 lines))"
    by (simp only: line_nodes_def map_map)
  then show ?thesis by (simp only: map_fst_enumerate) (simp add: names_of_def line_keys_def)
qed

lemma message_nodes_ids: "map cn_id (message_nodes trace) = names_of (message_keys 0 trace)"
proof -
  have "map cn_id (concat (map (\<lambda>(idx, line).
       case message_edge line of
         None \<Rightarrow> []
       | Some (from, to, kind) \<Rightarrow>
           [\<lparr>cn_id = node_name ''message'' idx, cn_kind = ''message'', cn_label = from @ ''->'' @ to\<rparr>,
            \<lparr>cn_id = node_name ''message-send'' idx, cn_kind = ''message-send'', cn_label = from @ ''->'' @ to\<rparr>,
            \<lparr>cn_id = node_name ''message-result'' idx, cn_kind = kind, cn_label = line\<rparr>])
       (enumerate n trace))) = names_of (message_keys n trace)" for n
    by (induction trace arbitrary: n) (auto simp: names_of_def message_keys_def)
  then show ?thesis by (simp only: message_nodes_def)
qed

lemma message_keys_Cons:
  "message_keys n (line # trace) = (if message_edge line = None then []
      else [(''message'', n), (''message-send'', n), (''message-result'', n)]) @ message_keys (Suc n) trace"
  by (simp add: message_keys_def)

lemma message_keys_bounds:
  "(k, i) \<in> set (message_keys n trace) \<Longrightarrow> n \<le> i \<and> k \<in> {''message'', ''message-send'', ''message-result''}"
proof (induction trace arbitrary: n)
  case (Cons line trace)
  then have "(k, i) \<in> set (message_keys (Suc n) trace) \<or> i = n \<and> k \<in> {''message'', ''message-send'', ''message-result''}"
    unfolding message_keys_Cons by (cases "message_edge line = None") auto
  then show ?case using Cons.IH [of "Suc n"] by auto
qed (simp add: message_keys_def)

lemma message_keys_distinct: "distinct (message_keys n trace)"
proof (induction trace arbitrary: n)
  case (Cons line trace)
  have "(k, n) \<notin> set (message_keys (Suc n) trace)" for k
    using message_keys_bounds [of k n "Suc n" trace] by auto
  then show ?case using Cons.IH [of "Suc n"] by (simp add: message_keys_Cons)
qed (simp add: message_keys_def)

definition graph_keys :: "text_report \<Rightarrow> string option \<Rightarrow> string option \<Rightarrow> (string \<times> nat) list" where
  "graph_keys r checker shrink =
     line_keys ''nemesis'' (rp_nemesis_trace r) @ line_keys ''trace'' (rp_trace r)
     @ line_keys ''history'' (rp_history r) @ message_keys 0 (rp_trace r)
     @ (if checker = None then [] else [(''checker'', 0)]) @ (if shrink = None then [] else [(''shrink'', 0)])"

lemma section_node_ids: "map cn_id (section_node name section) = names_of (if section = None then [] else [(name, 0)])"
  by (simp add: section_node_def names_of_def split: option.split)

lemma graph_ids: "map cn_id (cg_nodes (causal_from_sections r checker shrink)) = names_of (graph_keys r checker shrink)"
  by (simp add: causal_from_sections_def line_nodes_ids message_nodes_ids section_node_ids)
    (simp add: names_of_def graph_keys_def)

lemma graph_keys_distinct: "distinct (graph_keys r checker shrink)"
proof -
  have "distinct (line_keys name lines)" for name and lines :: "'x list"
    by (simp add: line_keys_def distinct_map inj_on_def)
  then show ?thesis
    using message_keys_distinct [of 0 "rp_trace r"] message_keys_bounds [of _ _ 0 "rp_trace r"]
    by (auto simp: graph_keys_def line_keys_def)
qed

definition named :: "(string \<times> nat) set \<Rightarrow> causal_edge list \<Rightarrow> bool" where
  "named K edges \<longleftrightarrow> (\<forall>e \<in> set edges. \<exists>(k, i) \<in> K. \<exists>(k', i') \<in> K. ce_from e = node_name k i \<and> ce_to e = node_name k' i')"

lemma named_append [simp]: "named K (es @ es') \<longleftrightarrow> named K es \<and> named K es'"
  by (auto simp: named_def)

lemma named_Nil [simp]: "named K []"
  by (simp add: named_def)

lemma named_Cons [simp]:
  "(k, i) \<in> K \<Longrightarrow> (k', i') \<in> K \<Longrightarrow> named K (causal_edge_of (node_name k i) (node_name k' i') kind # es) \<longleftrightarrow> named K es"
  by (fastforce simp: named_def causal_edge_of_def)

lemma named_concat: "(\<And>es. es \<in> set ess \<Longrightarrow> named K es) \<Longrightarrow> named K (concat ess)"
  by (auto simp: named_def)

lemma named_map: "(\<And>x. x \<in> set xs \<Longrightarrow> named K [f x]) \<Longrightarrow> named K (map f xs)"
  by (auto simp: named_def)

lemma in_enumerate: "(i, x) \<in> set (enumerate 0 xs) \<longleftrightarrow> i < length xs \<and> x = xs ! i"
  by (auto simp: in_set_enumerate_eq)

lemma message_keys_mem:
  "i < length trace \<Longrightarrow> message_edge (trace ! i) \<noteq> None \<Longrightarrow>
     (''message'', i) \<in> set (message_keys 0 trace) \<and> (''message-send'', i) \<in> set (message_keys 0 trace)
     \<and> (''message-result'', i) \<in> set (message_keys 0 trace)"
  by (force simp: message_keys_def in_enumerate)

lemma graph_keys_mem:
  "i < length (rp_nemesis_trace r) \<Longrightarrow> (''nemesis'', i) \<in> set (graph_keys r checker shrink)"
  "i < length (rp_trace r) \<Longrightarrow> (''trace'', i) \<in> set (graph_keys r checker shrink)"
  "i < length (rp_history r) \<Longrightarrow> (''history'', i) \<in> set (graph_keys r checker shrink)"
  "checker \<noteq> None \<Longrightarrow> (''checker'', 0) \<in> set (graph_keys r checker shrink)"
  "shrink \<noteq> None \<Longrightarrow> (''shrink'', 0) \<in> set (graph_keys r checker shrink)"
  "i < length (rp_trace r) \<Longrightarrow> message_edge (rp_trace r ! i) \<noteq> None \<Longrightarrow>
     {(''message'', i), (''message-send'', i), (''message-result'', i)} \<subseteq> set (graph_keys r checker shrink)"
  using message_keys_mem [of i "rp_trace r"] by (auto simp: graph_keys_def line_keys_def)

lemma graph_edges_named:
  assumes "shrink = None \<or> rp_history r \<noteq> [] \<or> rp_trace r \<noteq> []"
  shows "named (set (graph_keys r checker shrink)) (cg_edges (causal_from_sections r checker shrink))"
proof -
  let ?K = "set (graph_keys r checker shrink)"
  note mem = graph_keys_mem [where r = r and checker = checker and shrink = shrink]
  have "named ?K (trace_order_edges r)"
    unfolding trace_order_edges_def by (rule named_map) (auto simp: mem)
  moreover have "named ?K (observed_edges r)"
    unfolding observed_edges_def
    by (rule named_concat, cases "rp_trace r = []") (auto simp: mem)
  moreover have "named ?K (message_edges r)"
    unfolding message_edges_def
  proof (rule named_concat, clarsimp simp: in_enumerate)
    fix i s t kind
    assume i: "i < length (rp_trace r)" "message_edge (rp_trace r ! i) = Some (s, t, kind)"
    then show "named ?K [causal_edge_of (node_name ''message-send'' i) (node_name ''message'' i) ''message-send'',
        causal_edge_of (node_name ''message'' i) (node_name ''message-result'' i) ''message-delivery-result'',
        causal_edge_of (node_name ''message-result'' i) (node_name ''trace'' i) ''rendered-as-trace'']"
      using mem(2) mem(6) by simp
  qed
  moreover have "named ?K (affected_edges n name affected lines kind)"
    if "n < length (rp_nemesis_trace r)" "\<And>i. i < length lines \<Longrightarrow> (name, i) \<in> ?K" for n name affected lines kind
    unfolding affected_edges_def by (rule named_concat) (use that mem(1) in \<open>auto simp: in_enumerate\<close>)
  then have "named ?K (nemesis_edges r)"
    unfolding nemesis_edges_def by (intro named_concat) (auto simp: mem)
  moreover have "named ?K (checker_edges r checker)"
    unfolding checker_edges_def
    by (cases "checker = None") (simp_all only: simp_thms if_True if_False named_Nil, rule named_map, simp add: mem)
  moreover have "named ?K (shrink_edges r shrink)"
    using assms unfolding shrink_edges_def
    by (cases "shrink = None"; cases "rp_history r = []") (simp_all only: simp_thms if_True if_False named_Nil, simp_all add: mem)
  ultimately show ?thesis by (simp add: causal_from_sections_def)
qed

text \<open>Every edge starts and ends in a node of the graph.\<close>

definition edges_closed :: "causal_graph \<Rightarrow> bool" where
  "edges_closed g \<longleftrightarrow> (\<forall>e \<in> set (cg_edges g). {ce_from e, ce_to e} \<subseteq> cn_id ` set (cg_nodes g))"

lemma graph_id_set: "cn_id ` set (cg_nodes (causal_from_sections r checker shrink)) = set (names_of (graph_keys r checker shrink))"
  using arg_cong [OF graph_ids [of r checker shrink], of set] by simp

lemma edges_closed_shrink:
  assumes "shrink \<noteq> None" and "rp_history r = []" and "rp_trace r = []"
  shows "\<not> edges_closed (causal_from_sections r checker shrink)"
proof -
  have "(''trace'', 0) \<notin> set (graph_keys r checker shrink)"
    using assms by (auto simp: graph_keys_def line_keys_def message_keys_def)
  then have "node_name ''trace'' 0 \<notin> set (names_of (graph_keys r checker shrink))"
    by (auto simp: names_of_def)
  moreover have "causal_edge_of (node_name ''shrink'' 0) (node_name ''trace'' 0) ''preserves-failure''
      \<in> set (cg_edges (causal_from_sections r checker shrink))"
    using assms by (simp add: causal_from_sections_def shrink_edges_def)
  ultimately show ?thesis
    unfolding edges_closed_def graph_id_set by (force simp: causal_edge_of_def)
qed

text \<open>C30. The causal graph: no two nodes share an identifier, and the edges connect nodes of the graph,
  unless it has a shrink section and the run left neither trace nor history; then, and only then, an edge ends in a
  node that does not exist.\<close>

theorem causal_graph_wf:
  "distinct (map cn_id (cg_nodes (causal_from_sections r checker shrink)))
   \<and> (edges_closed (causal_from_sections r checker shrink)
      \<longleftrightarrow> shrink = None \<or> rp_history r \<noteq> [] \<or> rp_trace r \<noteq> [])"
proof
  show "distinct (map cn_id (cg_nodes (causal_from_sections r checker shrink)))"
    unfolding graph_ids distinct_names_of by (rule graph_keys_distinct)
  have "edges_closed (causal_from_sections r checker shrink)"
    if "shrink = None \<or> rp_history r \<noteq> [] \<or> rp_trace r \<noteq> []"
    unfolding edges_closed_def graph_id_set
    using graph_edges_named [OF that, of checker] by (fastforce simp: named_def names_of_def)
  then show "edges_closed (causal_from_sections r checker shrink)
      \<longleftrightarrow> shrink = None \<or> rp_history r \<noteq> [] \<or> rp_trace r \<noteq> []"
    using edges_closed_shrink [of shrink r checker] by blast
qed

definition sample_report :: text_report where
  "sample_report = \<lparr>rp_seed = 7, rp_trace = [''[t=         0 #     0] deliver 0->1 x''],
     rp_nemesis_trace = [''HealAll''], rp_history = [''storage-corruption:1''], rp_coverage_signals = [],
     rp_tape_log = [], rp_tape_events = [], rp_tape_replaying = False, rp_tape_input_len = None,
     rp_tape_cursor = 0, rp_tape_consumed_all = True, rp_tape_exhausted = False, rp_dispatched = 1,
     rp_aborted = False, rp_deadlocked = False, rp_parked_tasks = 0, rp_tape_log_len = 0\<rparr>"

lemma causal_graph_wf_witness:
  "edges_closed (causal_from_sections sample_report None (Some ''null''))
    \<and> length (cg_edges (causal_from_sections sample_report None (Some ''null''))) = 6
    \<and> \<not> edges_closed (causal_from_sections (sample_report\<lparr>rp_trace := [], rp_history := []\<rparr>) None (Some ''null''))"
proof (intro conjI)
  show "edges_closed (causal_from_sections sample_report None (Some ''null''))"
    by (simp add: causal_graph_wf sample_report_def)
  show "length (cg_edges (causal_from_sections sample_report None (Some ''null''))) = 6"
    by code_simp
  show "\<not> edges_closed (causal_from_sections (sample_report\<lparr>rp_trace := [], rp_history := []\<rparr>) None (Some ''null''))"
    by (simp add: causal_graph_wf sample_report_def)
qed

end
