(* ===== verification/Testkit.thy ===== *)
theory Testkit
  imports Shrink Viz_Artifact Check_Linear Ordered_Map "HOL-Library.Product_Lexorder" "HOL-Library.Option_ord"
begin

section \<open>Experiments\<close>

text \<open>
  Models \<^verbatim>\<open>crates/detersim-testkit/src/lib.rs\<close>: failure signatures, the experiment
  runner that generates, replays and shrinks, suites and their summaries, the assertion helpers, and the JSON
  of all of these. A case's three functions (\<^verbatim>\<open>generate\<close>, \<^verbatim>\<open>replay\<close>,
  \<^verbatim>\<open>oracle\<close>) are fields of a record, as in the code. An assertion that panics is
  \<open>Inl\<close> of its message (for \<^verbatim>\<open>assert_eq!\<close>, the part the code writes). Rates are reals;
  how an \<^verbatim>\<open>f64\<close> is printed is the parameter \<open>show_f64\<close>.
\<close>

subsection \<open>Failure signatures\<close>

datatype failure_signature =
    InvariantViolated string
  | SigNotLinearizable "(u64 \<times> u64) option" string
  | SigDeadlock
  | SigPanic string
  | StorageCorruption string

text \<open>The derived order: by variant, then by field.\<close>

fun signature_key :: "failure_signature \<Rightarrow> nat \<times> (u64 \<times> u64) option \<times> string" where
  "signature_key (InvariantViolated name) = (0, None, name)"
| "signature_key (SigNotLinearizable conflict m) = (1, conflict, m)"
| "signature_key SigDeadlock = (2, None, [])"
| "signature_key (SigPanic label) = (3, None, label)"
| "signature_key (StorageCorruption label) = (4, None, label)"

lemma signature_key_inject [simp]: "signature_key a = signature_key b \<longleftrightarrow> a = b"
  by (cases a; cases b) auto

instantiation failure_signature :: linorder
begin

definition less_eq_failure_signature :: "failure_signature \<Rightarrow> failure_signature \<Rightarrow> bool" where
  "less_eq_failure_signature a b = (signature_key a \<le> signature_key b)"

definition less_failure_signature :: "failure_signature \<Rightarrow> failure_signature \<Rightarrow> bool" where
  "less_failure_signature a b = (signature_key a < signature_key b)"

instance
  by standard (auto simp: less_eq_failure_signature_def less_failure_signature_def less_le_not_le
      dest: order.antisym)

end

definition linearizability_signature :: "string \<Rightarrow> linearizability_result \<Rightarrow> failure_signature option" where
  "linearizability_signature name result =
     (case result of
        NotLinearizable reason conflict minimal explored exhausted \<Rightarrow> Some (SigNotLinearizable conflict name)
      | _ \<Rightarrow> None)"

subsection \<open>Cases and reports\<close>

record experiment_budget =
  eb_seed_count :: u64
  eb_shrink :: shrink_config

definition experiment_budget_default :: experiment_budget where
  "experiment_budget_default = \<lparr>eb_seed_count = 100, eb_shrink = shrink_config_default\<rparr>"

record experiment_case =
  ec_name :: string
  ec_budget :: experiment_budget
  ec_generate :: "u64 \<Rightarrow> text_report"
  ec_replay :: "u64 \<Rightarrow> u64 list \<Rightarrow> text_report"
  ec_oracle :: "text_report \<Rightarrow> failure_signature option"

record experiment_report =
  er_name :: string
  er_seeds_attempted :: u64
  er_first_failing_seed :: "u64 option"
  er_failures_observed :: nat
  er_recall_rate :: real
  er_recalled :: bool
  er_failure_signature :: "failure_signature option"
  er_original_tape_len :: "nat option"
  er_minimized_tape_len :: "nat option"
  er_shrink_ratio :: "real option"
  er_shrink_attempts :: "nat option"
  er_accepted_removals :: "nat option"
  er_removed_labels :: "removed_label list"
  er_artifact_json_bytes :: "nat option"
  er_artifact_html_bytes :: "nat option"
  er_replay_tape_input_len :: "nat option"
  er_replay_tape_cursor :: "nat option"
  er_replay_tape_consumed_all :: "bool option"
  er_replay_tape_exhausted :: "bool option"
  er_replay_trace_identical :: bool
  er_replay_history_identical :: bool
  er_replay_nemesis_identical :: bool
  er_replay_byte_identical :: bool
  er_replay_matched_signature :: bool
  er_minimized_matched_signature :: bool

datatype recall_policy = MustRecall | MustNotRecall | Informational
datatype oracle_kind = OracleInvariant | OracleLinearizability | OracleStorage | OracleDeadlock | OraclePanic
datatype artifact_policy = ArtifactAlways | ArtifactOnFailure | ArtifactNever

record experiment_case_manifest =
  em_name :: string
  em_recall_policy :: recall_policy
  em_oracle :: oracle_kind
  em_expected_signature :: "failure_signature option"
  em_seed_count :: u64
  em_artifact_policy :: artifact_policy

record experiment_suite_manifest =
  sm_name :: string
  sm_cases :: "experiment_case_manifest list"

record experiment_suite =
  su_name :: string
  su_cases :: "(experiment_case \<times> recall_policy) list"

record experiment_artifact =
  ea_case_name :: string
  ea_seed :: "u64 option"
  ea_json_bytes :: "nat option"
  ea_html_bytes :: "nat option"
  ea_signature :: "failure_signature option"

datatype recall_result = Recalled experiment_report | NotRecalled experiment_report

definition recall_report :: "recall_result \<Rightarrow> experiment_report" where
  "recall_report result = (case result of Recalled report \<Rightarrow> report | NotRecalled report \<Rightarrow> report)"

record experiment_matrix_report =
  mr_total_cases :: nat
  mr_recalled_cases :: nat
  mr_failed_cases :: nat
  mr_average_recall_rate :: real
  mr_average_shrink_ratio :: "real option"
  mr_min_original_tape_len :: "nat option"
  mr_max_original_tape_len :: "nat option"
  mr_min_minimized_tape_len :: "nat option"
  mr_max_minimized_tape_len :: "nat option"
  mr_signatures :: "(failure_signature \<times> nat) list"

record experiment_summary =
  es_name :: string
  es_total_cases :: nat
  es_required_recalled :: nat
  es_required_not_recalled :: nat
  es_policy_failures :: nat
  es_matrix :: experiment_matrix_report
  es_artifacts :: "experiment_artifact list"
  es_results :: "recall_result list"

subsection \<open>Running a case\<close>

text \<open>\<^verbatim>\<open>0..n\<close> over \<^verbatim>\<open>u64\<close>, and the length of a string in bytes of UTF-8.\<close>

definition seeds_below :: "u64 \<Rightarrow> u64 list" where
  "seeds_below n = map of_nat [0..<unat n]"

definition byte_len :: "string \<Rightarrow> nat" where
  "byte_len s = sum_list (map (\<lambda>c. if of_char c < (128 :: nat) then 1 else 2) s)"

fun scan_seeds ::
  "experiment_case \<Rightarrow> u64 list \<Rightarrow> (u64 \<times> text_report \<times> failure_signature) option \<Rightarrow> nat
     \<Rightarrow> (u64 \<times> text_report \<times> failure_signature) option \<times> nat" where
  "scan_seeds c [] first failures = (first, failures)"
| "scan_seeds c (seed # seeds) first failures =
     (let report = ec_generate c seed
      in case ec_oracle c report of
           None \<Rightarrow> scan_seeds c seeds first failures
         | Some signature \<Rightarrow>
             scan_seeds c seeds (if first = None then Some (seed, report, signature) else first) (failures + 1))"

definition recall_rate_of :: "nat \<Rightarrow> u64 \<Rightarrow> real" where
  "recall_rate_of failures seeds = (if seeds = 0 then 0 else real failures / real (unat seeds))"

definition blank_report :: "experiment_case \<Rightarrow> nat \<Rightarrow> experiment_report" where
  "blank_report c failures =
     \<lparr>er_name = ec_name c, er_seeds_attempted = eb_seed_count (ec_budget c), er_first_failing_seed = None,
      er_failures_observed = failures, er_recall_rate = recall_rate_of failures (eb_seed_count (ec_budget c)),
      er_recalled = False, er_failure_signature = None, er_original_tape_len = None,
      er_minimized_tape_len = None, er_shrink_ratio = None, er_shrink_attempts = None,
      er_accepted_removals = None, er_removed_labels = [], er_artifact_json_bytes = None,
      er_artifact_html_bytes = None, er_replay_tape_input_len = None, er_replay_tape_cursor = None,
      er_replay_tape_consumed_all = None, er_replay_tape_exhausted = None,
      er_replay_trace_identical = False, er_replay_history_identical = False,
      er_replay_nemesis_identical = False, er_replay_byte_identical = False,
      er_replay_matched_signature = False, er_minimized_matched_signature = False\<rparr>"

definition join_lines :: "string list \<Rightarrow> string" where
  "join_lines ls = join_with [CHR 0x0A] ls"

definition replay_report ::
  "experiment_case \<Rightarrow> nat \<Rightarrow> u64 \<Rightarrow> text_report \<Rightarrow> failure_signature \<Rightarrow> text_report \<Rightarrow> experiment_report" where
  "replay_report c failures seed generated signature replayed =
     (blank_report c failures)
       \<lparr>er_first_failing_seed := Some seed, er_failure_signature := Some signature,
        er_original_tape_len := Some (length (rp_tape_log generated)),
        er_replay_tape_input_len := rp_tape_input_len replayed,
        er_replay_tape_cursor := Some (rp_tape_cursor replayed),
        er_replay_tape_consumed_all := Some (rp_tape_consumed_all replayed),
        er_replay_tape_exhausted := Some (rp_tape_exhausted replayed),
        er_replay_trace_identical := (rp_trace generated = rp_trace replayed),
        er_replay_history_identical := (rp_history generated = rp_history replayed),
        er_replay_nemesis_identical := (rp_nemesis_trace generated = rp_nemesis_trace replayed),
        er_replay_byte_identical := (join_lines (rp_trace generated) = join_lines (rp_trace replayed)),
        er_replay_matched_signature := (ec_oracle c replayed = Some signature)\<rparr>"

definition tape_labels :: "text_report \<Rightarrow> string list" where
  "tape_labels r = map (\<lambda>event. label_as_str (te_label event)) (rp_tape_events r)"

definition shrink_case ::
  "experiment_case \<Rightarrow> u64 \<Rightarrow> text_report \<Rightarrow> failure_signature \<Rightarrow> label_aware_shrink_report" where
  "shrink_case c seed generated signature =
     shrink_tape_label_aware_with_config (rp_tape_log generated) (tape_labels generated)
       (\<lambda>candidate. ec_oracle c (ec_replay c seed candidate) = Some signature) (eb_shrink (ec_budget c))"

definition run_experiment_case :: "experiment_case \<Rightarrow> recall_result" where
  "run_experiment_case c =
     (case scan_seeds c (seeds_below (eb_seed_count (ec_budget c))) None 0 of
        (None, failures) \<Rightarrow> NotRecalled (blank_report c failures)
      | (Some (seed, generated, signature), failures) \<Rightarrow>
          let replayed = ec_replay c seed (rp_tape_log generated);
              report = replay_report c failures seed generated signature replayed
          in if \<not> er_replay_matched_signature report \<or> \<not> er_replay_trace_identical report
                \<or> \<not> er_replay_history_identical report \<or> \<not> er_replay_nemesis_identical report
                \<or> \<not> er_replay_byte_identical report
             then NotRecalled report
             else let shrink = shrink_case c seed generated signature;
                      minimized = ec_replay c seed (sr_minimized (la_shrink shrink));
                      matched = (ec_oracle c minimized = Some signature);
                      report = report
                        \<lparr>er_minimized_tape_len := Some (length (sr_minimized (la_shrink shrink))),
                         er_shrink_ratio := Some (if rp_tape_log generated = [] then 1
                           else real (length (sr_minimized (la_shrink shrink))) / real (length (rp_tape_log generated))),
                         er_shrink_attempts := Some (sr_attempts (la_shrink shrink)),
                         er_accepted_removals := Some (sr_accepted_removals (la_shrink shrink)),
                         er_removed_labels := la_removed_labels shrink,
                         er_artifact_json_bytes := Some (byte_len (run_report_to_json minimized)),
                         er_artifact_html_bytes := Some (byte_len (timeline_html minimized)),
                         er_minimized_matched_signature := matched,
                         er_recalled := matched\<rparr>
                  in if matched then Recalled report else NotRecalled report)"

definition run_experiment_matrix :: "experiment_case list \<Rightarrow> recall_result list" where
  "run_experiment_matrix cases = map run_experiment_case cases"

subsection \<open>Suites\<close>

definition is_recalled :: "recall_result \<Rightarrow> bool" where
  "is_recalled result = (case result of Recalled _ \<Rightarrow> True | NotRecalled _ \<Rightarrow> False)"

definition min_opt :: "nat list \<Rightarrow> nat option" where
  "min_opt xs = (if xs = [] then None else Some (Min (set xs)))"

definition max_opt :: "nat list \<Rightarrow> nat option" where
  "max_opt xs = (if xs = [] then None else Some (Max (set xs)))"

definition count_signature ::
  "recall_result \<Rightarrow> (failure_signature, nat) btree_map \<Rightarrow> (failure_signature, nat) btree_map" where
  "count_signature result signatures =
     (case er_failure_signature (recall_report result) of
        None \<Rightarrow> signatures
      | Some signature \<Rightarrow> btm_insert signature (btm_get_or 0 signatures signature + 1) signatures)"

definition summarize_experiment_matrix :: "recall_result list \<Rightarrow> experiment_matrix_report" where
  "summarize_experiment_matrix results =
     (let total = length results;
          recalled = length (filter is_recalled results);
          ratios = List.map_filter (\<lambda>result. er_shrink_ratio (recall_report result)) results;
          original = List.map_filter (\<lambda>result. er_original_tape_len (recall_report result)) results;
          minimized = List.map_filter (\<lambda>result. er_minimized_tape_len (recall_report result)) results
      in \<lparr>mr_total_cases = total, mr_recalled_cases = recalled, mr_failed_cases = total - recalled,
          mr_average_recall_rate = (if total = 0 then 0
            else sum_list (map (\<lambda>result. er_recall_rate (recall_report result)) results) / real total),
          mr_average_shrink_ratio = (if ratios = [] then None else Some (sum_list ratios / real (length ratios))),
          mr_min_original_tape_len = min_opt original, mr_max_original_tape_len = max_opt original,
          mr_min_minimized_tape_len = min_opt minimized, mr_max_minimized_tape_len = max_opt minimized,
          mr_signatures = fold count_signature results []\<rparr>)"

fun tally_policy :: "recall_result \<times> recall_policy \<Rightarrow> nat \<times> nat \<times> nat \<Rightarrow> nat \<times> nat \<times> nat" where
  "tally_policy (result, MustRecall) (required, forbidden, failures) =
     (required + 1, forbidden, if is_recalled result then failures else failures + 1)"
| "tally_policy (result, MustNotRecall) (required, forbidden, failures) =
     (required, forbidden + 1, if er_failures_observed (recall_report result) \<noteq> 0 then failures + 1 else failures)"
| "tally_policy (result, Informational) (required, forbidden, failures) = (required, forbidden, failures)"

definition experiment_artifact_of :: "recall_result \<Rightarrow> experiment_artifact" where
  "experiment_artifact_of result =
     (let report = recall_report result
      in \<lparr>ea_case_name = er_name report, ea_seed = er_first_failing_seed report,
          ea_json_bytes = er_artifact_json_bytes report, ea_html_bytes = er_artifact_html_bytes report,
          ea_signature = er_failure_signature report\<rparr>)"

definition run_experiment_suite :: "experiment_suite \<Rightarrow> experiment_summary" where
  "run_experiment_suite suite =
     (let results = map (\<lambda>(c, policy). run_experiment_case c) (su_cases suite);
          policies = map snd (su_cases suite);
          (required, forbidden, failures) = fold tally_policy (zip results policies) (0, 0, 0)
      in \<lparr>es_name = su_name suite, es_total_cases = length results, es_required_recalled = required,
          es_required_not_recalled = forbidden, es_policy_failures = failures,
          es_matrix = summarize_experiment_matrix results,
          es_artifacts = map experiment_artifact_of results, es_results = results\<rparr>)"

subsection \<open>Assertions\<close>

definition seed_count :: "string option \<Rightarrow> u64 \<Rightarrow> u64" where
  "seed_count env_value default_count =
     (case env_value of
        None \<Rightarrow> default_count
      | Some s \<Rightarrow> (case parse_unsigned u64_max s of None \<Rightarrow> default_count | Some n \<Rightarrow> of_nat n))"

definition diverged :: "string \<Rightarrow> string \<Rightarrow> u64 \<Rightarrow> string" where
  "diverged label what seed = label @ '' '' @ what @ '' diverged for seed '' @ show_u64 seed"

definition assert_reports_equal :: "u64 \<Rightarrow> string \<Rightarrow> text_report \<Rightarrow> text_report \<Rightarrow> string + unit" where
  "assert_reports_equal seed label a b =
     (let reproduce = '' (reproduce with DST_SEED='' @ show_u64 seed @ '')''
      in if rp_trace a \<noteq> rp_trace b then Inl (diverged label ''trace'' seed @ reproduce)
         else if join_lines (rp_trace a) \<noteq> join_lines (rp_trace b)
         then Inl (diverged label ''byte trace'' seed @ reproduce)
         else if rp_history a \<noteq> rp_history b then Inl (diverged label ''history'' seed)
         else if rp_nemesis_trace a \<noteq> rp_nemesis_trace b then Inl (diverged label ''nemesis trace'' seed)
         else if rp_coverage_signals a \<noteq> rp_coverage_signals b then Inl (diverged label ''coverage signals'' seed)
         else if rp_tape_events a \<noteq> rp_tape_events b then Inl (diverged label ''tape events'' seed)
         else Inr ())"

definition assert_deterministic :: "u64 \<Rightarrow> (u64 \<Rightarrow> text_report) \<Rightarrow> string + text_report" where
  "assert_deterministic seed run =
     (let a = run seed; b = run seed
      in case assert_reports_equal seed ''same-seed'' a b of Inl e \<Rightarrow> Inl e | Inr _ \<Rightarrow> Inr a)"

text \<open>The callback of \<^verbatim>\<open>run_seed_range\<close> (\<^verbatim>\<open>FnMut\<close>) updates a state of its own.\<close>

definition run_seed_range :: "u64 \<Rightarrow> (u64 \<Rightarrow> text_report) \<Rightarrow> (u64 \<Rightarrow> text_report \<Rightarrow> 's \<Rightarrow> 's) \<Rightarrow> 's \<Rightarrow> 's" where
  "run_seed_range n run check s = fold (\<lambda>seed s. check seed (run seed) s) (seeds_below n) s"

definition assert_replay_identical ::
  "u64 \<Rightarrow> (u64 \<Rightarrow> text_report) \<Rightarrow> (u64 \<Rightarrow> u64 list \<Rightarrow> text_report) \<Rightarrow> string + (text_report \<times> text_report)" where
  "assert_replay_identical seed generate replay =
     (let generated = generate seed;
          replayed = replay seed (rp_tape_log generated)
      in if \<not> rp_tape_replaying replayed
         then Inl (''replay run did not report replay mode for seed '' @ show_u64 seed)
         else if rp_tape_input_len replayed \<noteq> Some (length (rp_tape_log generated))
         then Inl (''replay input length mismatch for seed '' @ show_u64 seed)
         else if \<not> rp_tape_consumed_all replayed
         then Inl (''replay did not consume the full tape for seed '' @ show_u64 seed)
         else if rp_tape_exhausted replayed
         then Inl (''replay exhausted its input tape for seed '' @ show_u64 seed)
         else case assert_reports_equal seed ''generate-vs-replay'' generated replayed of
                Inl e \<Rightarrow> Inl e | Inr _ \<Rightarrow> Inr (generated, replayed))"

record failure_debug_artifact =
  fd_seed :: u64
  fd_generated :: text_report
  fd_minimized_replay :: text_report
  fd_shrink :: shrink_report
  fd_removed_labels :: "removed_label list"
  fd_minimized_json :: string
  fd_minimized_html :: string

definition shrink_replay_failure ::
  "u64 \<Rightarrow> (u64 \<Rightarrow> text_report) \<Rightarrow> (u64 \<Rightarrow> u64 list \<Rightarrow> text_report) \<Rightarrow> (text_report \<Rightarrow> bool) \<Rightarrow> shrink_config
     \<Rightarrow> string + failure_debug_artifact" where
  "shrink_replay_failure seed generate replay still_fails config =
     (let generated = generate seed
      in if \<not> still_fails generated
         then Inl (''cannot shrink seed '' @ show_u64 seed @ '': generated run does not fail'')
         else if \<not> still_fails (replay seed (rp_tape_log generated))
         then Inl (''cannot shrink seed '' @ show_u64 seed
                @ '': original tape replay does not reproduce the failure'')
         else let shrink = shrink_tape_label_aware_with_config (rp_tape_log generated) (tape_labels generated)
                    (\<lambda>candidate. still_fails (replay seed candidate)) config
              in if \<not> sr_reproduced (la_shrink shrink)
                 then Inl (''shrink reported non-reproducing original tape at seed '' @ show_u64 seed)
                 else let minimized_replay = replay seed (sr_minimized (la_shrink shrink))
                      in if \<not> still_fails minimized_replay
                         then Inl (''minimized tape did not reproduce the failure at seed '' @ show_u64 seed)
                         else Inr \<lparr>fd_seed = seed, fd_generated = generated,
                                fd_minimized_replay = minimized_replay, fd_shrink = la_shrink shrink,
                                fd_removed_labels = la_removed_labels shrink,
                                fd_minimized_json = run_report_to_json minimized_replay,
                                fd_minimized_html = timeline_html minimized_replay\<rparr>)"

text \<open>\<^verbatim>\<open>assert_recall\<close>; the message goes on with the debug form of the report.\<close>

definition assert_recall :: "experiment_case \<Rightarrow> string + experiment_report" where
  \<open>assert_recall c =
     (case run_experiment_case c of
        Recalled report \<Rightarrow> Inr report
      | NotRecalled report \<Rightarrow>
          Inl (''experiment '' @ [CHR 0x27] @ ec_name c @ [CHR 0x27]
            @ '' did not recall its expected failure: ''))\<close>

record plant_bug_case =
  pb_name :: string
  pb_seeds :: u64
  pb_run :: "u64 \<Rightarrow> text_report"
  pb_check :: "text_report \<Rightarrow> bool"

definition assert_reproduced :: "plant_bug_case \<Rightarrow> string + unit" where
  \<open>assert_reproduced p =
     (case List.find (\<lambda>seed. \<not> pb_check p (pb_run p seed)) (seeds_below (pb_seeds p)) of
        None \<Rightarrow> Inr ()
      | Some seed \<Rightarrow> Inl (''plant-a-bug case '' @ [CHR 0x27] @ pb_name p @ [CHR 0x27]
          @ '' was not reproduced at seed '' @ show_u64 seed))\<close>

subsection \<open>JSON\<close>

definition option_u64 :: "u64 option \<Rightarrow> string" where
  "option_u64 value = (case value of None \<Rightarrow> ''null'' | Some n \<Rightarrow> show_u64 n)"

definition option_bool :: "bool option \<Rightarrow> string" where
  "option_bool value = (case value of None \<Rightarrow> ''null'' | Some b \<Rightarrow> show_bool b)"

definition option_f64 :: "(real \<Rightarrow> string) \<Rightarrow> real option \<Rightarrow> string" where
  "option_f64 show_f64 value = (case value of None \<Rightarrow> ''null'' | Some x \<Rightarrow> show_f64 x)"

fun signature_json :: "failure_signature \<Rightarrow> string" where
  \<open>signature_json (InvariantViolated name) =
     ''{"type":"InvariantViolated","name":"''
     @ escape_json name
     @ ''"}''\<close>
| \<open>signature_json (SigNotLinearizable conflict m) =
     ''{"type":"NotLinearizable","model":"''
     @ escape_json m
     @ ''","conflict":''
     @ (case conflict of None \<Rightarrow> ''null''
          | Some (left, right) \<Rightarrow> ''['' @ show_u64 left @ '','' @ show_u64 right @ '']'')
     @ ''}''\<close>
| \<open>signature_json SigDeadlock = ''{"type":"Deadlock"}''\<close>
| \<open>signature_json (SigPanic label) =
     ''{"type":"Panic","label":"''
     @ escape_json label
     @ ''"}''\<close>
| \<open>signature_json (StorageCorruption label) =
     ''{"type":"StorageCorruption","label":"''
     @ escape_json label
     @ ''"}''\<close>

definition option_signature_json :: "failure_signature option \<Rightarrow> string" where
  "option_signature_json value = (case value of None \<Rightarrow> ''null'' | Some s \<Rightarrow> signature_json s)"

definition removed_labels_json :: "removed_label list \<Rightarrow> string" where
  \<open>removed_labels_json labels =
     ''['' @ join_with '','' (map (\<lambda>l. ''{"label":"'' @ escape_json (rl_label l) @ ''","count":'' @ show_nat (rl_count l) @ ''}'') labels) @ '']''\<close>

fun recall_policy_label :: "recall_policy \<Rightarrow> string" where
  "recall_policy_label MustRecall = ''must_recall''"
| "recall_policy_label MustNotRecall = ''must_not_recall''"
| "recall_policy_label Informational = ''informational''"

fun oracle_kind_label :: "oracle_kind \<Rightarrow> string" where
  "oracle_kind_label OracleInvariant = ''invariant''"
| "oracle_kind_label OracleLinearizability = ''linearizability''"
| "oracle_kind_label OracleStorage = ''storage''"
| "oracle_kind_label OracleDeadlock = ''deadlock''"
| "oracle_kind_label OraclePanic = ''panic''"

fun artifact_policy_label :: "artifact_policy \<Rightarrow> string" where
  "artifact_policy_label ArtifactAlways = ''always''"
| "artifact_policy_label ArtifactOnFailure = ''on_failure''"
| "artifact_policy_label ArtifactNever = ''never''"

definition experiment_report_to_json :: "(real \<Rightarrow> string) \<Rightarrow> experiment_report \<Rightarrow> string" where
  \<open>experiment_report_to_json show_f64 r =
     ''{"name":"''
     @ escape_json (er_name r)
     @ ''","seeds_attempted":''
     @ show_u64 (er_seeds_attempted r)
     @ '',"first_failing_seed":''
     @ option_u64 (er_first_failing_seed r)
     @ '',"failures_observed":''
     @ show_nat (er_failures_observed r)
     @ '',"recall_rate":''
     @ show_f64 (er_recall_rate r)
     @ '',"recalled":''
     @ show_bool (er_recalled r)
     @ '',"failure_signature":''
     @ option_signature_json (er_failure_signature r)
     @ '',"original_tape_len":''
     @ option_usize (er_original_tape_len r)
     @ '',"minimized_tape_len":''
     @ option_usize (er_minimized_tape_len r)
     @ '',"shrink_ratio":''
     @ option_f64 show_f64 (er_shrink_ratio r)
     @ '',"shrink_attempts":''
     @ option_usize (er_shrink_attempts r)
     @ '',"accepted_removals":''
     @ option_usize (er_accepted_removals r)
     @ '',"removed_labels":''
     @ removed_labels_json (er_removed_labels r)
     @ '',"artifact_json_bytes":''
     @ option_usize (er_artifact_json_bytes r)
     @ '',"artifact_html_bytes":''
     @ option_usize (er_artifact_html_bytes r)
     @ '',"replay_tape_input_len":''
     @ option_usize (er_replay_tape_input_len r)
     @ '',"replay_tape_cursor":''
     @ option_usize (er_replay_tape_cursor r)
     @ '',"replay_tape_consumed_all":''
     @ option_bool (er_replay_tape_consumed_all r)
     @ '',"replay_tape_exhausted":''
     @ option_bool (er_replay_tape_exhausted r)
     @ '',"replay_trace_identical":''
     @ show_bool (er_replay_trace_identical r)
     @ '',"replay_history_identical":''
     @ show_bool (er_replay_history_identical r)
     @ '',"replay_nemesis_identical":''
     @ show_bool (er_replay_nemesis_identical r)
     @ '',"replay_byte_identical":''
     @ show_bool (er_replay_byte_identical r)
     @ '',"replay_matched_signature":''
     @ show_bool (er_replay_matched_signature r)
     @ '',"minimized_matched_signature":''
     @ show_bool (er_minimized_matched_signature r)
     @ ''}''\<close>

definition signature_count_json :: "failure_signature \<times> nat \<Rightarrow> string" where
  \<open>signature_count_json = (\<lambda>(signature, observed).
     ''{"signature":''
     @ signature_json signature
     @ '',"count":''
     @ show_nat observed
     @ ''}'')\<close>

definition experiment_matrix_report_to_json :: "(real \<Rightarrow> string) \<Rightarrow> experiment_matrix_report \<Rightarrow> string" where
  \<open>experiment_matrix_report_to_json show_f64 r =
     ''{"total_cases":''
     @ show_nat (mr_total_cases r)
     @ '',"recalled_cases":''
     @ show_nat (mr_recalled_cases r)
     @ '',"failed_cases":''
     @ show_nat (mr_failed_cases r)
     @ '',"average_recall_rate":''
     @ show_f64 (mr_average_recall_rate r)
     @ '',"average_shrink_ratio":''
     @ option_f64 show_f64 (mr_average_shrink_ratio r)
     @ '',"min_original_tape_len":''
     @ option_usize (mr_min_original_tape_len r)
     @ '',"max_original_tape_len":''
     @ option_usize (mr_max_original_tape_len r)
     @ '',"min_minimized_tape_len":''
     @ option_usize (mr_min_minimized_tape_len r)
     @ '',"max_minimized_tape_len":''
     @ option_usize (mr_max_minimized_tape_len r)
     @ '',"signatures":[''
     @ join_with '','' (map signature_count_json (mr_signatures r))
     @ '']}''\<close>

definition experiment_artifact_json :: "experiment_artifact \<Rightarrow> string" where
  \<open>experiment_artifact_json a =
     ''{"case_name":"''
     @ escape_json (ea_case_name a)
     @ ''","seed":''
     @ option_u64 (ea_seed a)
     @ '',"json_bytes":''
     @ option_usize (ea_json_bytes a)
     @ '',"html_bytes":''
     @ option_usize (ea_html_bytes a)
     @ '',"signature":''
     @ option_signature_json (ea_signature a)
     @ ''}''\<close>

definition experiment_summary_to_json :: "(real \<Rightarrow> string) \<Rightarrow> experiment_summary \<Rightarrow> string" where
  \<open>experiment_summary_to_json show_f64 s =
     ''{"schema_version":2,"name":"''
     @ escape_json (es_name s)
     @ ''","total_cases":''
     @ show_nat (es_total_cases s)
     @ '',"required_recalled":''
     @ show_nat (es_required_recalled s)
     @ '',"required_not_recalled":''
     @ show_nat (es_required_not_recalled s)
     @ '',"policy_failures":''
     @ show_nat (es_policy_failures s)
     @ '',"matrix":''
     @ experiment_matrix_report_to_json show_f64 (es_matrix s)
     @ '',"artifacts":[''
     @ join_with '','' (map experiment_artifact_json (es_artifacts s))
     @ ''],"results":[''
     @ join_with '','' (map (\<lambda>result. experiment_report_to_json show_f64 (recall_report result)) (es_results s))
     @ '']}''\<close>

definition case_manifest_json :: "experiment_case_manifest \<Rightarrow> string" where
  \<open>case_manifest_json c =
     ''{"name":"''
     @ escape_json (em_name c)
     @ ''","recall_policy":"''
     @ recall_policy_label (em_recall_policy c)
     @ ''","oracle":"''
     @ oracle_kind_label (em_oracle c)
     @ ''","expected_signature":''
     @ option_signature_json (em_expected_signature c)
     @ '',"seed_count":''
     @ show_u64 (em_seed_count c)
     @ '',"artifact_policy":"''
     @ artifact_policy_label (em_artifact_policy c)
     @ ''"}''\<close>

definition experiment_suite_manifest_to_json :: "experiment_suite_manifest \<Rightarrow> string" where
  \<open>experiment_suite_manifest_to_json m =
     ''{"schema_version":3,"suite":"''
     @ escape_json (sm_name m)
     @ ''","case_count":''
     @ show_nat (length (sm_cases m))
     @ '',"cases":[''
     @ join_with '','' (map case_manifest_json (sm_cases m))
     @ '']}''\<close>

subsection \<open>Recall\<close>

lemma set_seeds_below: "set (seeds_below n) = {..<n}"
proof -
  have "unat (of_nat k :: u64) = k" if "k < unat n" for k
    using that unat_u64_le_max [of n] by (intro unat_of_nat_u64) simp
  note small = this
  have "seed \<in> set (seeds_below n) \<longleftrightarrow> seed < n" for seed
  proof
    assume "seed \<in> set (seeds_below n)"
    then obtain k where "k < unat n" "seed = of_nat k" by (auto simp: seeds_below_def)
    then show "seed < n" using small [of k] by (simp add: word_less_nat_alt)
  next
    assume "seed < n"
    then have "unat seed \<in> set [0..<unat n]" "seed = of_nat (unat seed)" by (simp_all add: word_less_nat_alt)
    then show "seed \<in> set (seeds_below n)" unfolding seeds_below_def set_map by blast
  qed
  then show ?thesis by blast
qed

definition failing :: "experiment_case \<Rightarrow> u64 \<Rightarrow> bool" where
  "failing c seed \<longleftrightarrow> ec_oracle c (ec_generate c seed) \<noteq> None"

lemma scan_seeds_result:
  "scan_seeds c seeds first failures =
     ((case first of
         Some found \<Rightarrow> Some found
       | None \<Rightarrow> map_option (\<lambda>seed. (seed, ec_generate c seed, the (ec_oracle c (ec_generate c seed))))
                  (List.find (failing c) seeds)),
      failures + length (filter (failing c) seeds))"
proof (induction seeds arbitrary: first failures)
  case (Cons seed seeds)
  show ?case
  proof (cases "ec_oracle c (ec_generate c seed)")
    case None
    then have "\<not> failing c seed" by (simp add: failing_def)
    with None Cons show ?thesis by (simp split: option.split)
  next
    case (Some signature)
    then have "failing c seed" by (simp add: failing_def)
    with Some Cons show ?thesis by (simp add: Let_def split: option.split)
  qed
qed (simp split: option.split)

text \<open>What the runner demands of the replay before it shrinks.\<close>

definition replay_faithful :: "experiment_case \<Rightarrow> u64 \<Rightarrow> bool" where
  "replay_faithful c seed \<longleftrightarrow>
     (let generated = ec_generate c seed; replayed = ec_replay c seed (rp_tape_log generated)
      in ec_oracle c replayed = ec_oracle c generated \<and> rp_trace replayed = rp_trace generated
         \<and> rp_history replayed = rp_history generated \<and> rp_nemesis_trace replayed = rp_nemesis_trace generated)"

lemma shrink_case_matches:
  "ec_oracle c (ec_replay c seed (rp_tape_log generated)) = Some signature \<Longrightarrow>
     ec_oracle c (ec_replay c seed (sr_minimized (la_shrink (shrink_case c seed generated signature)))) = Some signature"
  unfolding shrink_case_def
  using faithful_reproduces [OF shrink_label_aware_faithful
      [of "rp_tape_log generated" "\<lambda>candidate. ec_oracle c (ec_replay c seed candidate) = Some signature"
        "eb_shrink (ec_budget c)" "tape_labels generated"]]
  by blast

definition first_failing :: "experiment_case \<Rightarrow> u64 \<Rightarrow> bool" where
  "first_failing c seed \<longleftrightarrow> seed < eb_seed_count (ec_budget c) \<and> failing c seed \<and> (\<forall>s < seed. \<not> failing c s)"

lemma sorted_seeds_below: "sorted_wrt (<) (seeds_below n)"
proof -
  have "(of_nat i :: u64) < of_nat j" if "i < j" "j < unat n" for i j
    using that unat_u64_le_max [of n] by (simp add: word_less_nat_alt unat_of_nat_u64)
  then have "sorted_wrt (\<lambda>i j. (of_nat i :: u64) < of_nat j) [0..<unat n]"
    by (intro sorted_wrt_mono_rel [OF _ sorted_wrt_upt]) auto
  then show ?thesis by (simp add: seeds_below_def sorted_wrt_map)
qed

lemma find_sorted:
  "sorted_wrt (<) xs \<Longrightarrow> List.find P xs = Some (x :: 'a :: linorder) \<longleftrightarrow> x \<in> set xs \<and> P x \<and> (\<forall>y \<in> set xs. P y \<longrightarrow> x \<le> y)"
proof (induction xs)
  case (Cons a xs)
  then show ?case by (auto simp: less_imp_le)
qed simp

lemma find_first_failing:
  "List.find (failing c) (seeds_below (eb_seed_count (ec_budget c))) = Some seed \<longleftrightarrow> first_failing c seed"
  unfolding find_sorted [OF sorted_seeds_below] set_seeds_below first_failing_def
  by (auto simp: not_less)

lemma join_lines_eq: "a = b \<Longrightarrow> join_lines a = join_lines b"
  by simp

lemma run_case_report:
  "er_failures_observed (recall_report (run_experiment_case c))
     = card {seed. seed < eb_seed_count (ec_budget c) \<and> failing c seed}
   \<and> (er_first_failing_seed (recall_report (run_experiment_case c)) = Some seed) = first_failing c seed
   \<and> is_recalled (run_experiment_case c) = (\<exists>seed. first_failing c seed \<and> replay_faithful c seed)
   \<and> er_minimized_matched_signature (recall_report (run_experiment_case c)) = is_recalled (run_experiment_case c)"
proof -
  let ?n = "eb_seed_count (ec_budget c)"
  have card: "length (filter (failing c) (seeds_below ?n)) = card {seed. seed < ?n \<and> failing c seed}"
  proof -
    have "distinct (filter (failing c) (seeds_below ?n))"
      using sorted_seeds_below by (simp add: strict_sorted_iff)
    then show ?thesis
      using distinct_card [of "filter (failing c) (seeds_below ?n)"] by (simp add: set_seeds_below)
  qed
  note scan = scan_seeds_result [of c "seeds_below ?n" None 0]
  show ?thesis
  proof (cases "List.find (failing c) (seeds_below ?n)")
    case None
    then have "\<not> first_failing c s" for s using find_first_failing [of c s] by simp
    then show ?thesis
      using None card
      by (simp add: run_experiment_case_def scan recall_report_def blank_report_def is_recalled_def)
  next
    case (Some first)
    have first: "first_failing c s \<longleftrightarrow> first = s" for s using find_first_failing [of c s] Some by auto
    then obtain signature where sig: "ec_oracle c (ec_generate c first) = Some signature"
      using find_first_failing [of c first] Some by (auto simp: first_failing_def failing_def)
    let ?g = "ec_generate c first"
    let ?r = "ec_replay c first (rp_tape_log ?g)"
    have faithful: "replay_faithful c first \<longleftrightarrow> ec_oracle c ?r = Some signature \<and> rp_trace ?g = rp_trace ?r
        \<and> rp_history ?g = rp_history ?r \<and> rp_nemesis_trace ?g = rp_nemesis_trace ?r"
      by (auto simp: replay_faithful_def Let_def sig)
    show ?thesis
    proof (cases "replay_faithful c first")
      case True
      then have "ec_oracle c (ec_replay c first (sr_minimized (la_shrink (shrink_case c first ?g signature)))) = Some signature"
        by (intro shrink_case_matches) (simp add: faithful)
      then show ?thesis
        using Some card sig first True faithful
        by (simp add: run_experiment_case_def scan recall_report_def replay_report_def blank_report_def
            is_recalled_def Let_def)
    next
      case False
      then show ?thesis
        using Some card sig first faithful
        by (auto simp: run_experiment_case_def scan recall_report_def replay_report_def blank_report_def
            is_recalled_def Let_def)
    qed
  qed
qed

text \<open>C12. The runner reports the truth about a case: how many seeds fail, which is the first, and it recalls
  the failure exactly if there is a first failing seed whose replay shows the same failure, trace, history and
  nemesis trace; the minimized tape then always shows the failure too.\<close>

theorem run_experiment_case_truth:
  "er_failures_observed (recall_report (run_experiment_case c))
     = card {seed. seed < eb_seed_count (ec_budget c) \<and> failing c seed}
   \<and> (er_first_failing_seed (recall_report (run_experiment_case c)) = Some seed) = first_failing c seed
   \<and> is_recalled (run_experiment_case c) = (\<exists>seed. first_failing c seed \<and> replay_faithful c seed)
   \<and> er_minimized_matched_signature (recall_report (run_experiment_case c)) = is_recalled (run_experiment_case c)"
  by (rule run_case_report)

text \<open>C21. \<open>shrink_replay_failure\<close> panics exactly if the generated run or the replay of its tape does not
  fail; none of its later assertions can fail, and the artifact's minimized run fails.\<close>

theorem shrink_replay_failure_returns:
  "case shrink_replay_failure seed generate replay still_fails config of
     Inr artifact \<Rightarrow> still_fails (generate seed) \<and> still_fails (fd_minimized_replay artifact)
       \<and> fd_minimized_replay artifact = replay seed (sr_minimized (fd_shrink artifact))
   | Inl message \<Rightarrow> \<not> (still_fails (generate seed) \<and> still_fails (replay seed (rp_tape_log (generate seed))))"
proof -
  let ?fails = "\<lambda>candidate. still_fails (replay seed candidate)"
  let ?tape = "rp_tape_log (generate seed)"
  let ?shrink = "la_shrink (shrink_tape_label_aware_with_config ?tape (tape_labels (generate seed)) ?fails config)"
  have f: "faithful_report ?tape ?fails (sc_max_attempts config) ?shrink"
    by (rule shrink_label_aware_faithful)
  show ?thesis
  proof (cases "still_fails (replay seed ?tape)")
    case True
    then have "sr_reproduced ?shrink" using faithful_flag [OF f] by simp
    moreover have "still_fails (replay seed (sr_minimized ?shrink))"
      using faithful_reproduces [OF f] True by blast
    ultimately show ?thesis by (simp add: shrink_replay_failure_def Let_def)
  qed (simp add: shrink_replay_failure_def Let_def)
qed

subsection \<open>Suites and matrices\<close>

definition policy_violated :: "experiment_case \<Rightarrow> recall_policy \<Rightarrow> bool" where
  "policy_violated c policy =
     (case policy of
        MustRecall \<Rightarrow> \<not> (\<exists>seed. first_failing c seed \<and> replay_faithful c seed)
      | MustNotRecall \<Rightarrow> \<exists>seed. seed < eb_seed_count (ec_budget c) \<and> failing c seed
      | Informational \<Rightarrow> False)"

lemma failures_observed_zero:
  "er_failures_observed (recall_report (run_experiment_case c)) = 0
     \<longleftrightarrow> \<not> (\<exists>seed. seed < eb_seed_count (ec_budget c) \<and> failing c seed)"
proof -
  have "finite {seed. seed < eb_seed_count (ec_budget c) \<and> failing c seed}" by simp
  then show ?thesis using run_case_report [of c] by auto
qed

lemma tally_policy_of_case:
  "tally_policy (run_experiment_case c, policy) (r, f, n) =
     (r + (if policy = MustRecall then 1 else 0), f + (if policy = MustNotRecall then 1 else 0),
      n + (if policy_violated c policy then 1 else 0))"
  using run_case_report [of c] failures_observed_zero [of c]
  by (cases policy) (auto simp: policy_violated_def)

lemma fold_tally:
  "fold tally_policy (zip (map (\<lambda>(c, policy). run_experiment_case c) cs) (map snd cs)) (r, f, n) =
     (r + length (filter (\<lambda>(c, policy). policy = MustRecall) cs),
      f + length (filter (\<lambda>(c, policy). policy = MustNotRecall) cs),
      n + length (filter (\<lambda>(c, policy). policy_violated c policy) cs))"
  by (induction cs arbitrary: r f n) (auto simp: tally_policy_of_case simp del: tally_policy.simps)

lemma count_signature_get:
  "btm_get_or 0 (fold count_signature results m) s =
     btm_get_or 0 m s + length (filter (\<lambda>r. er_failure_signature (recall_report r) = Some s) results)"
  by (induction results arbitrary: m) (auto simp: count_signature_def btm_get_or_def split: option.split)

lemma count_signature_wf: "btm_wf m \<Longrightarrow> btm_wf (fold count_signature results m)"
  by (induction results arbitrary: m) (simp_all add: count_signature_def split: option.split)

text \<open>A suite's summary counts, as policy failures, exactly the cases that had to be recalled and
  have no first failing seed that replays faithfully, and those that had to stay quiet and have a failing
  seed; its matrix splits the cases into recalled and failed ones and lists, in order, each signature with
  the number of cases that showed it.\<close>

lemma suite_summary_truth:
  "es_policy_failures (run_experiment_suite suite)
     = length (filter (\<lambda>(c, policy). policy_violated c policy) (su_cases suite))
   \<and> es_required_recalled (run_experiment_suite suite)
     = length (filter (\<lambda>(c, policy). policy = MustRecall) (su_cases suite))
   \<and> mr_recalled_cases (es_matrix (run_experiment_suite suite)) + mr_failed_cases (es_matrix (run_experiment_suite suite))
     = length (su_cases suite)
   \<and> sorted_wrt (<) (map fst (mr_signatures (es_matrix (run_experiment_suite suite))))
   \<and> btm_get_or 0 (mr_signatures (es_matrix (run_experiment_suite suite))) signature
     = length (filter (\<lambda>r. er_failure_signature (recall_report r) = Some signature) (es_results (run_experiment_suite suite)))"
proof -
  let ?results = "map (\<lambda>(c, policy). run_experiment_case c) (su_cases suite)"
  have suite: "run_experiment_suite suite = \<lparr>es_name = su_name suite, es_total_cases = length ?results,
      es_required_recalled = length (filter (\<lambda>(c, policy). policy = MustRecall) (su_cases suite)),
      es_required_not_recalled = length (filter (\<lambda>(c, policy). policy = MustNotRecall) (su_cases suite)),
      es_policy_failures = length (filter (\<lambda>(c, policy). policy_violated c policy) (su_cases suite)),
      es_matrix = summarize_experiment_matrix ?results,
      es_artifacts = map experiment_artifact_of ?results, es_results = ?results\<rparr>"
    by (simp add: run_experiment_suite_def Let_def fold_tally)
  have "length (filter is_recalled ?results) \<le> length (su_cases suite)"
    using length_filter_le [of is_recalled ?results] by simp
  moreover have "btm_wf (fold count_signature ?results [])"
    by (rule count_signature_wf) simp
  ultimately show ?thesis
    unfolding suite
    by (simp add: summarize_experiment_matrix_def Let_def count_signature_get btm_wf_def btm_get_or_def [of 0 "[]"])
qed

end
