(* ===== verification/Seed_Search.thy ===== *)
theory Seed_Search
  imports Testkit
begin

section \<open>Seed search\<close>

text \<open>
  Models \<^verbatim>\<open>crates/detersim-search/src/lib.rs\<close>: the seed orders of the strategies, the search
  over one case with its corpus of retained candidates, the comparison of strategies over a case and a suite,
  the coverage of a run, and the JSON of the reports. Scores, ranks and counts are \<open>nat\<close>; a
  \<^verbatim>\<open>CoverageSignal\<close> is its name. Serialisation of signatures is that of \<open>Testkit\<close>, which the
  crate repeats.
\<close>

subsection \<open>Data\<close>

datatype search_strategy = RandomOrder | CoverageGuided | FailureDirected

record search_budget =
  sb_seed_count :: u64
  sb_retain_candidates :: nat

definition search_budget_default :: search_budget where
  "search_budget_default = \<lparr>sb_seed_count = 100, sb_retain_candidates = 32\<rparr>"

record search_candidate =
  ca_seed :: u64
  ca_rank :: nat
  ca_score :: nat
  ca_new_coverage :: nat
  ca_coverage :: "string list"
  ca_failure_signature :: "failure_signature option"
  ca_tape_len :: nat

text \<open>\<^verbatim>\<open>SearchReport\<close>, with the two fields of its \<^verbatim>\<open>SeedCorpus\<close>.\<close>

record search_report =
  sp_strategy :: search_strategy
  sp_seeds_attempted :: u64
  sp_first_failing_seed :: "u64 option"
  sp_first_failing_rank :: "nat option"
  sp_failures_observed :: nat
  sp_candidates :: "search_candidate list"
  sp_unique_coverage :: "string list"

record strategy_comparison =
  sc_strategy :: search_strategy
  sc_seeds_attempted :: u64
  sc_first_failing_seed :: "u64 option"
  sc_first_failing_rank :: "nat option"
  sc_failures_observed :: nat
  sc_unique_coverage :: nat
  sc_retained_candidates :: nat

record search_comparison_report =
  scr_case_name :: string
  scr_budget :: search_budget
  scr_rows :: "strategy_comparison list"
  scr_best_strategy :: "search_strategy option"

record suite_search_comparison_report =
  ssr_suite_name :: string
  ssr_budget :: search_budget
  ssr_case_reports :: "search_comparison_report list"
  ssr_strategy_wins :: "(search_strategy \<times> nat) list"

fun strategy_rank :: "search_strategy \<Rightarrow> nat" where
  "strategy_rank RandomOrder = 0"
| "strategy_rank CoverageGuided = 1"
| "strategy_rank FailureDirected = 2"

subsection \<open>Seed orders\<close>

definition stress_score :: "u64 \<Rightarrow> u64" where
  "stress_score seed =
     (let x = seed + 0x9e3779b97f4a7c15;
          x = (x XOR drop_bit 30 x) * 0xbf58476d1ce4e5b9;
          x = (x XOR drop_bit 27 x) * 0x94d049bb133111eb
      in x XOR drop_bit 31 x)"

fun seed_order :: "search_strategy \<Rightarrow> u64 \<Rightarrow> u64 list" where
  "seed_order RandomOrder n = seeds_below n"
| "seed_order CoverageGuided n =
     filter (\<lambda>seed. seed mod 2 = 1) (seeds_below n) @ filter (\<lambda>seed. seed mod 2 = 0) (seeds_below n)"
| "seed_order FailureDirected n = rev (sort_key (\<lambda>seed. (stress_score seed, seed)) (seeds_below n))"

subsection \<open>Coverage\<close>

definition normalize_history_signal :: "string \<Rightarrow> string" where
  "normalize_history_signal entry =
     (case split_at_char CHR '':'' entry of
        [] \<Rightarrow> ''history:empty''
      | head # rest \<Rightarrow>
          if head = ''kv'' \<and> 2 \<le> length rest then ''history:kv:'' @ rest ! 1
          else if head = ''log'' \<and> 2 \<le> length rest then ''history:log:'' @ rest ! 1
          else if head = ''raft-bug'' then ''history:raft-bug:'' @ join_with '':'' rest
          else if head = ''raft-invariant'' then ''history:raft-invariant:'' @ join_with '':'' rest
          else if head = ''storage-corruption'' \<and> rest \<noteq> [] then ''history:storage-corruption:'' @ hd rest
          else if rest = [] then ''history:'' @ head
          else ''history:'' @ head @ '':'' @ hd rest)"

definition coverage_from_run :: "text_report \<Rightarrow> string list" where
  "coverage_from_run r =
     collect_set (rp_coverage_signals r
       @ map (\<lambda>event. ''tape:'' @ label_as_str (te_label event)) (rp_tape_events r)
       @ map normalize_history_signal (rp_history r))"

subsection \<open>The search\<close>

definition candidate_score :: "search_strategy \<Rightarrow> nat \<Rightarrow> failure_signature option \<Rightarrow> text_report \<Rightarrow> nat" where
  "candidate_score strategy new_coverage signature report =
     (let failure = (if signature \<noteq> None then 1 else 0)
      in (case strategy of
            RandomOrder \<Rightarrow> 0
          | CoverageGuided \<Rightarrow> new_coverage * 10
          | FailureDirected \<Rightarrow> failure * 1000 + new_coverage * 10)
         + length (rp_tape_log report))"

text \<open>The comparator of \<^verbatim>\<open>retain_best\<close> as a key: score downwards, then rank, then seed.\<close>

definition candidate_key :: "search_candidate \<Rightarrow> int \<times> nat \<times> u64" where
  "candidate_key c = (- int (ca_score c), ca_rank c, ca_seed c)"

definition retain_best :: "nat \<Rightarrow> search_candidate list \<Rightarrow> search_candidate list" where
  "retain_best retain candidates =
     (if retain = 0 then [] else take retain (sort_key candidate_key candidates))"

definition make_candidate ::
  "experiment_case \<Rightarrow> search_strategy \<Rightarrow> string set \<Rightarrow> nat \<Rightarrow> u64 \<Rightarrow> search_candidate" where
  "make_candidate c strategy seen rank seed =
     (let report = ec_generate c seed;
          signature = ec_oracle c report;
          coverage = coverage_from_run report;
          new_coverage = length (filter (\<lambda>signal. signal \<notin> seen) coverage)
      in \<lparr>ca_seed = seed, ca_rank = rank,
          ca_score = candidate_score strategy new_coverage signature report,
          ca_new_coverage = new_coverage, ca_coverage = coverage, ca_failure_signature = signature,
          ca_tape_len = length (rp_tape_log report)\<rparr>)"

record search_state =
  st_seen :: "string set"
  st_candidates :: "search_candidate list"
  st_first_seed :: "u64 option"
  st_first_rank :: "nat option"
  st_failures :: nat

definition search_seed ::
  "experiment_case \<Rightarrow> search_strategy \<Rightarrow> nat \<Rightarrow> nat \<times> u64 \<Rightarrow> search_state \<Rightarrow> search_state" where
  "search_seed c strategy retain = (\<lambda>(rank, seed) st.
     let report = ec_generate c seed;
         signature = ec_oracle c report;
         st = (if signature \<noteq> None
               then let st = st\<lparr>st_failures := st_failures st + 1\<rparr>
                    in if st_first_seed st = None
                       then st\<lparr>st_first_seed := Some seed, st_first_rank := Some rank\<rparr> else st
               else st);
         candidate = make_candidate c strategy (st_seen st) rank seed;
         st = st\<lparr>st_seen := st_seen st \<union> set (coverage_from_run report)\<rparr>
     in st\<lparr>st_candidates := retain_best retain (st_candidates st @ [candidate])\<rparr>)"

definition search_start :: search_state where
  "search_start = \<lparr>st_seen = {}, st_candidates = [], st_first_seed = None, st_first_rank = None, st_failures = 0\<rparr>"

definition run_seed_search :: "experiment_case \<Rightarrow> search_strategy \<Rightarrow> search_budget \<Rightarrow> search_report" where
  "run_seed_search c strategy budget =
     (let st = fold (search_seed c strategy (sb_retain_candidates budget))
                 (enumerate 0 (seed_order strategy (sb_seed_count budget))) search_start
      in \<lparr>sp_strategy = strategy, sp_seeds_attempted = sb_seed_count budget,
          sp_first_failing_seed = st_first_seed st, sp_first_failing_rank = st_first_rank st,
          sp_failures_observed = st_failures st, sp_candidates = st_candidates st,
          sp_unique_coverage = sorted_list_of_set (st_seen st)\<rparr>)"

subsection \<open>Comparing strategies\<close>

text \<open>\<^verbatim>\<open>min_by_key\<close> returns the first minimum, \<^verbatim>\<open>max_by_key\<close> the last maximum.\<close>

fun min_by_key :: "('a \<Rightarrow> 'k::linorder) \<Rightarrow> 'a list \<Rightarrow> 'a option" where
  "min_by_key f [] = None"
| "min_by_key f (x # xs) =
     (case min_by_key f xs of None \<Rightarrow> Some x | Some y \<Rightarrow> if f x \<le> f y then Some x else Some y)"

fun max_by_key :: "('a \<Rightarrow> 'k::linorder) \<Rightarrow> 'a list \<Rightarrow> 'a option" where
  "max_by_key f [] = None"
| "max_by_key f (x # xs) =
     (case max_by_key f xs of None \<Rightarrow> Some x | Some y \<Rightarrow> if f y < f x then Some x else Some y)"

definition comparison_row :: "search_report \<Rightarrow> strategy_comparison" where
  "comparison_row report =
     \<lparr>sc_strategy = sp_strategy report, sc_seeds_attempted = sp_seeds_attempted report,
      sc_first_failing_seed = sp_first_failing_seed report, sc_first_failing_rank = sp_first_failing_rank report,
      sc_failures_observed = sp_failures_observed report,
      sc_unique_coverage = length (sp_unique_coverage report),
      sc_retained_candidates = length (sp_candidates report)\<rparr>"

text \<open>The rank of a strategy counts downwards in the second key, as \<^verbatim>\<open>Reverse\<close> does.\<close>

definition best_strategy_of :: "strategy_comparison list \<Rightarrow> search_strategy option" where
  "best_strategy_of rows =
     (let best = (case min_by_key
            (\<lambda>row. (the (sc_first_failing_rank row), strategy_rank (sc_strategy row)))
            (filter (\<lambda>row. sc_first_failing_rank row \<noteq> None) rows) of
              Some row \<Rightarrow> Some row
            | None \<Rightarrow> max_by_key (\<lambda>row. (sc_unique_coverage row, - int (strategy_rank (sc_strategy row)))) rows)
      in map_option sc_strategy best)"

definition compare_search_strategies ::
  "experiment_case \<Rightarrow> search_strategy list \<Rightarrow> search_budget \<Rightarrow> search_comparison_report" where
  "compare_search_strategies c strategies budget =
     (let rows = map (\<lambda>strategy. comparison_row (run_seed_search c strategy budget)) strategies
      in \<lparr>scr_case_name = ec_name c, scr_budget = budget, scr_rows = rows,
          scr_best_strategy = best_strategy_of rows\<rparr>)"

fun count_win :: "search_strategy \<Rightarrow> (search_strategy \<times> nat) list \<Rightarrow> (search_strategy \<times> nat) list" where
  "count_win strategy [] = [(strategy, 1)]"
| "count_win strategy ((s, n) # wins) =
     (if s = strategy then (s, n + 1) # wins else (s, n) # count_win strategy wins)"

definition compare_search_suite ::
  "experiment_suite \<Rightarrow> search_strategy list \<Rightarrow> search_budget \<Rightarrow> suite_search_comparison_report" where
  "compare_search_suite suite strategies budget =
     (let case_reports = map (\<lambda>(c, policy). compare_search_strategies c strategies budget) (su_cases suite);
          wins = fold (\<lambda>report wins. case scr_best_strategy report of
                          None \<Rightarrow> wins | Some strategy \<Rightarrow> count_win strategy wins) case_reports []
      in \<lparr>ssr_suite_name = su_name suite, ssr_budget = budget, ssr_case_reports = case_reports,
          ssr_strategy_wins = sort_key (\<lambda>(strategy, n). strategy_rank strategy) wins\<rparr>)"

subsection \<open>JSON\<close>

fun debug_strategy :: "search_strategy \<Rightarrow> string" where
  "debug_strategy RandomOrder = ''Random''"
| "debug_strategy CoverageGuided = ''CoverageGuided''"
| "debug_strategy FailureDirected = ''FailureDirected''"

definition coverage_json :: "string list \<Rightarrow> string" where
  "coverage_json signals = ''['' @ join_with '','' (map quoted signals) @ '']''"

definition option_strategy :: "search_strategy option \<Rightarrow> string" where
  "option_strategy value = (case value of None \<Rightarrow> ''null''
     | Some strategy \<Rightarrow> [quote_char] @ debug_strategy strategy @ [quote_char])"

definition candidate_json :: "search_candidate \<Rightarrow> string" where
  \<open>candidate_json c =
     ''{"seed":''
     @ show_u64 (ca_seed c)
     @ '',"rank":''
     @ show_nat (ca_rank c)
     @ '',"score":''
     @ show_nat (ca_score c)
     @ '',"new_coverage":''
     @ show_nat (ca_new_coverage c)
     @ '',"coverage":''
     @ coverage_json (ca_coverage c)
     @ '',"failure_signature":''
     @ option_signature_json (ca_failure_signature c)
     @ '',"tape_len":''
     @ show_nat (ca_tape_len c)
     @ ''}''\<close>

definition search_report_to_json :: "search_report \<Rightarrow> string" where
  \<open>search_report_to_json r =
     ''{"schema_version":3,"strategy":"''
     @ debug_strategy (sp_strategy r)
     @ ''","seeds_attempted":''
     @ show_u64 (sp_seeds_attempted r)
     @ '',"first_failing_seed":''
     @ option_u64 (sp_first_failing_seed r)
     @ '',"first_failing_rank":''
     @ option_usize (sp_first_failing_rank r)
     @ '',"failures_observed":''
     @ show_nat (sp_failures_observed r)
     @ '',"unique_coverage":''
     @ coverage_json (sp_unique_coverage r)
     @ '',"candidates":[''
     @ join_with '','' (map candidate_json (sp_candidates r))
     @ '']}''\<close>

definition comparison_json :: "strategy_comparison \<Rightarrow> string" where
  \<open>comparison_json row =
     ''{"strategy":"''
     @ debug_strategy (sc_strategy row)
     @ ''","seeds_attempted":''
     @ show_u64 (sc_seeds_attempted row)
     @ '',"first_failing_seed":''
     @ option_u64 (sc_first_failing_seed row)
     @ '',"first_failing_rank":''
     @ option_usize (sc_first_failing_rank row)
     @ '',"failures_observed":''
     @ show_nat (sc_failures_observed row)
     @ '',"unique_coverage":''
     @ show_nat (sc_unique_coverage row)
     @ '',"retained_candidates":''
     @ show_nat (sc_retained_candidates row)
     @ ''}''\<close>

definition search_comparison_report_to_json :: "search_comparison_report \<Rightarrow> string" where
  \<open>search_comparison_report_to_json r =
     ''{"schema_version":3,"case":"''
     @ escape_json (scr_case_name r)
     @ ''","seed_budget":''
     @ show_u64 (sb_seed_count (scr_budget r))
     @ '',"retain_candidates":''
     @ show_nat (sb_retain_candidates (scr_budget r))
     @ '',"best_strategy":''
     @ option_strategy (scr_best_strategy r)
     @ '',"rows":[''
     @ join_with '','' (map comparison_json (scr_rows r))
     @ '']}''\<close>

definition win_json :: "search_strategy \<times> nat \<Rightarrow> string" where
  \<open>win_json = (\<lambda>(strategy, wins).
     ''{"strategy":"''
     @ debug_strategy strategy
     @ ''","wins":''
     @ show_nat wins
     @ ''}'')\<close>

definition suite_search_comparison_report_to_json :: "suite_search_comparison_report \<Rightarrow> string" where
  \<open>suite_search_comparison_report_to_json r =
     ''{"schema_version":3,"suite":"''
     @ escape_json (ssr_suite_name r)
     @ ''","seed_budget":''
     @ show_u64 (sb_seed_count (ssr_budget r))
     @ '',"retain_candidates":''
     @ show_nat (sb_retain_candidates (ssr_budget r))
     @ '',"case_count":''
     @ show_nat (length (ssr_case_reports r))
     @ '',"strategy_wins":[''
     @ join_with '','' (map win_json (ssr_strategy_wins r))
     @ ''],"cases":[''
     @ join_with '','' (map search_comparison_report_to_json (ssr_case_reports r))
     @ '']}''\<close>

subsection \<open>Every strategy attempts the same seeds\<close>

lemma seed_order_mset: "mset (seed_order strategy n) = mset (seeds_below n)"
proof (cases strategy)
  case CoverageGuided
  have "filter_mset (\<lambda>seed. seed mod 2 = 1) M + filter_mset (\<lambda>seed. seed mod 2 = 0) M = M" for M :: "u64 multiset"
    using multiset_partition [of M "\<lambda>seed. seed mod 2 = 1"] by (simp add: mod_2_eq_odd)
  then show ?thesis using CoverageGuided by (simp add: mset_filter)
qed simp_all

text \<open>Every strategy attempts every seed below the budget exactly once; they differ in the order
  only.\<close>

lemma seed_order_permutes:
  "distinct (seed_order strategy n) \<and> set (seed_order strategy n) = {..<n}"
proof -
  have "distinct (seeds_below n)" using sorted_seeds_below by (simp add: strict_sorted_iff)
  then show ?thesis
    using seed_order_mset [of strategy n] by (metis mset_eq_imp_distinct_iff set_mset_mset set_seeds_below)
qed

definition run_coverage :: "experiment_case \<Rightarrow> u64 \<Rightarrow> string set" where
  "run_coverage c seed = set (coverage_from_run (ec_generate c seed))"

lemma search_seed_fields:
  "st_failures (search_seed c s k (rank, seed) st) = st_failures st + (if failing c seed then 1 else 0)"
  "st_seen (search_seed c s k (rank, seed) st) = st_seen st \<union> run_coverage c seed"
  "st_first_seed (search_seed c s k (rank, seed) st) =
     (if st_first_seed st = None \<and> failing c seed then Some seed else st_first_seed st)"
  "st_candidates (search_seed c s k (rank, seed) st) =
     retain_best k (st_candidates st @ [make_candidate c s (st_seen st) rank seed])"
  by (auto simp: search_seed_def failing_def run_coverage_def Let_def)

lemma fold_search_fields:
  "st_failures (fold (search_seed c s k) (enumerate rank seeds) st) = st_failures st + length (filter (failing c) seeds)"
  "st_seen (fold (search_seed c s k) (enumerate rank seeds) st) = st_seen st \<union> (\<Union>seed \<in> set seeds. run_coverage c seed)"
  "st_first_seed (fold (search_seed c s k) (enumerate rank seeds) st) =
     (case st_first_seed st of Some seed \<Rightarrow> Some seed | None \<Rightarrow> List.find (failing c) seeds)"
  by (induction seeds arbitrary: rank st) (auto simp: search_seed_fields split: option.split)

lemma filter_seed_order_card:
  "length (filter (failing c) (seed_order strategy n)) = card {seed. seed < n \<and> failing c seed}"
proof -
  have "mset (filter (failing c) (seed_order strategy n)) = mset (filter (failing c) (seeds_below n))"
    by (simp only: mset_filter seed_order_mset)
  then have "length (filter (failing c) (seed_order strategy n)) = length (filter (failing c) (seeds_below n))"
    by (rule mset_eq_length)
  moreover have "distinct (filter (failing c) (seeds_below n))"
    using sorted_seeds_below by (simp add: strict_sorted_iff)
  ultimately show ?thesis
    using distinct_card [of "filter (failing c) (seeds_below n)"] by (simp add: set_seeds_below)
qed

lemma set_seed_order: "set (seed_order strategy n) = {..<n}"
  using seed_order_mset [of strategy n] by (metis set_mset_mset set_seeds_below)

text \<open>C22. What a search reports about the failures and the coverage does not depend on the strategy: the
  count is that of the failing seeds, the coverage is the sorted union over all seeds; the first failing seed
  is the first one in the strategy's order.\<close>

theorem search_report_truth:
  "sp_failures_observed (run_seed_search c strategy budget)
     = card {seed. seed < sb_seed_count budget \<and> failing c seed}
   \<and> sp_unique_coverage (run_seed_search c strategy budget)
     = sorted_list_of_set (\<Union>seed \<in> {..<sb_seed_count budget}. run_coverage c seed)
   \<and> sp_first_failing_seed (run_seed_search c strategy budget)
     = List.find (failing c) (seed_order strategy (sb_seed_count budget))"
  by (simp add: run_seed_search_def Let_def fold_search_fields search_start_def filter_seed_order_card
      set_seed_order del: seed_order.simps)

subsection \<open>Retention\<close>

text \<open>Inserting into a sorted list, after the entries with the same key.\<close>

fun insert_after :: "('a \<Rightarrow> 'k::linorder) \<Rightarrow> 'a \<Rightarrow> 'a list \<Rightarrow> 'a list" where
  "insert_after f c [] = [c]"
| "insert_after f c (y # ys) = (if f y \<le> f c then y # insert_after f c ys else c # y # ys)"

lemma mset_insert_after [simp]: "mset (insert_after f c ys) = add_mset c (mset ys)"
  by (induction ys) auto

lemma set_insert_after [simp]: "set (insert_after f c ys) = insert c (set ys)"
  by (induction ys) auto

lemma sorted_insert_after: "sorted (map f ys) \<Longrightarrow> sorted (map f (insert_after f c ys))"
  by (induction ys) auto

lemma filter_insert_after:
  "sorted (map f ys) \<Longrightarrow>
     filter (\<lambda>x. k = f x) (insert_after f c ys) = filter (\<lambda>x. k = f x) ys @ (if k = f c then [c] else [])"
proof (induction ys)
  case (Cons y ys)
  show ?case
  proof (cases "f y \<le> f c")
    case False
    then have "\<forall>x \<in> set (y # ys). f c \<noteq> f x" using Cons.prems by auto
    then have "f c \<noteq> f y" "filter (\<lambda>x. f c = f x) ys = []" by (simp_all add: filter_empty_conv)
    with False show ?thesis by simp
  qed (use Cons in \<open>auto split: if_splits\<close>)
qed simp

lemma sort_key_snoc: "sort_key f (xs @ [c]) = insert_after f c (sort_key f xs)"
proof (rule properties_for_sort_key)
  show "filter (\<lambda>x. f k = f x) (insert_after f c (sort_key f xs)) = filter (\<lambda>x. f k = f x) (xs @ [c])" for k
  proof -
    have "filter (\<lambda>x. f k = f x) (sort_key f xs) = filter (\<lambda>x. f k = f x) xs"
      using sort_key_stable [of f "f k" xs] by (simp add: eq_commute [of "f k"])
    then show ?thesis by (simp add: filter_insert_after)
  qed
qed (simp_all add: sorted_insert_after)

lemma take_insert_after: "take k (insert_after f c (take k ys)) = take k (insert_after f c ys)"
proof (induction ys arbitrary: k)
  case (Cons y ys)
  show ?case
  proof (cases k)
    case (Suc j)
    then show ?thesis by (cases "f y \<le> f c") (simp_all add: Cons.IH take_Cons' min_def)
  qed simp
qed simp

lemma retain_best_step:
  "retain_best k (take k (sort_key candidate_key xs) @ [c]) = take k (sort_key candidate_key (xs @ [c]))"
proof -
  have "sorted (map candidate_key (take k (sort_key candidate_key xs)))"
    by (simp add: take_map [symmetric] sorted_wrt_take)
  then show ?thesis
    by (cases "k = 0") (simp_all add: retain_best_def sort_key_snoc take_insert_after sort_key_id_if_sorted)
qed

fun scored :: "experiment_case \<Rightarrow> search_strategy \<Rightarrow> string set \<Rightarrow> nat \<Rightarrow> u64 list \<Rightarrow> search_candidate list" where
  "scored c s seen rank [] = []"
| "scored c s seen rank (seed # seeds) =
     make_candidate c s seen rank seed # scored c s (seen \<union> run_coverage c seed) (Suc rank) seeds"

lemma fold_search_candidates:
  "st_candidates st = take k (sort_key candidate_key xs) \<Longrightarrow>
   st_candidates (fold (search_seed c s k) (enumerate rank seeds) st)
     = take k (sort_key candidate_key (xs @ scored c s (st_seen st) rank seeds))"
proof (induction seeds arbitrary: rank st xs)
  case (Cons seed seeds)
  have "st_candidates (search_seed c s k (rank, seed) st)
      = take k (sort_key candidate_key (xs @ [make_candidate c s (st_seen st) rank seed]))"
    by (simp add: search_seed_fields Cons.prems retain_best_step)
  from Cons.IH [OF this, of "Suc rank"] show ?case
    by (simp add: search_seed_fields)
qed simp

text \<open>C28. Truncating the corpus after every seed loses nothing: the retained candidates are the best of all
  candidates of the search, by score, then rank, then seed.\<close>

theorem retained_are_best:
  "sp_candidates (run_seed_search c strategy budget)
     = take (sb_retain_candidates budget)
         (sort_key candidate_key (scored c strategy {} 0 (seed_order strategy (sb_seed_count budget))))"
  using fold_search_candidates [of search_start "sb_retain_candidates budget" "[]"]
  by (simp add: run_seed_search_def Let_def search_start_def del: seed_order.simps)

end
