(* ===== verification/Testkit_World.thy ===== *)
theory Testkit_World
  imports Sim_Replay Sim_Text Testkit
begin

section \<open>Experiments over the simulator\<close>

text \<open>
  The tools of \<open>Testkit\<close> applied to worlds of the simulator, the way every experiment of the
  repository is built: \<^verbatim>\<open>generate\<close> runs a script on \<^verbatim>\<open>World::with_config(seed, config)\<close>,
  \<^verbatim>\<open>replay\<close> runs the same script on \<^verbatim>\<open>World::replay(seed, tape, config)\<close>. The
  replay theorem of \<open>Sim_Replay\<close> becomes what the assertion helpers and the experiment runner
  promise.
\<close>

definition report_of_script :: "(message \<Rightarrow> string) \<Rightarrow> (panic + ('f, 'v) inner) option \<Rightarrow> text_report option" where
  "report_of_script dbg result =
     (case result of Some (Inr g) \<Rightarrow> Some (text_report_of dbg (run_report_of g)) | _ \<Rightarrow> None)"

text \<open>\<open>None\<close> stands for a script that panics or does not return.\<close>

definition script_generate ::
  "('f \<Rightarrow> ('f, 'v) fut_step) \<Rightarrow> 'f world_op list \<Rightarrow> world_config \<Rightarrow> (message \<Rightarrow> string) \<Rightarrow> u64 \<Rightarrow> text_report option" where
  "script_generate nx ops config dbg seed = report_of_script dbg (world_script nx ops (world_with_config seed config))"

definition script_replay ::
  "('f \<Rightarrow> ('f, 'v) fut_step) \<Rightarrow> 'f world_op list \<Rightarrow> world_config \<Rightarrow> (message \<Rightarrow> string) \<Rightarrow> u64 \<Rightarrow> u64 list
     \<Rightarrow> text_report option" where
  "script_replay nx ops config dbg seed tape = report_of_script dbg (world_script nx ops (world_replay seed tape config))"

text \<open>The report of a faithful replay differs from the original in the fields that say it is one.\<close>

definition as_replay :: "text_report \<Rightarrow> text_report" where
  "as_replay r =
     r\<lparr>rp_tape_replaying := True, rp_tape_input_len := Some (length (rp_tape_log r)),
       rp_tape_cursor := length (rp_tape_log r), rp_tape_consumed_all := True, rp_tape_exhausted := False\<rparr>"

lemma as_replay_fields [simp]:
  "rp_trace (as_replay r) = rp_trace r" "rp_history (as_replay r) = rp_history r"
  "rp_nemesis_trace (as_replay r) = rp_nemesis_trace r" "rp_coverage_signals (as_replay r) = rp_coverage_signals r"
  "rp_tape_events (as_replay r) = rp_tape_events r" "rp_tape_replaying (as_replay r)"
  "rp_tape_input_len (as_replay r) = Some (length (rp_tape_log r))"
  "rp_tape_consumed_all (as_replay r)" "\<not> rp_tape_exhausted (as_replay r)"
  by (simp_all add: as_replay_def)

lemma text_report_of_rep:
  "text_report_of dbg (run_report_of (rep (tape_log (in_tape g)) g)) = as_replay (text_report_of dbg (run_report_of g))"
  by (simp add: text_report_of_def run_report_of_def as_replay_def Let_def rep_tape_diagnostics)

lemma script_replay_of_generate:
  fixes nx :: "'f \<Rightarrow> ('f, 'v) fut_step"
  assumes "script_generate nx ops config dbg seed = Some r"
  shows "script_replay nx ops config dbg seed (rp_tape_log r) = Some (as_replay r)"
proof -
  obtain g where g: "world_script nx ops (world_with_config seed config) = Some (Inr g)"
    and r: "r = text_report_of dbg (run_report_of g)"
    using assms by (auto simp: script_generate_def report_of_script_def split: option.splits sum.splits)
  have log: "rp_tape_log r = tape_log (in_tape g)"
    by (simp add: r text_report_of_def run_report_of_def Let_def)
  have "gwf (world_with_config seed config :: ('f, 'v) inner)"
    by (simp add: world_with_config_def world_from_tape_def)
  then have replayed: "world_script nx ops (world_replay seed (tape_log (in_tape g)) config)
      = Some (Inr (rep (tape_log (in_tape g)) g))"
    using world_script_rep [OF g, of "tape_log (in_tape g)"] by (simp add: rep_world_with_config)
  show ?thesis
    unfolding script_replay_def report_of_script_def log replayed by (simp add: text_report_of_rep r)
qed

lemma assert_reports_equal_as_replay: "assert_reports_equal seed label r (as_replay r) = Inr ()"
  by (simp add: assert_reports_equal_def Let_def)

text \<open>The case an experiment makes of a script.\<close>

definition script_case ::
  "string \<Rightarrow> experiment_budget \<Rightarrow> ('f \<Rightarrow> ('f, 'v) fut_step) \<Rightarrow> 'f world_op list \<Rightarrow> world_config \<Rightarrow> (message \<Rightarrow> string)
     \<Rightarrow> (text_report \<Rightarrow> failure_signature option) \<Rightarrow> experiment_case" where
  "script_case name budget nx ops config dbg oracle =
     \<lparr>ec_name = name, ec_budget = budget, ec_generate = (\<lambda>seed. the (script_generate nx ops config dbg seed)),
      ec_replay = (\<lambda>seed tape. the (script_replay nx ops config dbg seed tape)), ec_oracle = oracle\<rparr>"

definition replay_blind :: "(text_report \<Rightarrow> failure_signature option) \<Rightarrow> bool" where
  "replay_blind oracle \<longleftrightarrow> (\<forall>r. oracle (as_replay r) = oracle r)"

lemma script_case_faithful:
  assumes "script_generate nx ops config dbg seed = Some r" and "replay_blind oracle"
  shows "replay_faithful (script_case name budget nx ops config dbg oracle) seed"
  using assms(2) by (simp add: replay_faithful_def script_case_def assms(1) script_replay_of_generate [OF assms(1)]
      replay_blind_def Let_def)

lemma first_failing_exists:
  "(\<exists>seed. first_failing c seed) = (\<exists>seed. seed < eb_seed_count (ec_budget c) \<and> failing c seed)"
proof
  assume "\<exists>seed. seed < eb_seed_count (ec_budget c) \<and> failing c seed"
  then obtain seed where "List.find (failing c) (seeds_below (eb_seed_count (ec_budget c))) = Some seed"
    using set_seeds_below [of "eb_seed_count (ec_budget c)"]
    by (cases "List.find (failing c) (seeds_below (eb_seed_count (ec_budget c)))") (auto simp: find_None_iff)
  then show "\<exists>seed. first_failing c seed" using find_first_failing by blast
qed (auto simp: first_failing_def)

lemma script_case_recalled:
  assumes "\<forall>seed < eb_seed_count budget. script_generate nx ops config dbg seed \<noteq> None" and "replay_blind oracle"
  shows "is_recalled (run_experiment_case (script_case name budget nx ops config dbg oracle))
    \<longleftrightarrow> (\<exists>seed < eb_seed_count budget. failing (script_case name budget nx ops config dbg oracle) seed)"
proof -
  let ?c = "script_case name budget nx ops config dbg oracle"
  have budget: "eb_seed_count (ec_budget ?c) = eb_seed_count budget" by (simp add: script_case_def)
  have "replay_faithful ?c seed" if "first_failing ?c seed" for seed
  proof -
    have "seed < eb_seed_count budget" using that by (simp add: first_failing_def budget)
    then obtain r where "script_generate nx ops config dbg seed = Some r" using assms(1) by blast
    from script_case_faithful [OF this assms(2)] show ?thesis .
  qed
  then have "is_recalled (run_experiment_case ?c) \<longleftrightarrow> (\<exists>seed. first_failing ?c seed)"
    using run_case_report [of ?c] by blast
  then show ?thesis by (simp only: first_failing_exists budget)
qed

text \<open>C11. Experiments on the simulator do not lose failures: for every script of calls on a world that
  returns for the seeds of the budget, and every oracle that does not look at the tape fields of a report,
  \<open>assert_replay_identical\<close> returns for each of these seeds, and the runner recalls the failure if and only
  if some seed fails.\<close>

theorem world_experiments_recall:
  assumes "\<forall>seed < eb_seed_count budget. script_generate nx ops config dbg seed \<noteq> None" and "replay_blind oracle"
  shows "let c = script_case name budget nx ops config dbg oracle
    in (\<forall>seed < eb_seed_count budget.
          assert_replay_identical seed (ec_generate c) (ec_replay c)
            = Inr (ec_generate c seed, as_replay (ec_generate c seed)))
       \<and> is_recalled (run_experiment_case c) = (\<exists>seed < eb_seed_count budget. failing c seed)"
  unfolding Let_def
proof (intro conjI allI impI)
  fix seed
  assume "seed < eb_seed_count budget"
  then obtain r where r: "script_generate nx ops config dbg seed = Some r" using assms(1) by blast
  then show "assert_replay_identical seed (ec_generate (script_case name budget nx ops config dbg oracle))
      (ec_replay (script_case name budget nx ops config dbg oracle))
      = Inr (ec_generate (script_case name budget nx ops config dbg oracle) seed,
          as_replay (ec_generate (script_case name budget nx ops config dbg oracle) seed))"
    using script_replay_of_generate [OF r]
    by (simp add: script_case_def assert_replay_identical_def Let_def assert_reports_equal_as_replay)
qed (rule script_case_recalled [OF assms])

theorem world_experiments_recall_witness:
  "is_recalled (run_experiment_case (script_case ''partitioned'' \<lparr>eb_seed_count = 2, eb_shrink = shrink_config_default\<rparr>
     (\<lambda>_ :: unit. StepReady ()) [OpPartition [[0], [1]]] world_config_default (\<lambda>_. []) (\<lambda>_. Some SigDeadlock)))"
proof -
  have "script_generate (\<lambda>_ :: unit. StepReady ()) [OpPartition [[0], [1]]] world_config_default (\<lambda>_. []) seed \<noteq> None" for seed
    by (simp add: script_generate_def report_of_script_def)
  then have ok: "\<forall>seed < eb_seed_count \<lparr>eb_seed_count = 2, eb_shrink = shrink_config_default\<rparr>.
      script_generate (\<lambda>_ :: unit. StepReady ()) [OpPartition [[0], [1]]] world_config_default (\<lambda>_. []) seed \<noteq> None"
    by blast
  have "(0 :: u64) < 2" by simp
  then have "\<exists>seed :: u64. seed < 2" by blast
  then show ?thesis
    using world_experiments_recall [OF ok, of "\<lambda>_. Some SigDeadlock" "''partitioned''"]
    by (auto simp: replay_blind_def Let_def failing_def script_case_def)
qed

end
