(* ===== verification/Async_Program.thy ===== *)
theory Async_Program
  imports Sim_Steps
begin

section \<open>Programs written against Env\<close>

text \<open>
  The systems under test of the repository are \<^verbatim>\<open>async\<close> functions over the traits of
  \<^verbatim>\<open>crates/detersim-core/src/lib.rs\<close>. A \<open>prog\<close> is such a function between two awaits: one
  constructor per capability it awaits or calls, with what it does next as a function of the result. A loop is
  a label \<open>'l\<close> that carries its local variables; \<open>Goto\<close> enters it, and the body of a label begins with
  an await or a call. \<open>sut_step\<close> is the state machine Rust compiles such a function to, over the calls of
  \<open>Sim_Env\<close>: what it keeps between two polls is the leaf future it is parked on.

  A leaf future that is dropped after it returned does nothing (its timer is cancelled, its waiter
  unregistered), so these drops are left out; those of a race that is lost are there.
\<close>

datatype ('l, 'v) prog =
    Return 'v
  | Goto 'l
  | Now "sim_time \<Rightarrow> ('l, 'v) prog"
  | Send node_id message "('l, 'v) prog"
  | Recv "node_id \<Rightarrow> message \<Rightarrow> ('l, 'v) prog"
  | Sleep nat "('l, 'v) prog"
  | TimedRecv nat "(node_id \<times> message) option \<Rightarrow> ('l, 'v) prog"
  | WriteAt u64 "u8 list" "('l, 'v) prog"
  | ReadAt u64 "u8 list" "nat \<Rightarrow> u8 list \<Rightarrow> ('l, 'v) prog"
  | Flush "('l, 'v) prog"
  | Len "nat \<Rightarrow> ('l, 'v) prog"
  | Record string "('l, 'v) prog"
  | SpawnTask "('l, 'v) prog" "sim_join_handle \<Rightarrow> ('l, 'v) prog"
  | Join sim_join_handle "'v \<Rightarrow> ('l, 'v) prog"

text \<open>\<open>TimedRecv d k\<close> is \<^verbatim>\<open>clock.timeout(d, net.recv()).await\<close>, with the error as \<open>None\<close>.
  In \<open>TimerTurn\<close> the timer's own future has or has not been polled before.\<close>

datatype ('l, 'v) sut_future =
    Running "('l, 'v) prog"
  | Yield "('l, 'v) sut_future"
  | Receiving recv_future "node_id \<Rightarrow> message \<Rightarrow> ('l, 'v) prog"
  | Sleeping sleep_future "('l, 'v) prog"
  | Joining sim_join_handle "'v \<Rightarrow> ('l, 'v) prog"
  | Racing recv_future sleep_future "(node_id \<times> message) option \<Rightarrow> ('l, 'v) prog"
  | TimerTurn nat recv_future "sleep_future option" "(node_id \<times> message) option \<Rightarrow> ('l, 'v) prog"
  | DropTimer sleep_future "('l, 'v) prog"
  | DropRecv recv_future "('l, 'v) prog"

fun after_now :: "(sim_time \<Rightarrow> ('l, 'v) sut_future) \<Rightarrow> 'v env_resp \<Rightarrow> ('l, 'v) sut_future" where
  "after_now k (RespTime t) = k t"
| "after_now k _ = k 0"

fun after_recv :: "(node_id \<Rightarrow> message \<Rightarrow> ('l, 'v) prog) \<Rightarrow> 'v env_resp \<Rightarrow> ('l, 'v) sut_future" where
  "after_recv k (RespRecv (Some (src, msg)) this) = Running (k src msg)"
| "after_recv k (RespRecv None this) = Yield (Receiving this k)"
| "after_recv k _ = Yield (Receiving recv_start k)"

fun after_sleep :: "sleep_future \<Rightarrow> ('l, 'v) prog \<Rightarrow> 'v env_resp \<Rightarrow> ('l, 'v) sut_future" where
  "after_sleep f p (RespSleep rdy this) = (if rdy then Running p else Yield (Sleeping this p))"
| "after_sleep f p _ = Yield (Sleeping f p)"

fun after_join :: "sim_join_handle \<Rightarrow> ('v \<Rightarrow> ('l, 'v) prog) \<Rightarrow> 'v env_resp \<Rightarrow> ('l, 'v) sut_future" where
  "after_join h k (RespJoin (Some out) this) = Running (k out)"
| "after_join h k (RespJoin None this) = Yield (Joining this k)"
| "after_join h k _ = Yield (Joining h k)"

text \<open>The body of \<^verbatim>\<open>timeout\<close>: the inner future first, then the timer; what is not ready is
  dropped with the race.\<close>

fun after_race_recv ::
  "nat \<Rightarrow> sleep_future option \<Rightarrow> ((node_id \<times> message) option \<Rightarrow> ('l, 'v) prog) \<Rightarrow> 'v env_resp \<Rightarrow> ('l, 'v) sut_future" where
  "after_race_recv d timer k (RespRecv (Some am) this) =
     (case timer of None \<Rightarrow> Running (k (Some am)) | Some f \<Rightarrow> DropTimer f (k (Some am)))"
| "after_race_recv d timer k (RespRecv None this) = TimerTurn d this timer k"
| "after_race_recv d timer k _ = TimerTurn d recv_start timer k"

fun after_race_sleep ::
  "recv_future \<Rightarrow> sleep_future \<Rightarrow> ((node_id \<times> message) option \<Rightarrow> ('l, 'v) prog) \<Rightarrow> 'v env_resp \<Rightarrow> ('l, 'v) sut_future" where
  "after_race_sleep r f k (RespSleep rdy this) = (if rdy then DropRecv r (k None) else Yield (Racing r this k))"
| "after_race_sleep r f k _ = Yield (Racing r f k)"

fun prog_step :: "('l, 'v) prog \<Rightarrow> (('l, 'v) sut_future, 'v) fut_step" where
  "prog_step (Return v) = StepReady v"
| "prog_step (Goto l) = StepPending (Running (Goto l))"
| "prog_step (Now k) = StepCall CallNow (after_now (\<lambda>t. Running (k t)))"
| "prog_step (Send dst msg p) = StepCall (CallSend dst msg) (\<lambda>_. Running p)"
| "prog_step (Recv k) = StepCall (CallRecvPoll recv_start) (after_recv k)"
| "prog_step (Sleep d p) = StepCall CallNow (after_now (\<lambda>t. Sleeping (sleep_until (time_saturating_add t d)) p))"
| "prog_step (TimedRecv d k) = StepCall (CallRecvPoll recv_start) (after_race_recv d None k)"
| "prog_step (WriteAt offset data p) = StepCall (CallWriteAt offset data) (\<lambda>_. Running p)"
| "prog_step (ReadAt offset buf k) =
     StepCall (CallReadAt offset buf) (\<lambda>r. case r of RespRead n out \<Rightarrow> Running (k n out) | _ \<Rightarrow> Running (k 0 buf))"
| "prog_step (Flush p) = StepCall CallFlush (\<lambda>_. Running p)"
| "prog_step (Len k) = StepCall CallLen (\<lambda>r. case r of RespLen n \<Rightarrow> Running (k n) | _ \<Rightarrow> Running (k 0))"
| "prog_step (Record event p) = StepCall (CallRecord event) (\<lambda>_. Running p)"
| "prog_step (SpawnTask child k) =
     StepCall (CallSpawn (Running child))
       (\<lambda>r. case r of RespHandle h \<Rightarrow> Running (k h) | _ \<Rightarrow> Running (SpawnTask child k))"
| "prog_step (Join h k) = StepCall (CallJoinPoll h) (after_join h k)"

text \<open>\<open>body\<close> gives the labels their loop bodies.\<close>

fun sut_step :: "('l \<Rightarrow> ('l, 'v) prog) \<Rightarrow> ('l, 'v) sut_future \<Rightarrow> (('l, 'v) sut_future, 'v) fut_step" where
  "sut_step body (Running p) = prog_step (case p of Goto l \<Rightarrow> body l | _ \<Rightarrow> p)"
| "sut_step body (Yield f) = StepPending f"
| "sut_step body (Receiving this k) = StepCall (CallRecvPoll this) (after_recv k)"
| "sut_step body (Sleeping this p) = StepCall (CallSleepPoll this) (after_sleep this p)"
| "sut_step body (Joining this k) = StepCall (CallJoinPoll this) (after_join this k)"
| "sut_step body (Racing r f k) = StepCall (CallRecvPoll r) (after_race_recv 0 (Some f) k)"
| "sut_step body (TimerTurn d r None k) =
     StepCall CallNow (after_now (\<lambda>t. TimerTurn d r (Some (sleep_until (time_saturating_add t d))) k))"
| "sut_step body (TimerTurn d r (Some f) k) = StepCall (CallSleepPoll f) (after_race_sleep r f k)"
| "sut_step body (DropTimer f p) = StepCall (CallSleepDrop f) (\<lambda>_. Running p)"
| "sut_step body (DropRecv r p) = StepCall (CallRecvDrop r) (\<lambda>_. Running p)"

subsection \<open>Text and bytes\<close>

definition bytes_of :: "string \<Rightarrow> message" where
  "bytes_of s = map of_char s"

text \<open>\<^verbatim>\<open>String::from_utf8_lossy\<close>, exact on ASCII bytes, which is all the programs of the
  repository send; another byte is shown as a question mark.\<close>

definition utf8_lossy :: "message \<Rightarrow> string" where
  "utf8_lossy msg = map (\<lambda>b. if b < 128 then char_of (unat b) else CHR ''?'') msg"

definition show_u32 :: "node_id \<Rightarrow> string" where
  "show_u32 n = show_nat (unat n)"

text \<open>A program without loops.\<close>

definition no_labels :: "unit \<Rightarrow> (unit, unit) prog" where
  "no_labels l = Return ()"

type_synonym plain_future = "(unit, unit) sut_future"

text \<open>The run of a script comes to rest, all tasks done, with this history.\<close>

definition quiesces_with ::
  "('l \<Rightarrow> ('l, 'v) prog) \<Rightarrow> ('l, 'v) sut_future world_op list \<Rightarrow> (('l, 'v) sut_future, 'v) inner \<Rightarrow> string list \<Rightarrow> bool" where
  "quiesces_with body ops w history =
     (case world_script (sut_step body) ops w of
        Some (Inr g) \<Rightarrow> in_history g = history \<and> in_tasks g = [] \<and> in_queue g = []
      | _ \<Rightarrow> False)"

subsection \<open>Polling a program\<close>

text \<open>What the poll of a future that makes a call amounts to, and the other cases.\<close>

lemma poll_fut_ready: "nx f = StepReady v \<Longrightarrow> poll_fut nx node f g = Some (Inr (PolledReady v, g))"
  by (simp add: poll_fut.simps)

lemma poll_fut_pending: "nx f = StepPending f' \<Longrightarrow> poll_fut nx node f g = Some (Inr (PolledPending f', g))"
  by (simp add: poll_fut.simps)

lemma poll_fut_call:
  "nx f = StepCall c k \<Longrightarrow> env_exec node c g = Inr (r, g') \<Longrightarrow> poll_fut nx node f g = poll_fut nx node (k r) g'"
  by (subst poll_fut.simps) simp

lemmas poll_fut_steps = poll_fut_ready poll_fut_pending poll_fut_call

subsection \<open>Evaluating a run\<close>

text \<open>One event of a run: the loops of \<^verbatim>\<open>pop_until_poll\<close> and \<^verbatim>\<open>World::run\<close> in one
  equation. Rewriting with it and with \<open>world_eval\<close> evaluates a run of concrete programs, with the values drawn
  from the tape left open.\<close>

lemma run_loop_event:
  "run_loop nx g =
     (case queue_pop (in_queue g) of
        None \<Rightarrow> Some (Inr g)
      | Some (e, q) \<Rightarrow>
          if over_budget (take_event e q g) then Some (Inr (take_event e q g))
          else case dispatch_event e (take_event e q g) of
                 (None, g2) \<Rightarrow> run_loop nx g2
               | (Some PopQuiesce, g2) \<Rightarrow> Some (Inr g2)
               | (Some PopAbort, g2) \<Rightarrow> Some (Inr g2)
               | (Some (PopRestart node), g2) \<Rightarrow> run_loop nx (restart_node node g2)
               | (Some (PopPoll task fut), g2) \<Rightarrow>
                   (case poll_box nx fut g2 of
                      None \<Rightarrow> None
                    | Some (Inl p) \<Rightarrow> Some (Inl p)
                    | Some (Inr (polled, g3)) \<Rightarrow> run_loop nx (finish_poll task polled g3)))"
proof (cases "queue_pop (in_queue g)")
  case None
  then show ?thesis by (simp add: run_loop.simps [of nx g] pop_until_poll.simps [of g])
next
  case (Some p)
  obtain e q where p: "p = (e, q)" by (cases p)
  obtain r g2 where d: "dispatch_event e (take_event e q g) = (r, g2)" by (cases "dispatch_event e (take_event e q g)")
  have pop: "pop_until_poll g = (if over_budget (take_event e q g) then (PopAbort, take_event e q g)
      else case r of Some r' \<Rightarrow> (r', g2) | None \<Rightarrow> pop_until_poll g2)"
    using Some p d by (simp add: pop_until_poll.simps [of g] Let_def split: option.split)
  show ?thesis
  proof (cases r)
    case None
    then show ?thesis using Some p d pop run_loop.simps [of nx g] run_loop.simps [of nx g2] by simp
  next
    case (Some r')
    then show ?thesis using \<open>queue_pop (in_queue g) = Some p\<close> p d pop run_loop.simps [of nx g]
      by (cases r') simp_all
  qed
qed

lemma clamp_u64_unat: "clamp_u64 (int (unat n)) = n" and clamp_u64_uint: "clamp_u64 (uint n) = n"
proof -
  have "int (unat n) \<le> int u64_max" using unat_u64_le_max [of n] by (simp only: of_nat_le_iff)
  then have "uint n \<le> int u64_max" by simp
  then show "clamp_u64 (uint n) = n" by (simp add: clamp_u64_def)
  then show "clamp_u64 (int (unat n)) = n" by simp
qed

lemma local_now_plain:
  "clock_skew node g = 0 \<Longrightarrow> local_now node g =
     (let last = btm_get_or time_zero (in_last_local_now g) node; last' = (if last < in_now g then in_now g else last)
      in (last', g\<lparr>in_last_local_now := btm_insert node last' (in_last_local_now g)\<rparr>))"
  by (simp add: local_now_def clamp_u64_uint Let_def)

lemma global_deadline_plain:
  "clock_skew node g = 0 \<Longrightarrow> global_from_local_deadline node t g = max t (in_now g)"
  by (simp add: global_from_local_deadline_def clamp_u64_uint)

lemma tape_draw_parts:
  "tape_draw lab g = (fst (draw lab (in_tape g)), g\<lparr>in_tape := snd (draw lab (in_tape g))\<rparr>)"
  by (simp add: tape_draw_def split_beta)

text \<open>A network delay is between 1 and 100 milliseconds; a duration below 2^64 nanoseconds is itself.\<close>

lemma plus_millis:
  assumes "unat t + ms * 1000000 \<le> u64_max"
  shows "unat (time_saturating_add t (duration_from_millis ms)) = unat t + ms * 1000000"
  using assms by (simp add: unat_time_saturating_add duration_from_millis_def)

lemma tasks_of_node_list:
  "tasks_of_node node g = set (map fst (filter (\<lambda>e. ts_node (snd e) = node) (in_tasks g)))"
  by (auto simp: tasks_of_node_def)

lemmas page_eval = ps_len_def ps_write_at_def apply_bytes_def ps_flush_def ps_read_at_def ps_crash_recover_def
  page_store_default_def isize_max_def

lemmas script_eval = add_node_factory_def register_node_def spawn_registered_node_def world_from_tape_def
  with_connectivity_def with_faults_def fault_config_default_def cm_new_def cm_add_node_def add_task_def
  add_nodes_def apply_nemesis_def log_nemesis_def

lemmas queue_eval = enqueue_poll_now_def push_event_def keyed_less_def take_event_def over_budget_def queue_filter_def

lemmas dispatch_eval = dispatch_event_def dispatch_poll_def dispatch_timer_def dispatch_deliver_def draw_percent_def
  tape_draw_parts count_dispatch_def deliver_to_inbox_def is_connected_def dispatch_nemesis_def poll_box_def
  poll_fut.simps finish_poll_def restart_node_def restart_node_outcome_def crash_node_def crash_storage_def
  tasks_of_node_list drop_joiners_def bit_rot_storage_def

lemmas env_eval = recv_poll_def register_recv_waiter_def unregister_recv_waiter_def sleep_poll_def recv_start_def
  local_now_plain global_deadline_plain clock_skew_def register_timer_def cancel_timer_def net_send_def
  draw_net_delay_ms_def sleep_until_def time_zero_def recv_drop_def env_record_def storage_len_def
  storage_write_at_def storage_read_at_def storage_flush_def set_store_def

lemmas map_eval = btm_contains_def btm_get_or_def btm_remove_def btm_retain_def btm_map_values_def

lemmas world_eval = script_eval queue_eval dispatch_eval env_eval map_eval Let_def

end
