(* ===== verification/Scenarios.thy ===== *)
theory Scenarios
  imports Async_Program
begin

section \<open>The reference scenarios\<close>

text \<open>
  Models \<^verbatim>\<open>crates/detersim-sim/src/scenarios.rs\<close>: each world is the list of calls its function makes
  after it has built the world, \<^verbatim>\<open>run()\<close> last, and each node's \<^verbatim>\<open>async\<close> block is a \<open>prog\<close>.
  A bounded \<^verbatim>\<open>for\<close> loop is a fold over its range. Storage calls return \<^verbatim>\<open>Ok\<close> in the
  simulator, so \<^verbatim>\<open>expect\<close> adds no branch. Left out: \<^verbatim>\<open>spawn_demo_world\<close>, whose node may
  panic in an assertion.
\<close>

subsection \<open>Ping-pong and gossip\<close>

definition pingpong_rounds :: nat where
  "pingpong_rounds = 4"

definition pingpong_zero :: "(unit, unit) prog" where
  "pingpong_zero =
     Send 1 (bytes_of ''ping 0'')
       (foldr (\<lambda>r rest. Recv (\<lambda>_ _. Sleep (duration_from_millis 10)
            (if r + 1 < pingpong_rounds then Send 1 (bytes_of (''ping '' @ show_nat (r + 1))) rest else rest)))
          [0..<pingpong_rounds] (Return ()))"

definition pingpong_one :: "(unit, unit) prog" where
  "pingpong_one =
     foldr (\<lambda>r rest. Recv (\<lambda>src _. Sleep (duration_from_millis 5)
          (Send src (bytes_of (''pong '' @ show_nat r)) rest)))
       [0..<pingpong_rounds] (Return ())"

definition run_pingpong :: "plain_future world_op list" where
  "run_pingpong = [OpAddNode 0 (\<lambda>_. Running pingpong_zero), OpAddNode 1 (\<lambda>_. Running pingpong_one), OpRun]"

definition gossip_node :: "node_id \<Rightarrow> node_id \<Rightarrow> (unit, unit) prog" where
  "gossip_node nodes me =
     (let peers = map of_nat [1..<unat nodes]
      in if me = 0
         then foldr (\<lambda>peer rest. Send peer (bytes_of (''hello '' @ show_u32 peer)) rest) peers
                (foldr (\<lambda>_ rest. Recv (\<lambda>src msg. Record (''reply:'' @ show_u32 src @ '':'' @ utf8_lossy msg) rest)) peers
                   (Return ()))
         else Recv (\<lambda>src msg. Record (''seen:'' @ show_u32 me @ '':'' @ utf8_lossy msg)
                (Send src (bytes_of (''ack '' @ show_u32 me)) (Return ()))))"

definition gossip_world :: "node_id \<Rightarrow> plain_future world_op list" where
  "gossip_world nodes = [OpAddNodes nodes (\<lambda>me. Running (gossip_node nodes me)), OpRun]"

subsection \<open>Timeouts\<close>

definition timeout_node :: "(unit, unit) prog" where
  "timeout_node = TimedRecv (duration_from_millis 10) (\<lambda>result.
     case result of None \<Rightarrow> Record ''timeout'' (Return ()) | Some _ \<Rightarrow> Return ())"

definition timeout_world :: "plain_future world_op list" where
  "timeout_world = [OpAddNode 0 (\<lambda>_. Running timeout_node), OpRun]"

definition timeout_cancel_node :: "(unit, unit) prog" where
  "timeout_cancel_node = TimedRecv (duration_from_millis 200) (\<lambda>result.
     let rest = Sleep (duration_from_millis 250) (Record ''done'' (Return ()))
     in case result of
          Some (src, msg) \<Rightarrow> Record (''got:'' @ show_u32 src @ '':'' @ utf8_lossy msg) rest
        | None \<Rightarrow> rest)"

definition timeout_cancel_world :: "plain_future world_op list" where
  "timeout_cancel_world =
     [OpAddNode 0 (\<lambda>_. Running timeout_cancel_node),
      OpAddNode 1 (\<lambda>_. Running (Send 0 (bytes_of ''fast'') (Return ()))), OpRun]"

definition dual_leader_node :: "node_id \<Rightarrow> (unit, unit) prog" where
  "dual_leader_node me =
     Send (1 - me) (bytes_of ''heartbeat'')
       (TimedRecv (duration_from_millis 30) (\<lambda>result.
          case result of None \<Rightarrow> Record (''leader:'' @ show_u32 me) (Return ()) | Some _ \<Rightarrow> Return ()))"

definition partitioned_dual_leader_world :: "plain_future world_op list" where
  "partitioned_dual_leader_world =
     [OpAddNodes 2 (\<lambda>me. Running (dual_leader_node me)), OpPartition [[0], [1]], OpRun]"

subsection \<open>Storage\<close>

text \<open>The first four bytes read, as the code cuts them out of its buffer.\<close>

definition wal_node :: "bool \<Rightarrow> (unit, unit) prog" where
  "wal_node flush_before_ack =
     Len (\<lambda>len.
       if len = 0
       then WriteAt 0 (bytes_of ''OKAY'')
              (let ack = Record ''ack'' (Sleep (duration_from_millis 100) (Return ()))
               in if flush_before_ack then Flush ack else ack)
       else ReadAt 0 [0, 0, 0, 0] (\<lambda>n buf. Record (''recovered:'' @ utf8_lossy (take n buf)) (Return ())))"

definition wal_recovery_world :: "bool \<Rightarrow> plain_future world_op list" where
  "wal_recovery_world flush_before_ack =
     [OpScheduleNemesis time_zero (LostOnCrash 0), OpScheduleNemesis 1000000 (Crash 0),
      OpScheduleNemesis 2000000 (Restart 0), OpAddNode 0 (\<lambda>_. Running (wal_node flush_before_ack)), OpRun]"

definition bitrot_node :: "(unit, unit) prog" where
  "bitrot_node =
     Len (\<lambda>len.
       if len = 0
       then WriteAt 0 (bytes_of ''OKAY'') (Flush (Record ''stored'' (Sleep (duration_from_millis 100) (Return ()))))
       else ReadAt 0 [0, 0, 0, 0] (\<lambda>n buf.
              if take n buf = bytes_of ''OKAY'' then Record ''checksum:ok'' (Return ())
              else Record ''checksum:bad'' (Return ())))"

definition bitrot_wal_world :: "plain_future world_op list" where
  "bitrot_wal_world =
     [OpScheduleNemesis 1000000 (BitRot 0), OpScheduleNemesis 2000000 (Crash 0),
      OpScheduleNemesis 3000000 (Restart 0), OpAddNode 0 (\<lambda>_. Running bitrot_node), OpRun]"

subsection \<open>Replication\<close>

text \<open>The loop that counts the acknowledgements carries their number.\<close>

definition toy_raft_body :: "nat \<Rightarrow> (nat, unit) prog" where
  "toy_raft_body acks =
     (if acks < 2
      then Recv (\<lambda>_ msg. Goto (if msg = bytes_of ''ack:x=1'' then acks + 1 else acks))
      else Record ''raft:commit:x=1'' (Return ()))"

definition toy_raft_node :: "node_id \<Rightarrow> (nat, unit) prog" where
  "toy_raft_node me =
     (if me = 0
      then Send 1 (bytes_of ''append:x=1'') (Send 2 (bytes_of ''append:x=1'') (Goto 0))
      else Recv (\<lambda>leader msg.
             if msg = bytes_of ''append:x=1''
             then Record (''raft:append:'' @ show_u32 me @ '':x=1'') (Send leader (bytes_of ''ack:x=1'') (Return ()))
             else Return ()))"

definition toy_raft_world :: "(nat, unit) sut_future world_op list" where
  "toy_raft_world = [OpAddNodes 3 (\<lambda>me. Running (toy_raft_node me)), OpRun]"

subsection \<open>Runs of the storage scenarios\<close>

lemma wal_times:
  "time_saturating_add 0 (duration_from_millis 100) = 100000000"
  "time_saturating_add 2000000 (duration_from_millis 100) = 102000000"
  "time_saturating_add 3000000 (duration_from_millis 100) = 103000000"
  "time_saturating_add 0 (duration_from_millis 10) = 10000000"
  by (simp_all add: time_saturating_add_def duration_from_millis_def u64_saturating_add_def Let_def u64_max_def)

lemma wal_bytes: "bytes_of ''OKAY'' = [0x4F, 0x4B, 0x41, 0x59]"
  by (simp add: bytes_of_def)

lemma wal_text: "utf8_lossy [0x4F, 0x4B, 0x41, 0x59] = ''OKAY''" "show_nat 0 = ''0''"
  by (simp_all add: utf8_lossy_def char_of_def bit_0 show_nat.simps digit_char_def)

lemma wal_recovery_flushed:
  "quiesces_with no_labels (wal_recovery_world True) (world_from_tape seed world_config_default tape)
     [''ack'', ''restart:0:restarted'', ''recovered:OKAY'']"
  by (simp add: quiesces_with_def wal_recovery_world_def world_config_default_def world_eval)
    ((subst run_loop_event, simp add: world_eval page_eval wal_node_def wal_times wal_bytes wal_text)+)

lemma wal_recovery_unflushed:
  "quiesces_with no_labels (wal_recovery_world False) (world_from_tape seed world_config_default tape)
     [''ack'', ''restart:0:restarted'', ''ack'']"
  by (simp add: quiesces_with_def wal_recovery_world_def world_config_default_def world_eval)
    ((subst run_loop_event, simp add: world_eval page_eval wal_node_def wal_times wal_bytes wal_text)+)

lemma bitrot_detected:
  "quiesces_with no_labels bitrot_wal_world (world_from_tape seed world_config_default tape)
     [''stored'', ''restart:0:restarted'', ''checksum:bad'']"
  by (simp add: quiesces_with_def bitrot_wal_world_def world_config_default_def world_eval)
    ((subst run_loop_event, simp add: world_eval page_eval bitrot_node_def wal_times wal_bytes wal_text)+)

lemma timeout_times_out:
  "quiesces_with no_labels timeout_world (world_from_tape seed world_config_default tape) [''timeout'']"
  by (simp add: quiesces_with_def timeout_world_def world_config_default_def world_eval)
    ((subst run_loop_event, simp add: world_eval timeout_node_def wal_times)+)

text \<open>C25. What the write-ahead-log scenario is for: whatever the seed and the tape, a node that flushes before it
  acknowledges recovers its record after the crash, and a node that does not finds an empty log and acknowledges
  again; the run comes to rest with no task and no event left.
\<close>

theorem wal_survives_iff_flushed:
  "quiesces_with no_labels (wal_recovery_world flush_before_ack) (world_from_tape seed world_config_default tape)
     [''ack'', ''restart:0:restarted'', if flush_before_ack then ''recovered:OKAY'' else ''ack'']"
  by (cases flush_before_ack) (simp_all add: wal_recovery_flushed wal_recovery_unflushed)

end
