(* ===== verification/Kv_Protocol.thy ===== *)
theory Kv_Protocol
  imports Scenarios Protocol_History Run_Report
begin

section \<open>The primary-backup key-value protocol\<close>

text \<open>
  Models \<^verbatim>\<open>crates/detersim-protocols/src/primary_backup_kv.rs\<close> and the key-value workloads of
  \<^verbatim>\<open>client.rs\<close> as programs over \<^verbatim>\<open>Env\<close>. An \<^verbatim>\<open>async fn\<close> that returns
  a value takes the rest of its caller as a function. The labels are the loops: the three servers, and the loop of
  \<^verbatim>\<open>wait_for_acks\<close> with its two counters and what its caller does afterwards.
\<close>

subsection \<open>Configuration\<close>

datatype kv_bug_variant =
    KvCorrect
  | AckBeforeReplicate
  | ReadFromStaleFollower
  | LostUpdate
  | DuplicateRequestReapplied
  | FollowerAppliesUncommitted
  | QuorumCountOffByOne

record kv_config =
  kc_bug :: kv_bug_variant

definition kv_config_correct :: kv_config where
  "kv_config_correct = \<lparr>kc_bug = KvCorrect\<rparr>"

definition kv_config_with_bug :: "kv_bug_variant \<Rightarrow> kv_config" where
  "kv_config_with_bug bug = \<lparr>kc_bug = bug\<rparr>"

datatype kv_after_acks =
    AckThenStop node_id
  | AckThenServe node_id

datatype kv_label =
    ServePrimary
  | ServeFollower "i32 option"
  | ServeLog "string list"
  | WaitAcks nat nat kv_after_acks

type_synonym kv_prog = "(kv_label, unit) prog"

subsection \<open>Servers\<close>

definition kv_ok :: message where
  "kv_ok = bytes_of ''ok''"

definition replicate_msg :: "i32 \<Rightarrow> message" where
  "replicate_msg v = bytes_of (''replicate:'' @ show_i32 v)"

fun wait_for_acks :: "nat \<Rightarrow> nat \<Rightarrow> kv_after_acks \<Rightarrow> kv_prog" where
  "wait_for_acks acks needed_acks after =
     (if acks < needed_acks
      then Recv (\<lambda>_ msg. Goto (WaitAcks (if msg = bytes_of ''ack'' then acks + 1 else acks) needed_acks after))
      else case after of
             AckThenStop client \<Rightarrow> Send client kv_ok (Return ())
           | AckThenServe client \<Rightarrow> Send client kv_ok (Goto ServePrimary))"

definition replicate_to_quorum :: "i32 \<Rightarrow> nat \<Rightarrow> kv_after_acks \<Rightarrow> kv_prog" where
  "replicate_to_quorum v needed_acks after =
     Send 1 (replicate_msg v) (Send 2 (replicate_msg v) (Goto (WaitAcks 0 needed_acks after)))"

definition replicate_to_node :: "node_id \<Rightarrow> i32 \<Rightarrow> kv_after_acks \<Rightarrow> kv_prog" where
  "replicate_to_node node v after = Send node (replicate_msg v) (Goto (WaitAcks 0 1 after))"

definition primary_put :: "kv_bug_variant \<Rightarrow> node_id \<Rightarrow> kv_prog" where
  "primary_put bug client =
     (case bug of
        KvCorrect \<Rightarrow> replicate_to_quorum 7 2 (AckThenStop client)
      | AckBeforeReplicate \<Rightarrow>
          Send 1 (bytes_of ''replicate:7'') (Send 2 (bytes_of ''replicate:7'') (Send client kv_ok (Return ())))
      | ReadFromStaleFollower \<Rightarrow> replicate_to_node 2 7 (AckThenStop client)
      | LostUpdate \<Rightarrow> replicate_to_node 1 7 (AckThenServe client)
      | FollowerAppliesUncommitted \<Rightarrow> Send 1 (bytes_of ''replicate-uncommitted:7'') (Goto ServePrimary)
      | QuorumCountOffByOne \<Rightarrow> replicate_to_node 2 7 (AckThenStop client)
      | DuplicateRequestReapplied \<Rightarrow> Goto ServePrimary)"

definition primary_handle :: "kv_bug_variant \<Rightarrow> node_id \<Rightarrow> message \<Rightarrow> kv_prog" where
  "primary_handle bug client msg =
     (if msg = bytes_of ''put:7'' then primary_put bug client
      else if msg = bytes_of ''put:9'' \<and> bug = LostUpdate then replicate_to_node 2 9 (AckThenStop client)
      else Goto ServePrimary)"

definition follower_handle :: "i32 option \<Rightarrow> node_id \<Rightarrow> message \<Rightarrow> kv_prog" where
  "follower_handle v src msg =
     (if msg = bytes_of ''replicate:7'' then Send src (bytes_of ''ack'') (Goto (ServeFollower (Some 7)))
      else if msg = bytes_of ''replicate:9'' then Send src (bytes_of ''ack'') (Goto (ServeFollower (Some 9)))
      else if msg = bytes_of ''replicate-uncommitted:7'' then Goto (ServeFollower (Some 7))
      else if msg = bytes_of ''get'' then Send src (bytes_of (kv_value_msg v)) (Return ())
      else if msg = bytes_of ''stop'' then Return ()
      else Goto (ServeFollower v))"

definition log_handle :: "kv_bug_variant \<Rightarrow> string list \<Rightarrow> node_id \<Rightarrow> message \<Rightarrow> kv_prog" where
  "log_handle bug entries client msg =
     (if msg = bytes_of ''append:x''
      then let index = length entries;
               entries = entries @ [''x''];
               entries = (if bug = DuplicateRequestReapplied then entries @ [''x''] else entries)
           in Send client (bytes_of (''index:'' @ show_nat index)) (Goto (ServeLog entries))
      else if msg = bytes_of ''read_all'' then Send client (bytes_of (join_with '','' entries)) (Return ())
      else Goto (ServeLog entries))"

fun kv_body :: "kv_bug_variant \<Rightarrow> kv_label \<Rightarrow> kv_prog" where
  "kv_body bug ServePrimary = Recv (primary_handle bug)"
| "kv_body bug (ServeFollower v) = Recv (follower_handle v)"
| "kv_body bug (ServeLog entries) = Recv (log_handle bug entries)"
| "kv_body bug (WaitAcks acks needed_acks after) = wait_for_acks acks needed_acks after"

definition run_primary :: "kv_config \<Rightarrow> kv_prog" where
  "run_primary config = (if kc_bug config = DuplicateRequestReapplied then Goto (ServeLog []) else Goto ServePrimary)"

definition run_primary_backup_kv :: "kv_config \<Rightarrow> node_id \<Rightarrow> kv_prog" where
  "run_primary_backup_kv config node =
     (if node = 0 then run_primary config
      else if node = 1 \<or> node = 2 then Goto (ServeFollower None)
      else Return ())"

subsection \<open>Clients\<close>

datatype client_op =
    OpPut i32
  | OpGet node_id
  | OpAppend string
  | OpReadAll

definition parse_index :: "string \<Rightarrow> nat option" where
  "parse_index value = strip_prefix ''index:'' value \<bind> parse_unsigned u64_max"

text \<open>\<^verbatim>\<open>if ack == b"ok" { ops.push(..) }\<close>, with the time of completion.\<close>

definition put_if_ok ::
  "u64 \<Rightarrow> node_id \<Rightarrow> i32 \<Rightarrow> sim_time \<Rightarrow> recorded_op list \<Rightarrow> message \<Rightarrow> (recorded_op list \<Rightarrow> ('l, 'v) prog) \<Rightarrow> ('l, 'v) prog" where
  "put_if_ok id0 node v invoked ops ack k =
     (if ack = bytes_of ''ok'' then Now (\<lambda>returned. k (ops @ [RecKvPut id0 node v invoked returned])) else k ops)"

definition single_key_read ::
  "kv_bug_variant \<Rightarrow> node_id \<Rightarrow> recorded_op list \<Rightarrow> (recorded_op list \<Rightarrow> ('l, 'v) prog) \<Rightarrow> ('l, 'v) prog" where
  "single_key_read bug node ops k =
     (let read_id = (if bug = LostUpdate then 3 else 2)
      in Now (\<lambda>invoked. Send 1 (bytes_of ''get'') (Recv (\<lambda>_ msg. Now (\<lambda>returned.
           let ops = ops @ [RecKvGet read_id node (parse_optional_i32 (utf8_lossy msg)) invoked returned]
           in Send 1 (bytes_of ''stop'') (Send 2 (bytes_of ''stop'') (k ops)))))))"

definition single_key_client ::
  "kv_bug_variant \<Rightarrow> node_id \<Rightarrow> (recorded_op list \<Rightarrow> ('l, 'v) prog) \<Rightarrow> ('l, 'v) prog" where
  "single_key_client bug node k =
     Now (\<lambda>invoked. Send 0 (bytes_of ''put:7'') (Recv (\<lambda>_ ack. put_if_ok 1 node 7 invoked [] ack (\<lambda>ops.
       if bug = LostUpdate
       then Now (\<lambda>invoked. Send 0 (bytes_of ''put:9'') (Recv (\<lambda>_ ack. put_if_ok 2 node 9 invoked ops ack (\<lambda>ops.
              single_key_read bug node ops k))))
       else single_key_read bug node ops k))))"

definition uncommitted_follower_client ::
  "node_id \<Rightarrow> (recorded_op list \<Rightarrow> ('l, 'v) prog) \<Rightarrow> ('l, 'v) prog" where
  "uncommitted_follower_client node k =
     Send 0 (bytes_of ''put:7'') (Sleep (duration_from_millis 250) (Now (\<lambda>invoked.
       Send 1 (bytes_of ''get'') (Recv (\<lambda>_ msg. Now (\<lambda>returned.
         k [RecKvGet 2 node (parse_optional_i32 (utf8_lossy msg)) invoked returned]))))))"

definition append_log_client :: "node_id \<Rightarrow> (recorded_op list \<Rightarrow> ('l, 'v) prog) \<Rightarrow> ('l, 'v) prog" where
  "append_log_client node k =
     Now (\<lambda>invoked. Send 0 (bytes_of ''append:x'') (Recv (\<lambda>_ msg.
       let index = (case parse_index (utf8_lossy msg) of None \<Rightarrow> 0 | Some i \<Rightarrow> i)
       in Now (\<lambda>returned.
         let ops = [RecLogAppend 1 node ''x'' index invoked returned]
         in Now (\<lambda>invoked. Send 0 (bytes_of ''read_all'') (Recv (\<lambda>_ msg. Now (\<lambda>returned.
              k (ops @ [RecLogRead 2 node (parse_entries (utf8_lossy msg)) invoked returned])))))))))"

definition run_primary_backup_kv_client ::
  "kv_config \<Rightarrow> node_id \<Rightarrow> (recorded_op list \<Rightarrow> ('l, 'v) prog) \<Rightarrow> ('l, 'v) prog" where
  "run_primary_backup_kv_client config node k =
     (case kc_bug config of
        DuplicateRequestReapplied \<Rightarrow> append_log_client node k
      | FollowerAppliesUncommitted \<Rightarrow> uncommitted_follower_client node k
      | bug \<Rightarrow> single_key_client bug node k)"

text \<open>\<^verbatim>\<open>for op in ops { env.record(op.to_history_line()) }\<close>\<close>

definition record_ops :: "recorded_op list \<Rightarrow> ('l, unit) prog" where
  "record_ops ops = foldr (\<lambda>op rest. Record (to_history_line op) rest) ops (Return ())"

subsection \<open>Texts of the protocol\<close>

lemma bytes_of_inject [simp]: "bytes_of a = bytes_of b \<longleftrightarrow> a = b"
proof -
  have "inj (of_char :: char \<Rightarrow> u8)"
  proof (rule injI)
    fix c d :: char
    assume "(of_char c :: u8) = of_char d"
    then have "(of_nat (of_char c) :: u8) = of_nat (of_char d)" by (simp add: of_nat_of_char)
    then have "unat (of_nat (of_char c) :: u8) = unat (of_nat (of_char d) :: u8)" by simp
    then have "(of_char c :: nat) mod 256 = of_char d mod 256" by (simp add: unsigned_of_nat take_bit_eq_mod)
    then show "c = d" by simp
  qed
  then show ?thesis by (simp add: bytes_of_def inj_map_eq_map)
qed

lemma kv_texts:
  "show_i32 7 = ''7''" "kv_value_msg (Some 7) = ''7''" "utf8_lossy (bytes_of ''7'') = ''7''"
  "parse_optional_i32 ''7'' = Some 7"
proof -
  show seven: "show_i32 7 = ''7''" by (simp add: show_i32_def show_nat.simps digit_char_def)
  then show "kv_value_msg (Some 7) = ''7''" by (simp add: kv_value_msg_def)
  show "utf8_lossy (bytes_of ''7'') = ''7''" by (simp add: bytes_of_def utf8_lossy_def char_of_def bit_0)
  show "parse_optional_i32 ''7'' = Some 7" using parse_show_i32 [of 7] seven by (simp add: parse_optional_i32_def)
qed

end
