(* ===== verification/Mini_Raft.thy ===== *)
theory Mini_Raft
  imports Kv_Protocol
begin

section \<open>The Raft-shaped reference protocol\<close>

text \<open>
  Models \<^verbatim>\<open>crates/detersim-protocols/src/mini_raft.rs\<close> and the Mini-Raft workloads of
  \<^verbatim>\<open>client.rs\<close>. The labels are the loops: the leader and the follower with their value, the
  leader's \<^verbatim>\<open>wait_for_acks\<close>, and the observer's \<^verbatim>\<open>collect_protocol_events\<close>,
  whose only caller records what was collected. Storage calls return \<^verbatim>\<open>Ok\<close> in the
  simulator.
\<close>

definition raft_observer_node :: node_id where
  "raft_observer_node = 9"

datatype raft_bug_variant =
    RaftCorrect
  | TermNotPersisted
  | VoteNotPersisted
  | WrongCommitRule
  | WrongLogMatching
  | DualLeaderUnderPartition
  | FollowerStaleRead
  | DuplicateClientRequest
  | ApplyBeforeCommit
  | OldTermLeaderCommitsEntry

datatype raft_invariant =
    SingleLeaderPerTerm
  | CommittedEntriesNotLost
  | AppliedIndexNotPastCommit
  | VotedOncePerTerm

fun raft_invariant_label :: "raft_invariant \<Rightarrow> string" where
  "raft_invariant_label SingleLeaderPerTerm = ''raft-invariant:single-leader-per-term''"
| "raft_invariant_label CommittedEntriesNotLost = ''raft-invariant:committed-entries-not-lost''"
| "raft_invariant_label AppliedIndexNotPastCommit = ''raft-invariant:applied-index-not-past-commit''"
| "raft_invariant_label VotedOncePerTerm = ''raft-invariant:voted-once-per-term''"

record raft_invariant_event =
  rie_invariant :: raft_invariant
  rie_label :: string

definition raft_invariant_event_new :: "raft_invariant \<Rightarrow> raft_invariant_event" where
  "raft_invariant_event_new i = \<lparr>rie_invariant = i, rie_label = raft_invariant_label i\<rparr>"

datatype raft_observation =
    ObservedClientOp recorded_op
  | ObservedInvariant raft_invariant_event
  | ObservedLabel string

subsection \<open>Checker-readable histories\<close>

record raft_client_history =
  rch_variant :: raft_bug_variant
  rch_model :: string
  rch_ops :: "recorded_op list"

definition raft_kv_put :: "u64 \<Rightarrow> i32 \<Rightarrow> u64 \<Rightarrow> u64 \<Rightarrow> recorded_op" where
  "raft_kv_put id0 v invoked returned = RecKvPut id0 4 v invoked returned"

definition raft_kv_get :: "u64 \<Rightarrow> i32 option \<Rightarrow> u64 \<Rightarrow> u64 \<Rightarrow> recorded_op" where
  "raft_kv_get id0 v invoked returned = RecKvGet id0 4 v invoked returned"

fun checker_backed :: "raft_bug_variant \<Rightarrow> raft_client_history option" where
  "checker_backed variant =
     (let kv = (\<lambda>ops. Some \<lparr>rch_variant = variant, rch_model = ''single-key-kv'', rch_ops = ops\<rparr>)
      in case variant of
           RaftCorrect \<Rightarrow> kv [raft_kv_put 1 1 0 1, raft_kv_get 2 (Some 1) 2 3]
         | DuplicateClientRequest \<Rightarrow>
             Some \<lparr>rch_variant = variant, rch_model = ''append-only-log'',
                   rch_ops = [RecLogAppend 1 4 ''x'' 0 0 1, RecLogRead 2 4 [''x'', ''x''] 2 3]\<rparr>
         | TermNotPersisted \<Rightarrow> None
         | VoteNotPersisted \<Rightarrow> None
         | DualLeaderUnderPartition \<Rightarrow> None
         | _ \<Rightarrow> kv [raft_kv_put 1 1 0 1, raft_kv_get 2 None 2 3])"

definition history_lines :: "raft_client_history \<Rightarrow> string list" where
  "history_lines h = map to_history_line (rch_ops h)"

text \<open>\<^verbatim>\<open>checker_backed(variant).map(|history| history.ops)\<close> with its default.\<close>

definition checker_backed_ops :: "raft_bug_variant \<Rightarrow> recorded_op list \<Rightarrow> recorded_op list" where
  "checker_backed_ops variant ops = (case checker_backed variant of None \<Rightarrow> ops | Some h \<Rightarrow> rch_ops h)"

subsection \<open>Configuration\<close>

record mini_raft_config =
  rc_bug :: raft_bug_variant
  rc_persistence_probe :: bool

definition mini_raft_correct :: mini_raft_config where
  "mini_raft_correct = \<lparr>rc_bug = RaftCorrect, rc_persistence_probe = False\<rparr>"

definition mini_raft_with_bug :: "raft_bug_variant \<Rightarrow> mini_raft_config" where
  "mini_raft_with_bug bug = \<lparr>rc_bug = bug, rc_persistence_probe = False\<rparr>"

definition mini_raft_persistence_probe :: "raft_bug_variant \<Rightarrow> mini_raft_config" where
  "mini_raft_persistence_probe bug = \<lparr>rc_bug = bug, rc_persistence_probe = True\<rparr>"

datatype raft_label =
    ServeLeader "string option"
  | ServeReplica "string option"
  | LeaderWaitAcks nat nat node_id
  | CollectEvents nat "string list"

type_synonym raft_prog = "(raft_label, unit) prog"

subsection \<open>Leaders and followers\<close>

definition notify_observer :: "string \<Rightarrow> ('l, 'v) prog \<Rightarrow> ('l, 'v) prog" where
  "notify_observer lab p = Send raft_observer_node (bytes_of lab) p"

definition raft_value_msg :: "string option \<Rightarrow> message" where
  "raft_value_msg v = (if v = Some ''x'' then bytes_of ''value:x'' else bytes_of ''value:none'')"

definition stop_replicas :: "raft_prog \<Rightarrow> raft_prog" where
  "stop_replicas p = Send 1 (bytes_of ''stop'') (Send 2 (bytes_of ''stop'') p)"

definition leader_handle :: "string option \<Rightarrow> node_id \<Rightarrow> message \<Rightarrow> raft_prog" where
  "leader_handle v client msg =
     (if msg = bytes_of ''client-write:x''
      then Send 1 (bytes_of ''append:x'') (Send 2 (bytes_of ''append:x'') (Goto (LeaderWaitAcks 0 2 client)))
      else if msg = bytes_of ''client-read''
      then Send client (raft_value_msg v) (stop_replicas (Return ()))
      else Goto (ServeLeader v))"

definition leader_wait_acks :: "nat \<Rightarrow> nat \<Rightarrow> node_id \<Rightarrow> raft_prog" where
  "leader_wait_acks acks needed_acks client =
     (if acks < needed_acks
      then Recv (\<lambda>_ msg. Goto (LeaderWaitAcks (if msg = bytes_of ''ack'' then acks + 1 else acks) needed_acks client))
      else Send client (bytes_of ''ok'') (Goto (ServeLeader (Some ''x''))))"

definition replica_handle :: "string option \<Rightarrow> node_id \<Rightarrow> message \<Rightarrow> raft_prog" where
  "replica_handle v src msg =
     (if msg = bytes_of ''append:x'' then Send src (bytes_of ''ack'') (Goto (ServeReplica (Some ''x'')))
      else if msg = bytes_of ''read'' then Send src (raft_value_msg v) (Return ())
      else if msg = bytes_of ''stop'' then Return ()
      else Goto (ServeReplica v))"

definition collect_protocol_events :: "nat \<Rightarrow> string list \<Rightarrow> raft_prog" where
  "collect_protocol_events expected events =
     (if length events < expected
      then Recv (\<lambda>_ msg. Goto (CollectEvents expected (events @ [utf8_lossy msg])))
      else foldr (\<lambda>lab rest. Record lab rest) events (Return ()))"

fun raft_body :: "raft_label \<Rightarrow> raft_prog" where
  "raft_body (ServeLeader v) = Recv (leader_handle v)"
| "raft_body (ServeReplica v) = Recv (replica_handle v)"
| "raft_body (LeaderWaitAcks acks needed_acks client) = leader_wait_acks acks needed_acks client"
| "raft_body (CollectEvents expected events) = collect_protocol_events expected events"

definition run_client_visible_bug_leader :: raft_prog where
  "run_client_visible_bug_leader =
     (let second = Recv (\<lambda>client msg.
            if msg = bytes_of ''client-read'' \<or> msg = bytes_of ''read''
            then Send client (bytes_of ''value:none'') (stop_replicas (Return ())) else Return ())
      in Recv (\<lambda>client msg.
           if msg = bytes_of ''client-write:x'' \<or> msg = bytes_of ''write:x''
           then Send client (bytes_of ''ok'') second else second))"

definition run_leader_for_stale_read :: raft_prog where
  "run_leader_for_stale_read =
     Recv (\<lambda>client msg. if msg = bytes_of ''write:x''
       then Send 2 (bytes_of ''append:x'') (Recv (\<lambda>_ _. Send client (bytes_of ''ok'') (Return ())))
       else Return ())"

primrec duplicate_request_rounds :: "nat \<Rightarrow> nat \<Rightarrow> raft_prog" where
  "duplicate_request_rounds 0 applied = Return ()"
| "duplicate_request_rounds (Suc rounds) applied = Recv (\<lambda>client msg.
     if msg = bytes_of ''client:req-1:append:x''
     then Send client (bytes_of (''applied:'' @ show_nat (applied + 1))) (duplicate_request_rounds rounds (applied + 1))
     else duplicate_request_rounds rounds applied)"

definition run_duplicate_request_leader :: raft_prog where
  "run_duplicate_request_leader = duplicate_request_rounds 2 0"

subsection \<open>The persistence probe\<close>

definition probe_write :: "raft_bug_variant \<Rightarrow> raft_prog \<Rightarrow> raft_prog" where
  "probe_write bug p =
     (case bug of
        TermNotPersisted \<Rightarrow> WriteAt 1 (bytes_of ''0'') (WriteAt 2 (bytes_of ''x'') p)
      | VoteNotPersisted \<Rightarrow> WriteAt 0 (bytes_of ''1'') (WriteAt 2 (bytes_of ''x'') p)
      | _ \<Rightarrow> WriteAt 0 (bytes_of ''1'') (WriteAt 1 (bytes_of ''0'') (WriteAt 2 (bytes_of ''x'') p)))"

definition probe_label :: "u8 list \<Rightarrow> string" where
  "probe_label bytes =
     (if bytes = bytes_of ''10x'' then ''raft:recovered:term=1:voted=0:log=x''
      else if bytes ! 0 \<noteq> of_char CHR ''1'' then ''raft-bug:term-not-persisted''
      else if bytes ! 1 \<noteq> of_char CHR ''0'' then ''raft-bug:vote-not-persisted''
      else ''raft-bug:log-not-persisted'')"

definition run_persistence_probe :: "mini_raft_config \<Rightarrow> (bool \<Rightarrow> raft_prog) \<Rightarrow> raft_prog" where
  "run_persistence_probe config k =
     (if \<not> rc_persistence_probe config then k False
      else Len (\<lambda>len.
        if len = 0
        then probe_write (rc_bug config) (Flush (Sleep (duration_from_millis 100) (k True)))
        else ReadAt 0 [0, 0, 0] (\<lambda>n bytes. notify_observer (probe_label bytes) (k True))))"

subsection \<open>The nodes\<close>

definition run_node_zero :: "mini_raft_config \<Rightarrow> raft_prog" where
  "run_node_zero config = run_persistence_probe config (\<lambda>probed.
     if probed then Return ()
     else case rc_bug config of
            WrongCommitRule \<Rightarrow> notify_observer ''raft-bug:wrong-commit-rule'' run_client_visible_bug_leader
          | WrongLogMatching \<Rightarrow> notify_observer ''raft-bug:wrong-log-matching'' run_client_visible_bug_leader
          | DualLeaderUnderPartition \<Rightarrow>
              notify_observer ''leader:0''
                (notify_observer (raft_invariant_label SingleLeaderPerTerm) (Return ()))
          | ApplyBeforeCommit \<Rightarrow>
              notify_observer ''raft-bug:apply-before-commit''
                (notify_observer (raft_invariant_label AppliedIndexNotPastCommit) run_client_visible_bug_leader)
          | OldTermLeaderCommitsEntry \<Rightarrow>
              notify_observer ''raft-bug:old-term-leader-commits-entry''
                (notify_observer (raft_invariant_label CommittedEntriesNotLost) run_client_visible_bug_leader)
          | FollowerStaleRead \<Rightarrow> run_leader_for_stale_read
          | DuplicateClientRequest \<Rightarrow> run_duplicate_request_leader
          | _ \<Rightarrow> Goto (ServeLeader None))"

definition run_node_one :: "mini_raft_config \<Rightarrow> raft_prog" where
  "run_node_one config =
     (case rc_bug config of
        WrongLogMatching \<Rightarrow>
          Recv (\<lambda>leader msg. if msg = bytes_of ''append:prev=2:x''
            then Send leader (bytes_of ''accepted-conflict'') (Return ()) else Return ())
      | DualLeaderUnderPartition \<Rightarrow>
          notify_observer ''leader:1''
            (notify_observer (raft_invariant_label SingleLeaderPerTerm) (Return ()))
      | FollowerStaleRead \<Rightarrow>
          Recv (\<lambda>client msg. if msg = bytes_of ''read''
            then Send client (bytes_of ''value:none'') (Return ()) else Return ())
      | _ \<Rightarrow> Goto (ServeReplica None))"

definition run_node_two :: "mini_raft_config \<Rightarrow> raft_prog" where
  "run_node_two config =
     (case rc_bug config of
        FollowerStaleRead \<Rightarrow>
          Recv (\<lambda>leader msg. if msg = bytes_of ''append:x''
            then Send leader (bytes_of ''ack'') (Return ()) else Return ())
      | _ \<Rightarrow> Goto (ServeReplica None))"

definition run_mini_raft :: "mini_raft_config \<Rightarrow> node_id \<Rightarrow> raft_prog" where
  "run_mini_raft config node =
     (if node = 0 then run_node_zero config
      else if node = 1 then run_node_one config
      else if node = 2 then run_node_two config
      else Return ())"

subsection \<open>Clients that return operations\<close>

text \<open>A write to the leader, and a read of \<open>node\<close>, with the operations they add.\<close>

definition raft_write ::
  "string \<Rightarrow> node_id \<Rightarrow> (recorded_op list \<Rightarrow> ('l, 'v) prog) \<Rightarrow> ('l, 'v) prog" where
  "raft_write request me k =
     Now (\<lambda>invoked. Send 0 (bytes_of request) (Recv (\<lambda>_ ack.
       put_if_ok 1 me 1 invoked [] ack k)))"

definition raft_read ::
  "node_id \<Rightarrow> string \<Rightarrow> node_id \<Rightarrow> recorded_op list \<Rightarrow> (i32 option \<Rightarrow> recorded_op list \<Rightarrow> ('l, 'v) prog) \<Rightarrow> ('l, 'v) prog" where
  "raft_read node request me ops k =
     Now (\<lambda>invoked. Send node (bytes_of request) (Recv (\<lambda>_ value0.
       let observed = (if value0 = bytes_of ''value:x'' then Some 1 else None)
       in Now (\<lambda>returned. k observed (ops @ [RecKvGet 2 me observed invoked returned])))))"

definition raft_correct_history_client :: "node_id \<Rightarrow> (recorded_op list \<Rightarrow> ('l, 'v) prog) \<Rightarrow> ('l, 'v) prog" where
  "raft_correct_history_client me k =
     raft_write ''client-write:x'' me (\<lambda>ops. raft_read 0 ''client-read'' me ops (\<lambda>observed ops.
       k (if observed = None then checker_backed_ops FollowerStaleRead ops else ops)))"

definition raft_stale_read_history_client :: "node_id \<Rightarrow> (recorded_op list \<Rightarrow> ('l, 'v) prog) \<Rightarrow> ('l, 'v) prog" where
  "raft_stale_read_history_client me k =
     raft_write ''write:x'' me (\<lambda>ops. raft_read 1 ''read'' me ops (\<lambda>_ ops. k ops))"

definition raft_visible_bug_history_client ::
  "raft_bug_variant \<Rightarrow> node_id \<Rightarrow> (recorded_op list \<Rightarrow> ('l, 'v) prog) \<Rightarrow> ('l, 'v) prog" where
  "raft_visible_bug_history_client variant me k =
     raft_write ''client-write:x'' me (\<lambda>ops. raft_read 0 ''client-read'' me ops (\<lambda>observed ops.
       k (if observed = None then checker_backed_ops variant [] else ops)))"

definition raft_duplicate_history_client :: "(recorded_op list \<Rightarrow> ('l, 'v) prog) \<Rightarrow> ('l, 'v) prog" where
  "raft_duplicate_history_client k =
     Send 0 (bytes_of ''client:req-1:append:x'') (Recv (\<lambda>_ _.
       Send 0 (bytes_of ''client:req-1:append:x'') (Recv (\<lambda>_ msg.
         k (if msg = bytes_of ''applied:2'' then checker_backed_ops DuplicateClientRequest [] else [])))))"

definition run_mini_raft_kv_client ::
  "mini_raft_config \<Rightarrow> node_id \<Rightarrow> (recorded_op list \<Rightarrow> ('l, 'v) prog) \<Rightarrow> ('l, 'v) prog" where
  "run_mini_raft_kv_client config me k =
     (case rc_bug config of
        FollowerStaleRead \<Rightarrow> raft_stale_read_history_client me k
      | DuplicateClientRequest \<Rightarrow> raft_duplicate_history_client k
      | RaftCorrect \<Rightarrow> raft_correct_history_client me k
      | TermNotPersisted \<Rightarrow> k []
      | VoteNotPersisted \<Rightarrow> k []
      | DualLeaderUnderPartition \<Rightarrow> k []
      | bug \<Rightarrow> raft_visible_bug_history_client bug me k)"

subsection \<open>Clients that return labels\<close>

definition raft_correct_client :: "(string list \<Rightarrow> ('l, 'v) prog) \<Rightarrow> ('l, 'v) prog" where
  "raft_correct_client k =
     Send 0 (bytes_of ''client-write:x'') (Recv (\<lambda>_ ack.
       if ack \<noteq> bytes_of ''ok'' then k [''raft-bug:write-not-acked'']
       else Send 0 (bytes_of ''client-read'') (Recv (\<lambda>_ value0.
         k [if value0 = bytes_of ''value:x'' then ''raft:commit:x=1'' else ''raft-bug:read-after-write'']))))"

definition raft_stale_read_client :: "(string list \<Rightarrow> ('l, 'v) prog) \<Rightarrow> ('l, 'v) prog" where
  "raft_stale_read_client k =
     Send 0 (bytes_of ''write:x'') (Recv (\<lambda>_ ack.
       if ack \<noteq> bytes_of ''ok'' then k [''raft-bug:follower-stale-read:write-not-acked'']
       else Send 1 (bytes_of ''read'') (Recv (\<lambda>_ value0.
         k (if value0 = bytes_of ''value:none'' then [''raft-bug:follower-stale-read''] else [])))))"

definition raft_duplicate_client :: "(string list \<Rightarrow> ('l, 'v) prog) \<Rightarrow> ('l, 'v) prog" where
  "raft_duplicate_client k =
     Send 0 (bytes_of ''client:req-1:append:x'') (Recv (\<lambda>_ _.
       Send 0 (bytes_of ''client:req-1:append:x'') (Recv (\<lambda>_ msg.
         k (if msg = bytes_of ''applied:2'' then [''raft-bug:duplicate-client-request''] else [])))))"

definition run_mini_raft_client ::
  "mini_raft_config \<Rightarrow> (string list \<Rightarrow> ('l, 'v) prog) \<Rightarrow> ('l, 'v) prog" where
  "run_mini_raft_client config k =
     (case rc_bug config of
        FollowerStaleRead \<Rightarrow> raft_stale_read_client k
      | DuplicateClientRequest \<Rightarrow> raft_duplicate_client k
      | RaftCorrect \<Rightarrow> raft_correct_client k
      | _ \<Rightarrow> k [])"

end
