(* ===== verification/Cli_Worlds.thy ===== *)
theory Cli_Worlds
  imports Mini_Raft Testkit_World
begin

section \<open>The experiments of the command line\<close>

text \<open>
  Models the worlds, oracles, cases and suites of \<^verbatim>\<open>crates/detersim-cli/src/main.rs\<close>. A world
  is the script of calls its \<^verbatim>\<open>run_*\<close> function makes on a \<^verbatim>\<open>World\<close>; the functions
  \<^verbatim>\<open>*_world\<close> and \<^verbatim>\<open>*_world_replay\<close> apply it to a generating and to a replaying world. The
  parameter \<open>dbg\<close> is the debug text of a message in the trace.
\<close>

definition cli_config :: world_config where
  "cli_config = \<lparr>wc_horizon_ns = 100000000, wc_max_events = 10000\<rparr>"

definition protocol_config :: world_config where
  "protocol_config = \<lparr>wc_horizon_ns = 2000000000, wc_max_events = 20000\<rparr>"

subsection \<open>Worlds\<close>

definition dropped_receiver :: "(unit, unit) prog" where
  "dropped_receiver =
     TimedRecv (duration_from_millis 20) (\<lambda>result. case result of
         None \<Rightarrow> Record ''missing-message'' (Return ())
       | Some _ \<Rightarrow> Return ())"

definition dropped_sender :: "(unit, unit) prog" where
  "dropped_sender = Send 0 (bytes_of ''hello'') (Return ())"

definition run_dropped_message :: "plain_future world_op list" where
  "run_dropped_message =
     [OpSetDropPercent 100, OpAddNode 0 (\<lambda>_. Running dropped_receiver),
      OpAddNode 1 (\<lambda>_. Running dropped_sender), OpRun]"

definition kv_client_node :: "kv_config \<Rightarrow> node_id \<Rightarrow> kv_prog" where
  "kv_client_node config me = run_primary_backup_kv_client config me record_ops"

definition run_replicated_kv_variant :: "kv_bug_variant \<Rightarrow> (kv_label, unit) sut_future world_op list" where
  "run_replicated_kv_variant variant =
     (let config = kv_config_with_bug variant
      in (if variant = AckBeforeReplicate then [OpScheduleNemesis time_zero (AsymmetricPartition 0 1)] else [])
         @ [OpAddNodes 3 (\<lambda>me. Running (run_primary_backup_kv config me)),
            OpAddNode 4 (\<lambda>me. Running (kv_client_node config me)), OpRun])"

definition run_mini_raft_client_variant :: "raft_bug_variant \<Rightarrow> (raft_label, unit) sut_future world_op list" where
  "run_mini_raft_client_variant variant =
     (let config = mini_raft_with_bug variant
      in [OpAddNodes 3 (\<lambda>me. Running (run_mini_raft config me)),
          OpAddNode 4 (\<lambda>me. Running (run_mini_raft_kv_client config me record_ops)), OpRun])"

definition add_raft_observer :: "nat \<Rightarrow> (raft_label, unit) sut_future world_op" where
  "add_raft_observer expected = OpAddNode raft_observer_node (\<lambda>_. Running (Goto (CollectEvents expected [])))"

definition run_mini_raft_persistence_variant ::
  "raft_bug_variant \<Rightarrow> (raft_label, unit) sut_future world_op list" where
  "run_mini_raft_persistence_variant variant =
     [OpScheduleNemesis 1000000 (Crash 0), OpScheduleNemesis 2000000 (Restart 0),
      OpAddNodes 3 (\<lambda>me. Running (run_mini_raft (mini_raft_persistence_probe variant) me)),
      add_raft_observer 1, OpRun]"

definition run_mini_raft_observed_variant ::
  "raft_bug_variant \<Rightarrow> nat \<Rightarrow> (raft_label, unit) sut_future world_op list" where
  "run_mini_raft_observed_variant variant expected =
     [OpAddNodes 3 (\<lambda>me. Running (run_mini_raft (mini_raft_with_bug variant) me)),
      add_raft_observer expected, OpRun]"

definition ack_before_flush_node :: "(unit, unit) prog" where
  "ack_before_flush_node =
     Len (\<lambda>len.
       if len = 0
       then WriteAt 0 (bytes_of ''OKAY'') (Record ''ack-before-flush'' (Sleep (duration_from_millis 100) (Return ())))
       else ReadAt 0 [0, 0, 0, 0] (\<lambda>n buf. Record (''recovered:'' @ utf8_lossy (take n buf)) (Return ())))"

definition run_storage_ack_before_flush :: "plain_future world_op list" where
  "run_storage_ack_before_flush =
     [OpScheduleNemesis time_zero (LostOnCrash 0), OpScheduleNemesis 1000000 (Crash 0),
      OpScheduleNemesis 2000000 (Restart 0), OpAddNode 0 (\<lambda>_. Running ack_before_flush_node), OpRun]"

definition storage_fault_node :: "(unit, unit) prog" where
  "storage_fault_node =
     WriteAt 0 (bytes_of ''ok'') (Flush (ReadAt 0 [0, 0] (\<lambda>_ _. Record ''storage-corruption:bitrot'' (Return ()))))"

definition run_storage_fault :: "plain_future world_op list" where
  "run_storage_fault = [OpAddNode 0 (\<lambda>_. Running storage_fault_node), OpRun]"

definition torn_write_node :: "(unit, unit) prog" where
  "torn_write_node =
     WriteAt 0 (bytes_of ''ABCD'') (Flush (ReadAt 0 [0, 0, 0, 0] (\<lambda>n buf.
       Record (''torn:'' @ utf8_lossy (take n buf)) (Return ()))))"

definition run_storage_torn_write :: "plain_future world_op list" where
  "run_storage_torn_write =
     [OpScheduleNemesis time_zero (TornWrite 0), OpAddNode 0 (\<lambda>_. Running torn_write_node), OpRun]"

subsection \<open>Oracles\<close>

text \<open>\<^verbatim>\<open>report.history.iter().any(|entry| entry == line).then(|| signature)\<close>\<close>

definition history_has :: "string \<Rightarrow> failure_signature \<Rightarrow> text_report \<Rightarrow> failure_signature option" where
  "history_has line signature report = (if line \<in> set (rp_history report) then Some signature else None)"

definition missing_message_signature :: "text_report \<Rightarrow> failure_signature option" where
  "missing_message_signature = history_has ''missing-message'' (InvariantViolated ''missing-message'')"

definition single_key_signature :: "text_report \<Rightarrow> failure_signature option" where
  "single_key_signature report =
     linearizability_signature ''single-key-kv''
       (check_linearizable_with_budget (single_key_kv None) (single_key_kv_history (rp_history report)) 10000)"

definition append_log_signature :: "text_report \<Rightarrow> failure_signature option" where
  "append_log_signature report =
     linearizability_signature ''append-log''
       (check_linearizable_with_budget (append_only_log []) (append_log_history (rp_history report)) 10000)"

definition protocol_history_signature :: "text_report \<Rightarrow> failure_signature option" where
  "protocol_history_signature report =
     (let log_history = append_log_history (rp_history report)
      in if log_history \<noteq> []
         then linearizability_signature ''append-only-log''
                (check_linearizable_with_budget (append_only_log []) log_history 10000)
         else single_key_signature report)"

definition mini_raft_term_not_persisted_signature :: "text_report \<Rightarrow> failure_signature option" where
  "mini_raft_term_not_persisted_signature =
     history_has ''raft-bug:term-not-persisted'' (InvariantViolated ''raft-term-not-persisted'')"

definition mini_raft_vote_not_persisted_signature :: "text_report \<Rightarrow> failure_signature option" where
  "mini_raft_vote_not_persisted_signature =
     history_has ''raft-bug:vote-not-persisted'' (InvariantViolated ''raft-vote-not-persisted'')"

definition mini_raft_dual_leader_signature :: "text_report \<Rightarrow> failure_signature option" where
  "mini_raft_dual_leader_signature =
     history_has (raft_invariant_label SingleLeaderPerTerm) (InvariantViolated ''raft-single-leader-per-term'')"

definition storage_ack_before_flush_signature :: "text_report \<Rightarrow> failure_signature option" where
  "storage_ack_before_flush_signature report =
     (if ''ack-before-flush'' \<in> set (rp_history report) \<and> ''recovered:OKAY'' \<notin> set (rp_history report)
      then Some (StorageCorruption ''ack-before-flush-lost'') else None)"

definition storage_fault_signature :: "text_report \<Rightarrow> failure_signature option" where
  "storage_fault_signature = history_has ''storage-corruption:bitrot'' (StorageCorruption ''bitrot'')"

definition storage_torn_write_signature :: "text_report \<Rightarrow> failure_signature option" where
  "storage_torn_write_signature = history_has ''torn:AB'' (StorageCorruption ''torn-write'')"

subsection \<open>Runs and replays\<close>

text \<open>\<open>the\<close> stands for what a run that panics or does not return would leave: nothing is claimed of it.\<close>

definition dropped_message_world :: "(message \<Rightarrow> string) \<Rightarrow> u64 \<Rightarrow> text_report" where
  "dropped_message_world dbg seed = the (script_generate (sut_step no_labels) run_dropped_message cli_config dbg seed)"

definition dropped_message_world_replay :: "(message \<Rightarrow> string) \<Rightarrow> u64 \<Rightarrow> u64 list \<Rightarrow> text_report" where
  "dropped_message_world_replay dbg seed tape = the (script_replay (sut_step no_labels) run_dropped_message cli_config dbg seed tape)"

definition replicated_kv_correct_world :: "(message \<Rightarrow> string) \<Rightarrow> u64 \<Rightarrow> text_report" where
  "replicated_kv_correct_world dbg seed = the (script_generate (sut_step (kv_body KvCorrect)) (run_replicated_kv_variant KvCorrect) protocol_config dbg seed)"

definition replicated_kv_correct_world_replay :: "(message \<Rightarrow> string) \<Rightarrow> u64 \<Rightarrow> u64 list \<Rightarrow> text_report" where
  "replicated_kv_correct_world_replay dbg seed tape = the (script_replay (sut_step (kv_body KvCorrect)) (run_replicated_kv_variant KvCorrect) protocol_config dbg seed tape)"

definition replicated_kv_world :: "(message \<Rightarrow> string) \<Rightarrow> u64 \<Rightarrow> text_report" where
  "replicated_kv_world dbg seed = the (script_generate (sut_step (kv_body ReadFromStaleFollower)) (run_replicated_kv_variant ReadFromStaleFollower) protocol_config dbg seed)"

definition replicated_kv_world_replay :: "(message \<Rightarrow> string) \<Rightarrow> u64 \<Rightarrow> u64 list \<Rightarrow> text_report" where
  "replicated_kv_world_replay dbg seed tape = the (script_replay (sut_step (kv_body ReadFromStaleFollower)) (run_replicated_kv_variant ReadFromStaleFollower) protocol_config dbg seed tape)"

definition replicated_kv_ack_before_replicate_world :: "(message \<Rightarrow> string) \<Rightarrow> u64 \<Rightarrow> text_report" where
  "replicated_kv_ack_before_replicate_world dbg seed = the (script_generate (sut_step (kv_body AckBeforeReplicate)) (run_replicated_kv_variant AckBeforeReplicate) protocol_config dbg seed)"

definition replicated_kv_ack_before_replicate_world_replay :: "(message \<Rightarrow> string) \<Rightarrow> u64 \<Rightarrow> u64 list \<Rightarrow> text_report" where
  "replicated_kv_ack_before_replicate_world_replay dbg seed tape = the (script_replay (sut_step (kv_body AckBeforeReplicate)) (run_replicated_kv_variant AckBeforeReplicate) protocol_config dbg seed tape)"

definition replicated_kv_lost_update_world :: "(message \<Rightarrow> string) \<Rightarrow> u64 \<Rightarrow> text_report" where
  "replicated_kv_lost_update_world dbg seed = the (script_generate (sut_step (kv_body LostUpdate)) (run_replicated_kv_variant LostUpdate) protocol_config dbg seed)"

definition replicated_kv_lost_update_world_replay :: "(message \<Rightarrow> string) \<Rightarrow> u64 \<Rightarrow> u64 list \<Rightarrow> text_report" where
  "replicated_kv_lost_update_world_replay dbg seed tape = the (script_replay (sut_step (kv_body LostUpdate)) (run_replicated_kv_variant LostUpdate) protocol_config dbg seed tape)"

definition replicated_kv_duplicate_request_world :: "(message \<Rightarrow> string) \<Rightarrow> u64 \<Rightarrow> text_report" where
  "replicated_kv_duplicate_request_world dbg seed = the (script_generate (sut_step (kv_body DuplicateRequestReapplied)) (run_replicated_kv_variant DuplicateRequestReapplied) protocol_config dbg seed)"

definition replicated_kv_duplicate_request_world_replay :: "(message \<Rightarrow> string) \<Rightarrow> u64 \<Rightarrow> u64 list \<Rightarrow> text_report" where
  "replicated_kv_duplicate_request_world_replay dbg seed tape = the (script_replay (sut_step (kv_body DuplicateRequestReapplied)) (run_replicated_kv_variant DuplicateRequestReapplied) protocol_config dbg seed tape)"

definition replicated_kv_follower_applies_uncommitted_world :: "(message \<Rightarrow> string) \<Rightarrow> u64 \<Rightarrow> text_report" where
  "replicated_kv_follower_applies_uncommitted_world dbg seed = the (script_generate (sut_step (kv_body FollowerAppliesUncommitted)) (run_replicated_kv_variant FollowerAppliesUncommitted) protocol_config dbg seed)"

definition replicated_kv_follower_applies_uncommitted_world_replay :: "(message \<Rightarrow> string) \<Rightarrow> u64 \<Rightarrow> u64 list \<Rightarrow> text_report" where
  "replicated_kv_follower_applies_uncommitted_world_replay dbg seed tape = the (script_replay (sut_step (kv_body FollowerAppliesUncommitted)) (run_replicated_kv_variant FollowerAppliesUncommitted) protocol_config dbg seed tape)"

definition replicated_kv_quorum_count_off_by_one_world :: "(message \<Rightarrow> string) \<Rightarrow> u64 \<Rightarrow> text_report" where
  "replicated_kv_quorum_count_off_by_one_world dbg seed = the (script_generate (sut_step (kv_body QuorumCountOffByOne)) (run_replicated_kv_variant QuorumCountOffByOne) protocol_config dbg seed)"

definition replicated_kv_quorum_count_off_by_one_world_replay :: "(message \<Rightarrow> string) \<Rightarrow> u64 \<Rightarrow> u64 list \<Rightarrow> text_report" where
  "replicated_kv_quorum_count_off_by_one_world_replay dbg seed tape = the (script_replay (sut_step (kv_body QuorumCountOffByOne)) (run_replicated_kv_variant QuorumCountOffByOne) protocol_config dbg seed tape)"

definition mini_raft_wrong_commit_rule_world :: "(message \<Rightarrow> string) \<Rightarrow> u64 \<Rightarrow> text_report" where
  "mini_raft_wrong_commit_rule_world dbg seed = the (script_generate (sut_step raft_body) (run_mini_raft_client_variant WrongCommitRule) protocol_config dbg seed)"

definition mini_raft_wrong_commit_rule_world_replay :: "(message \<Rightarrow> string) \<Rightarrow> u64 \<Rightarrow> u64 list \<Rightarrow> text_report" where
  "mini_raft_wrong_commit_rule_world_replay dbg seed tape = the (script_replay (sut_step raft_body) (run_mini_raft_client_variant WrongCommitRule) protocol_config dbg seed tape)"

definition mini_raft_wrong_log_matching_world :: "(message \<Rightarrow> string) \<Rightarrow> u64 \<Rightarrow> text_report" where
  "mini_raft_wrong_log_matching_world dbg seed = the (script_generate (sut_step raft_body) (run_mini_raft_client_variant WrongLogMatching) protocol_config dbg seed)"

definition mini_raft_wrong_log_matching_world_replay :: "(message \<Rightarrow> string) \<Rightarrow> u64 \<Rightarrow> u64 list \<Rightarrow> text_report" where
  "mini_raft_wrong_log_matching_world_replay dbg seed tape = the (script_replay (sut_step raft_body) (run_mini_raft_client_variant WrongLogMatching) protocol_config dbg seed tape)"

definition mini_raft_smoke_world :: "(message \<Rightarrow> string) \<Rightarrow> u64 \<Rightarrow> text_report" where
  "mini_raft_smoke_world dbg seed = the (script_generate (sut_step raft_body) (run_mini_raft_client_variant FollowerStaleRead) protocol_config dbg seed)"

definition mini_raft_smoke_world_replay :: "(message \<Rightarrow> string) \<Rightarrow> u64 \<Rightarrow> u64 list \<Rightarrow> text_report" where
  "mini_raft_smoke_world_replay dbg seed tape = the (script_replay (sut_step raft_body) (run_mini_raft_client_variant FollowerStaleRead) protocol_config dbg seed tape)"

definition mini_raft_duplicate_client_request_world :: "(message \<Rightarrow> string) \<Rightarrow> u64 \<Rightarrow> text_report" where
  "mini_raft_duplicate_client_request_world dbg seed = the (script_generate (sut_step raft_body) (run_mini_raft_client_variant DuplicateClientRequest) protocol_config dbg seed)"

definition mini_raft_duplicate_client_request_world_replay :: "(message \<Rightarrow> string) \<Rightarrow> u64 \<Rightarrow> u64 list \<Rightarrow> text_report" where
  "mini_raft_duplicate_client_request_world_replay dbg seed tape = the (script_replay (sut_step raft_body) (run_mini_raft_client_variant DuplicateClientRequest) protocol_config dbg seed tape)"

definition mini_raft_apply_before_commit_world :: "(message \<Rightarrow> string) \<Rightarrow> u64 \<Rightarrow> text_report" where
  "mini_raft_apply_before_commit_world dbg seed = the (script_generate (sut_step raft_body) (run_mini_raft_client_variant ApplyBeforeCommit) protocol_config dbg seed)"

definition mini_raft_apply_before_commit_world_replay :: "(message \<Rightarrow> string) \<Rightarrow> u64 \<Rightarrow> u64 list \<Rightarrow> text_report" where
  "mini_raft_apply_before_commit_world_replay dbg seed tape = the (script_replay (sut_step raft_body) (run_mini_raft_client_variant ApplyBeforeCommit) protocol_config dbg seed tape)"

definition mini_raft_old_term_leader_commits_entry_world :: "(message \<Rightarrow> string) \<Rightarrow> u64 \<Rightarrow> text_report" where
  "mini_raft_old_term_leader_commits_entry_world dbg seed = the (script_generate (sut_step raft_body) (run_mini_raft_client_variant OldTermLeaderCommitsEntry) protocol_config dbg seed)"

definition mini_raft_old_term_leader_commits_entry_world_replay :: "(message \<Rightarrow> string) \<Rightarrow> u64 \<Rightarrow> u64 list \<Rightarrow> text_report" where
  "mini_raft_old_term_leader_commits_entry_world_replay dbg seed tape = the (script_replay (sut_step raft_body) (run_mini_raft_client_variant OldTermLeaderCommitsEntry) protocol_config dbg seed tape)"

definition mini_raft_term_not_persisted_world :: "(message \<Rightarrow> string) \<Rightarrow> u64 \<Rightarrow> text_report" where
  "mini_raft_term_not_persisted_world dbg seed = the (script_generate (sut_step raft_body) (run_mini_raft_persistence_variant TermNotPersisted) protocol_config dbg seed)"

definition mini_raft_term_not_persisted_world_replay :: "(message \<Rightarrow> string) \<Rightarrow> u64 \<Rightarrow> u64 list \<Rightarrow> text_report" where
  "mini_raft_term_not_persisted_world_replay dbg seed tape = the (script_replay (sut_step raft_body) (run_mini_raft_persistence_variant TermNotPersisted) protocol_config dbg seed tape)"

definition mini_raft_vote_not_persisted_world :: "(message \<Rightarrow> string) \<Rightarrow> u64 \<Rightarrow> text_report" where
  "mini_raft_vote_not_persisted_world dbg seed = the (script_generate (sut_step raft_body) (run_mini_raft_persistence_variant VoteNotPersisted) protocol_config dbg seed)"

definition mini_raft_vote_not_persisted_world_replay :: "(message \<Rightarrow> string) \<Rightarrow> u64 \<Rightarrow> u64 list \<Rightarrow> text_report" where
  "mini_raft_vote_not_persisted_world_replay dbg seed tape = the (script_replay (sut_step raft_body) (run_mini_raft_persistence_variant VoteNotPersisted) protocol_config dbg seed tape)"

definition mini_raft_dual_leader_world :: "(message \<Rightarrow> string) \<Rightarrow> u64 \<Rightarrow> text_report" where
  "mini_raft_dual_leader_world dbg seed = the (script_generate (sut_step raft_body) (run_mini_raft_observed_variant DualLeaderUnderPartition 4) protocol_config dbg seed)"

definition mini_raft_dual_leader_world_replay :: "(message \<Rightarrow> string) \<Rightarrow> u64 \<Rightarrow> u64 list \<Rightarrow> text_report" where
  "mini_raft_dual_leader_world_replay dbg seed tape = the (script_replay (sut_step raft_body) (run_mini_raft_observed_variant DualLeaderUnderPartition 4) protocol_config dbg seed tape)"

definition storage_fault_world :: "(message \<Rightarrow> string) \<Rightarrow> u64 \<Rightarrow> text_report" where
  "storage_fault_world dbg seed = the (script_generate (sut_step no_labels) run_storage_fault protocol_config dbg seed)"

definition storage_fault_world_replay :: "(message \<Rightarrow> string) \<Rightarrow> u64 \<Rightarrow> u64 list \<Rightarrow> text_report" where
  "storage_fault_world_replay dbg seed tape = the (script_replay (sut_step no_labels) run_storage_fault protocol_config dbg seed tape)"

definition storage_ack_before_flush_world :: "(message \<Rightarrow> string) \<Rightarrow> u64 \<Rightarrow> text_report" where
  "storage_ack_before_flush_world dbg seed = the (script_generate (sut_step no_labels) run_storage_ack_before_flush protocol_config dbg seed)"

definition storage_ack_before_flush_world_replay :: "(message \<Rightarrow> string) \<Rightarrow> u64 \<Rightarrow> u64 list \<Rightarrow> text_report" where
  "storage_ack_before_flush_world_replay dbg seed tape = the (script_replay (sut_step no_labels) run_storage_ack_before_flush protocol_config dbg seed tape)"

definition storage_torn_write_world :: "(message \<Rightarrow> string) \<Rightarrow> u64 \<Rightarrow> text_report" where
  "storage_torn_write_world dbg seed = the (script_generate (sut_step no_labels) run_storage_torn_write protocol_config dbg seed)"

definition storage_torn_write_world_replay :: "(message \<Rightarrow> string) \<Rightarrow> u64 \<Rightarrow> u64 list \<Rightarrow> text_report" where
  "storage_torn_write_world_replay dbg seed tape = the (script_replay (sut_step no_labels) run_storage_torn_write protocol_config dbg seed tape)"

subsection \<open>Cases\<close>

definition cli_budget :: "u64 \<Rightarrow> nat \<Rightarrow> experiment_budget" where
  "cli_budget seeds attempts = \<lparr>eb_seed_count = seeds, eb_shrink = \<lparr>sc_max_attempts = attempts, sc_min_chunk_len = 2\<rparr>\<rparr>"

definition smoke_case :: "(message \<Rightarrow> string) \<Rightarrow> experiment_case" where
  "smoke_case dbg = 
     \<lparr>ec_name = ''missing-message'', ec_budget = cli_budget 10 100, ec_generate = dropped_message_world dbg,
      ec_replay = dropped_message_world_replay dbg, ec_oracle = missing_message_signature\<rparr>"

definition replicated_kv_case :: "(message \<Rightarrow> string) \<Rightarrow> experiment_case" where
  "replicated_kv_case dbg = 
     \<lparr>ec_name = ''replicated-kv-read-from-stale-follower'', ec_budget = cli_budget 32 100, ec_generate = replicated_kv_world dbg,
      ec_replay = replicated_kv_world_replay dbg, ec_oracle = single_key_signature\<rparr>"

definition kv_case :: "string \<Rightarrow> (u64 \<Rightarrow> text_report) \<Rightarrow> (u64 \<Rightarrow> u64 list \<Rightarrow> text_report)
     \<Rightarrow> (text_report \<Rightarrow> failure_signature option) \<Rightarrow> experiment_case" where
  "kv_case name generate replay oracle = 
     \<lparr>ec_name = name, ec_budget = cli_budget 32 100, ec_generate = generate,
      ec_replay = replay, ec_oracle = oracle\<rparr>"

definition replicated_kv_correct_case :: "(message \<Rightarrow> string) \<Rightarrow> experiment_case" where
  "replicated_kv_correct_case dbg = 
     kv_case ''replicated-kv-correct-negative-control'' (replicated_kv_correct_world dbg)
       (replicated_kv_correct_world_replay dbg) single_key_signature"

definition replicated_kv_ack_before_replicate_case :: "(message \<Rightarrow> string) \<Rightarrow> experiment_case" where
  "replicated_kv_ack_before_replicate_case dbg = 
     kv_case ''replicated-kv-ack-before-replicate'' (replicated_kv_ack_before_replicate_world dbg)
       (replicated_kv_ack_before_replicate_world_replay dbg) single_key_signature"

definition replicated_kv_lost_update_case :: "(message \<Rightarrow> string) \<Rightarrow> experiment_case" where
  "replicated_kv_lost_update_case dbg = 
     kv_case ''replicated-kv-lost-update'' (replicated_kv_lost_update_world dbg)
       (replicated_kv_lost_update_world_replay dbg) single_key_signature"

definition replicated_kv_duplicate_request_case :: "(message \<Rightarrow> string) \<Rightarrow> experiment_case" where
  "replicated_kv_duplicate_request_case dbg = 
     kv_case ''replicated-kv-duplicate-request-reapplied'' (replicated_kv_duplicate_request_world dbg)
       (replicated_kv_duplicate_request_world_replay dbg) append_log_signature"

definition replicated_kv_follower_applies_uncommitted_case :: "(message \<Rightarrow> string) \<Rightarrow> experiment_case" where
  "replicated_kv_follower_applies_uncommitted_case dbg = 
     kv_case ''replicated-kv-follower-applies-uncommitted'' (replicated_kv_follower_applies_uncommitted_world dbg)
       (replicated_kv_follower_applies_uncommitted_world_replay dbg) single_key_signature"

definition replicated_kv_quorum_count_off_by_one_case :: "(message \<Rightarrow> string) \<Rightarrow> experiment_case" where
  "replicated_kv_quorum_count_off_by_one_case dbg = 
     kv_case ''replicated-kv-quorum-count-off-by-one'' (replicated_kv_quorum_count_off_by_one_world dbg)
       (replicated_kv_quorum_count_off_by_one_world_replay dbg) single_key_signature"

definition mini_raft_smoke_case :: "(message \<Rightarrow> string) \<Rightarrow> experiment_case" where
  "mini_raft_smoke_case dbg = 
     \<lparr>ec_name = ''mini-raft-follower-stale-read'', ec_budget = cli_budget 32 100, ec_generate = mini_raft_smoke_world dbg,
      ec_replay = mini_raft_smoke_world_replay dbg, ec_oracle = protocol_history_signature\<rparr>"

definition mini_raft_checker_case :: "string \<Rightarrow> (u64 \<Rightarrow> text_report) \<Rightarrow> (u64 \<Rightarrow> u64 list \<Rightarrow> text_report) \<Rightarrow> experiment_case" where
  "mini_raft_checker_case name generate replay = 
     \<lparr>ec_name = name, ec_budget = cli_budget 32 100, ec_generate = generate,
      ec_replay = replay, ec_oracle = protocol_history_signature\<rparr>"

definition mini_raft_invariant_case :: "string \<Rightarrow> (u64 \<Rightarrow> text_report) \<Rightarrow> (u64 \<Rightarrow> u64 list \<Rightarrow> text_report)
     \<Rightarrow> (text_report \<Rightarrow> failure_signature option) \<Rightarrow> experiment_case" where
  "mini_raft_invariant_case name generate replay oracle = 
     \<lparr>ec_name = name, ec_budget = cli_budget 16 100, ec_generate = generate,
      ec_replay = replay, ec_oracle = oracle\<rparr>"

definition mini_raft_wrong_commit_rule_case :: "(message \<Rightarrow> string) \<Rightarrow> experiment_case" where
  "mini_raft_wrong_commit_rule_case dbg = 
     mini_raft_checker_case ''mini-raft-wrong-commit-rule'' (mini_raft_wrong_commit_rule_world dbg)
       (mini_raft_wrong_commit_rule_world_replay dbg)"

definition mini_raft_wrong_log_matching_case :: "(message \<Rightarrow> string) \<Rightarrow> experiment_case" where
  "mini_raft_wrong_log_matching_case dbg = 
     mini_raft_checker_case ''mini-raft-wrong-log-matching'' (mini_raft_wrong_log_matching_world dbg)
       (mini_raft_wrong_log_matching_world_replay dbg)"

definition mini_raft_duplicate_client_request_case :: "(message \<Rightarrow> string) \<Rightarrow> experiment_case" where
  "mini_raft_duplicate_client_request_case dbg = 
     mini_raft_checker_case ''mini-raft-duplicate-client-request'' (mini_raft_duplicate_client_request_world dbg)
       (mini_raft_duplicate_client_request_world_replay dbg)"

definition mini_raft_apply_before_commit_case :: "(message \<Rightarrow> string) \<Rightarrow> experiment_case" where
  "mini_raft_apply_before_commit_case dbg = 
     mini_raft_checker_case ''mini-raft-apply-before-commit'' (mini_raft_apply_before_commit_world dbg)
       (mini_raft_apply_before_commit_world_replay dbg)"

definition mini_raft_old_term_leader_commits_entry_case :: "(message \<Rightarrow> string) \<Rightarrow> experiment_case" where
  "mini_raft_old_term_leader_commits_entry_case dbg = 
     mini_raft_checker_case ''mini-raft-old-term-leader-commits-entry'' (mini_raft_old_term_leader_commits_entry_world dbg)
       (mini_raft_old_term_leader_commits_entry_world_replay dbg)"

definition mini_raft_term_not_persisted_case :: "(message \<Rightarrow> string) \<Rightarrow> experiment_case" where
  "mini_raft_term_not_persisted_case dbg = 
     mini_raft_invariant_case ''mini-raft-term-not-persisted'' (mini_raft_term_not_persisted_world dbg)
       (mini_raft_term_not_persisted_world_replay dbg) mini_raft_term_not_persisted_signature"

definition mini_raft_vote_not_persisted_case :: "(message \<Rightarrow> string) \<Rightarrow> experiment_case" where
  "mini_raft_vote_not_persisted_case dbg = 
     mini_raft_invariant_case ''mini-raft-vote-not-persisted'' (mini_raft_vote_not_persisted_world dbg)
       (mini_raft_vote_not_persisted_world_replay dbg) mini_raft_vote_not_persisted_signature"

definition mini_raft_dual_leader_case :: "(message \<Rightarrow> string) \<Rightarrow> experiment_case" where
  "mini_raft_dual_leader_case dbg = 
     mini_raft_invariant_case ''mini-raft-dual-leader-under-partition'' (mini_raft_dual_leader_world dbg)
       (mini_raft_dual_leader_world_replay dbg) mini_raft_dual_leader_signature"

definition storage_fault_case :: "(message \<Rightarrow> string) \<Rightarrow> experiment_case" where
  "storage_fault_case dbg = 
     \<lparr>ec_name = ''storage-bitrot-smoke'', ec_budget = cli_budget 4 10, ec_generate = storage_fault_world dbg,
      ec_replay = storage_fault_world_replay dbg, ec_oracle = storage_fault_signature\<rparr>"

definition storage_ack_before_flush_case :: "(message \<Rightarrow> string) \<Rightarrow> experiment_case" where
  "storage_ack_before_flush_case dbg = 
     \<lparr>ec_name = ''storage-ack-before-flush-lost-on-crash'', ec_budget = cli_budget 4 10, ec_generate = storage_ack_before_flush_world dbg,
      ec_replay = storage_ack_before_flush_world_replay dbg, ec_oracle = storage_ack_before_flush_signature\<rparr>"

definition storage_torn_write_case :: "(message \<Rightarrow> string) \<Rightarrow> experiment_case" where
  "storage_torn_write_case dbg = 
     \<lparr>ec_name = ''storage-torn-write'', ec_budget = cli_budget 4 10, ec_generate = storage_torn_write_world dbg,
      ec_replay = storage_torn_write_world_replay dbg, ec_oracle = storage_torn_write_signature\<rparr>"

subsection \<open>Suites\<close>

definition smoke_suite :: "(message \<Rightarrow> string) \<Rightarrow> experiment_suite" where
  "smoke_suite dbg = 
     \<lparr>su_name = ''cli-smoke-suite'',
      su_cases =
        [(smoke_case dbg, MustRecall)]\<rparr>"

definition replicated_kv_suite :: "(message \<Rightarrow> string) \<Rightarrow> experiment_suite" where
  "replicated_kv_suite dbg = 
     \<lparr>su_name = ''replicated-kv'',
      su_cases =
        [(replicated_kv_correct_case dbg, MustNotRecall),
         (replicated_kv_ack_before_replicate_case dbg, MustRecall),
         (replicated_kv_case dbg, MustRecall),
         (replicated_kv_lost_update_case dbg, MustRecall),
         (replicated_kv_duplicate_request_case dbg, MustRecall),
         (replicated_kv_follower_applies_uncommitted_case dbg, MustRecall),
         (replicated_kv_quorum_count_off_by_one_case dbg, MustRecall)]\<rparr>"

definition mini_raft_smoke_suite :: "(message \<Rightarrow> string) \<Rightarrow> experiment_suite" where
  "mini_raft_smoke_suite dbg = 
     \<lparr>su_name = ''mini-raft-smoke'',
      su_cases =
        [(mini_raft_wrong_commit_rule_case dbg, MustRecall),
         (mini_raft_wrong_log_matching_case dbg, MustRecall),
         (mini_raft_smoke_case dbg, MustRecall),
         (mini_raft_duplicate_client_request_case dbg, MustRecall),
         (mini_raft_apply_before_commit_case dbg, MustRecall),
         (mini_raft_old_term_leader_commits_entry_case dbg, MustRecall),
         (mini_raft_term_not_persisted_case dbg, MustRecall),
         (mini_raft_vote_not_persisted_case dbg, MustRecall),
         (mini_raft_dual_leader_case dbg, MustRecall)]\<rparr>"

definition storage_faults_suite :: "(message \<Rightarrow> string) \<Rightarrow> experiment_suite" where
  "storage_faults_suite dbg = 
     \<lparr>su_name = ''storage-faults'',
      su_cases =
        [(storage_ack_before_flush_case dbg, MustRecall),
         (storage_fault_case dbg, MustRecall),
         (storage_torn_write_case dbg, MustRecall)]\<rparr>"

text \<open>Every case is the experiment of \<open>Testkit_World\<close> over the script of its world.\<close>

lemmas case_defs = script_case_def kv_case_def mini_raft_checker_case_def mini_raft_invariant_case_def
  smoke_case_def dropped_message_world_def dropped_message_world_replay_def
  replicated_kv_correct_case_def replicated_kv_correct_world_def replicated_kv_correct_world_replay_def
  replicated_kv_case_def replicated_kv_world_def replicated_kv_world_replay_def
  replicated_kv_ack_before_replicate_case_def replicated_kv_ack_before_replicate_world_def replicated_kv_ack_before_replicate_world_replay_def
  replicated_kv_lost_update_case_def replicated_kv_lost_update_world_def replicated_kv_lost_update_world_replay_def
  replicated_kv_duplicate_request_case_def replicated_kv_duplicate_request_world_def replicated_kv_duplicate_request_world_replay_def
  replicated_kv_follower_applies_uncommitted_case_def replicated_kv_follower_applies_uncommitted_world_def replicated_kv_follower_applies_uncommitted_world_replay_def
  replicated_kv_quorum_count_off_by_one_case_def replicated_kv_quorum_count_off_by_one_world_def replicated_kv_quorum_count_off_by_one_world_replay_def
  mini_raft_wrong_commit_rule_case_def mini_raft_wrong_commit_rule_world_def mini_raft_wrong_commit_rule_world_replay_def
  mini_raft_wrong_log_matching_case_def mini_raft_wrong_log_matching_world_def mini_raft_wrong_log_matching_world_replay_def
  mini_raft_smoke_case_def mini_raft_smoke_world_def mini_raft_smoke_world_replay_def
  mini_raft_duplicate_client_request_case_def mini_raft_duplicate_client_request_world_def mini_raft_duplicate_client_request_world_replay_def
  mini_raft_apply_before_commit_case_def mini_raft_apply_before_commit_world_def mini_raft_apply_before_commit_world_replay_def
  mini_raft_old_term_leader_commits_entry_case_def mini_raft_old_term_leader_commits_entry_world_def mini_raft_old_term_leader_commits_entry_world_replay_def
  mini_raft_term_not_persisted_case_def mini_raft_term_not_persisted_world_def mini_raft_term_not_persisted_world_replay_def
  mini_raft_vote_not_persisted_case_def mini_raft_vote_not_persisted_world_def mini_raft_vote_not_persisted_world_replay_def
  mini_raft_dual_leader_case_def mini_raft_dual_leader_world_def mini_raft_dual_leader_world_replay_def
  storage_fault_case_def storage_fault_world_def storage_fault_world_replay_def
  storage_ack_before_flush_case_def storage_ack_before_flush_world_def storage_ack_before_flush_world_replay_def
  storage_torn_write_case_def storage_torn_write_world_def storage_torn_write_world_replay_def

lemma case_scripts:
  "smoke_case dbg = script_case ''missing-message'' (cli_budget 10 100) (sut_step no_labels) run_dropped_message cli_config dbg missing_message_signature"
  "replicated_kv_correct_case dbg = script_case ''replicated-kv-correct-negative-control'' (cli_budget 32 100) (sut_step (kv_body KvCorrect)) (run_replicated_kv_variant KvCorrect) protocol_config dbg single_key_signature"
  "replicated_kv_case dbg = script_case ''replicated-kv-read-from-stale-follower'' (cli_budget 32 100) (sut_step (kv_body ReadFromStaleFollower)) (run_replicated_kv_variant ReadFromStaleFollower) protocol_config dbg single_key_signature"
  "replicated_kv_ack_before_replicate_case dbg = script_case ''replicated-kv-ack-before-replicate'' (cli_budget 32 100) (sut_step (kv_body AckBeforeReplicate)) (run_replicated_kv_variant AckBeforeReplicate) protocol_config dbg single_key_signature"
  "replicated_kv_lost_update_case dbg = script_case ''replicated-kv-lost-update'' (cli_budget 32 100) (sut_step (kv_body LostUpdate)) (run_replicated_kv_variant LostUpdate) protocol_config dbg single_key_signature"
  "replicated_kv_duplicate_request_case dbg = script_case ''replicated-kv-duplicate-request-reapplied'' (cli_budget 32 100) (sut_step (kv_body DuplicateRequestReapplied)) (run_replicated_kv_variant DuplicateRequestReapplied) protocol_config dbg append_log_signature"
  "replicated_kv_follower_applies_uncommitted_case dbg = script_case ''replicated-kv-follower-applies-uncommitted'' (cli_budget 32 100) (sut_step (kv_body FollowerAppliesUncommitted)) (run_replicated_kv_variant FollowerAppliesUncommitted) protocol_config dbg single_key_signature"
  "replicated_kv_quorum_count_off_by_one_case dbg = script_case ''replicated-kv-quorum-count-off-by-one'' (cli_budget 32 100) (sut_step (kv_body QuorumCountOffByOne)) (run_replicated_kv_variant QuorumCountOffByOne) protocol_config dbg single_key_signature"
  "mini_raft_wrong_commit_rule_case dbg = script_case ''mini-raft-wrong-commit-rule'' (cli_budget 32 100) (sut_step raft_body) (run_mini_raft_client_variant WrongCommitRule) protocol_config dbg protocol_history_signature"
  "mini_raft_wrong_log_matching_case dbg = script_case ''mini-raft-wrong-log-matching'' (cli_budget 32 100) (sut_step raft_body) (run_mini_raft_client_variant WrongLogMatching) protocol_config dbg protocol_history_signature"
  "mini_raft_smoke_case dbg = script_case ''mini-raft-follower-stale-read'' (cli_budget 32 100) (sut_step raft_body) (run_mini_raft_client_variant FollowerStaleRead) protocol_config dbg protocol_history_signature"
  "mini_raft_duplicate_client_request_case dbg = script_case ''mini-raft-duplicate-client-request'' (cli_budget 32 100) (sut_step raft_body) (run_mini_raft_client_variant DuplicateClientRequest) protocol_config dbg protocol_history_signature"
  "mini_raft_apply_before_commit_case dbg = script_case ''mini-raft-apply-before-commit'' (cli_budget 32 100) (sut_step raft_body) (run_mini_raft_client_variant ApplyBeforeCommit) protocol_config dbg protocol_history_signature"
  "mini_raft_old_term_leader_commits_entry_case dbg = script_case ''mini-raft-old-term-leader-commits-entry'' (cli_budget 32 100) (sut_step raft_body) (run_mini_raft_client_variant OldTermLeaderCommitsEntry) protocol_config dbg protocol_history_signature"
  "mini_raft_term_not_persisted_case dbg = script_case ''mini-raft-term-not-persisted'' (cli_budget 16 100) (sut_step raft_body) (run_mini_raft_persistence_variant TermNotPersisted) protocol_config dbg mini_raft_term_not_persisted_signature"
  "mini_raft_vote_not_persisted_case dbg = script_case ''mini-raft-vote-not-persisted'' (cli_budget 16 100) (sut_step raft_body) (run_mini_raft_persistence_variant VoteNotPersisted) protocol_config dbg mini_raft_vote_not_persisted_signature"
  "mini_raft_dual_leader_case dbg = script_case ''mini-raft-dual-leader-under-partition'' (cli_budget 16 100) (sut_step raft_body) (run_mini_raft_observed_variant DualLeaderUnderPartition 4) protocol_config dbg mini_raft_dual_leader_signature"
  "storage_fault_case dbg = script_case ''storage-bitrot-smoke'' (cli_budget 4 10) (sut_step no_labels) run_storage_fault protocol_config dbg storage_fault_signature"
  "storage_ack_before_flush_case dbg = script_case ''storage-ack-before-flush-lost-on-crash'' (cli_budget 4 10) (sut_step no_labels) run_storage_ack_before_flush protocol_config dbg storage_ack_before_flush_signature"
  "storage_torn_write_case dbg = script_case ''storage-torn-write'' (cli_budget 4 10) (sut_step no_labels) run_storage_torn_write protocol_config dbg storage_torn_write_signature"
  by (simp_all add: case_defs fun_eq_iff)

subsection \<open>Suites and cases by name\<close>

definition suite_by_name :: "(message \<Rightarrow> string) \<Rightarrow> string \<Rightarrow> experiment_suite option" where
  "suite_by_name dbg name =
     (if name = ''smoke'' then Some (smoke_suite dbg)
      else if name = ''replicated-kv'' then Some (replicated_kv_suite dbg)
      else if name = ''mini-raft-smoke'' then Some (mini_raft_smoke_suite dbg)
      else if name = ''storage-faults'' then Some (storage_faults_suite dbg)
      else None)"

definition oracle_kind_for_case :: "string \<Rightarrow> oracle_kind" where
  "oracle_kind_for_case name =
     (if contains_str name ''storage'' then OracleStorage
      else if contains_str name ''term-not'' \<or> contains_str name ''vote-not'' \<or> contains_str name ''dual-leader''
        \<or> name = ''missing-message''
      then OracleInvariant else OracleLinearizability)"

definition expected_signature_for_case :: "string \<Rightarrow> failure_signature option" where
  "expected_signature_for_case name =
     (if contains_str name ''correct-negative-control'' then None
      else if contains_str name ''duplicate'' then Some (SigNotLinearizable None ''append-log'')
      else if contains_str name ''storage-bitrot'' then Some (StorageCorruption ''bitrot'')
      else if contains_str name ''ack-before-flush'' then Some (StorageCorruption ''ack-before-flush-lost'')
      else if contains_str name ''torn-write'' then Some (StorageCorruption ''torn-write'')
      else if contains_str name ''term-not'' then Some (InvariantViolated ''raft-term-not-persisted'')
      else if contains_str name ''vote-not'' then Some (InvariantViolated ''raft-vote-not-persisted'')
      else if contains_str name ''dual-leader'' then Some (InvariantViolated ''raft-single-leader-per-term'')
      else if name = ''missing-message'' then Some (InvariantViolated ''missing-message'')
      else Some (SigNotLinearizable None ''single-key-kv''))"

definition suite_manifest_by_name :: "(message \<Rightarrow> string) \<Rightarrow> string \<Rightarrow> experiment_suite_manifest option" where
  "suite_manifest_by_name dbg name =
     map_option (\<lambda>suite.
       \<lparr>sm_name = su_name suite,
        sm_cases = map (\<lambda>(c, policy).
          \<lparr>em_name = ec_name c, em_recall_policy = policy, em_oracle = oracle_kind_for_case (ec_name c),
           em_expected_signature = expected_signature_for_case (ec_name c),
           em_seed_count = eb_seed_count (ec_budget c),
           em_artifact_policy = (if policy = MustRecall then ArtifactOnFailure else ArtifactNever)\<rparr>) (su_cases suite)\<rparr>)
       (suite_by_name dbg name)"

definition case_by_suite_name :: "(message \<Rightarrow> string) \<Rightarrow> string \<Rightarrow> experiment_case option" where
  "case_by_suite_name dbg name =
     (if name = ''smoke'' then Some (smoke_case dbg)
      else if name = ''replicated-kv'' then Some (replicated_kv_case dbg)
      else if name = ''mini-raft-smoke'' then Some (mini_raft_smoke_case dbg)
      else if name = ''storage-faults'' then Some (storage_fault_case dbg)
      else None)"

definition supported_suites :: "string list" where
  "supported_suites = [''smoke'', ''replicated-kv'', ''mini-raft-smoke'', ''storage-faults'']"

definition suite_case_list :: "(message \<Rightarrow> string) \<Rightarrow> experiment_case list" where
  "suite_case_list dbg =
     concat (map (\<lambda>n. case suite_by_name dbg n of None \<Rightarrow> [] | Some suite \<Rightarrow> map fst (su_cases suite)) supported_suites)"

definition case_by_name :: "(message \<Rightarrow> string) \<Rightarrow> string \<Rightarrow> experiment_case option" where
  "case_by_name dbg name = List.find (\<lambda>c. ec_name c = name) (suite_case_list dbg)"

definition supported_cases_json :: "(message \<Rightarrow> string) \<Rightarrow> string" where
  "supported_cases_json dbg =
     ''['' @ join_with '','' (map (\<lambda>c. quoted (ec_name c)) (suite_case_list dbg)) @ '']''"

end
