(* ===== verification/Cli_Text.thy ===== *)
theory Cli_Text
  imports Cli_Worlds Seed_Search Net_Stream
begin

section \<open>Texts, arguments and files of the command line\<close>

text \<open>
  The helpers of \<^verbatim>\<open>crates/detersim-cli/src/main.rs\<close>: the templates of
  \<^verbatim>\<open>init-sut\<close>, its JSON texts, the argument loops and the output functions. What the process finds
  outside is the parameter \<open>cli_env\<close>: the directory of the package, the file system with its error texts,
  other programs, and the formatting of floating point numbers and of messages. Paths are those of Unix.
\<close>

subsection \<open>Strings of the standard library\<close>

definition nl :: string where
  "nl = [CHR 0x0A]"

definition unlines :: "string list \<Rightarrow> string" where
  "unlines ls = concat (map (\<lambda>l. l @ nl) ls)"

definition trim_with :: "(char \<Rightarrow> bool) \<Rightarrow> string \<Rightarrow> string" where
  "trim_with P s = rev (dropWhile P (rev (dropWhile P s)))"

definition trim :: "string \<Rightarrow> string" where
  "trim = trim_with is_whitespace"

definition is_ascii_alphanumeric :: "char \<Rightarrow> bool" where
  "is_ascii_alphanumeric c = (let k = (of_char c :: nat) in
     48 \<le> k \<and> k \<le> 57 \<or> 65 \<le> k \<and> k \<le> 90 \<or> 97 \<le> k \<and> k \<le> 122)"

definition to_ascii_lowercase :: "char \<Rightarrow> char" where
  "to_ascii_lowercase c = (let k = (of_char c :: nat) in if 65 \<le> k \<and> k \<le> 90 then char_of (k + 32) else c)"

definition replace_char :: "char \<Rightarrow> string \<Rightarrow> string \<Rightarrow> string" where
  "replace_char c by_text s = concat (map (\<lambda>x. if x = c then by_text else [x]) s)"

text \<open>\<^verbatim>\<open>Path::join\<close> and \<^verbatim>\<open>Path::parent\<close>; the latter skips empty components and dots.\<close>

definition path_join :: "string \<Rightarrow> string \<Rightarrow> string" where
  "path_join a b =
     (if prefix ''/'' b then b else if a = [] \<or> last a = CHR ''/'' then a @ b else a @ ''/'' @ b)"

definition path_parent :: "string \<Rightarrow> string option" where
  "path_parent p =
     (let start = (if prefix ''/'' p then ''/'' else if p = ''.'' \<or> prefix ''./'' p then ''.'' else []);
          skipped = (\<lambda>part. part = [] \<or> part = ''.'');
          parts = dropWhile skipped (rev (split_at_char CHR ''/'' (drop (length start) p)))
      in case parts of
           part # before \<Rightarrow> Some (start @ join_with ''/'' (rev (dropWhile skipped before)))
         | [] \<Rightarrow> if start = ''.'' then Some [] else None)"

subsection \<open>Templates\<close>

definition escape_toml :: "string \<Rightarrow> string" where
  "escape_toml v = replace_char quote_char [backslash, quote_char] (replace_char backslash [backslash, backslash] v)"

definition path_for_toml :: "string \<Rightarrow> string" where
  "path_for_toml path = replace_char backslash ''/'' path"

definition crate_ident :: "string \<Rightarrow> string" where
  "crate_ident name =
     trim_with (\<lambda>c. c = CHR ''_'')
       (map (\<lambda>c. if is_ascii_alphanumeric c then to_ascii_lowercase c else CHR ''_'') name)"

definition template_cargo :: "string \<Rightarrow> string \<Rightarrow> string \<Rightarrow> string" where
  \<open>template_cargo name workspace template =
     (let net_dep = (if template = ''stream'' then unlines [''detersim-net = { path = "'' @ workspace @ ''/crates/detersim-net", version = "0.1.0" }''] else [])
      in unlines [
         ''[package]'',
         ''name = "'' @ escape_toml name @ ''"'',
         ''version = "0.1.0"'',
         ''edition = "2021"'',
         [],
         ''[dependencies]'',
         ''detersim-core = { path = "'' @ workspace @ ''/crates/detersim-core", version = "0.1.0" }'',
         ''detersim-sim = { path = "'' @ workspace @ ''/crates/detersim-sim", version = "0.1.0" }'',
         ''detersim-testkit = { path = "'' @ workspace @ ''/crates/detersim-testkit", version = "0.1.0" }'',
         ''detersim-viz = { path = "'' @ workspace @ ''/crates/detersim-viz", version = "0.1.0" }''] @ net_dep)\<close>

definition message_template_lib :: string where
  \<open>message_template_lib = unlines [
       ''use std::time::Duration;'',
       [],
       ''use detersim_core::{ClockExt, Env, Network};'',
       ''use detersim_sim::{RunReport, SimEnv, World, WorldConfig};'',
       ''use detersim_testkit::{ExperimentBudget, ExperimentCase, FailureSignature};'',
       [],
       ''pub fn run(seed: u64, drop_percent: u32) -> RunReport {'',
       ''    let mut world = World::with_config('',
       ''        seed,'',
       ''        WorldConfig {'',
       ''            horizon_ns: 1_000_000_000,'',
       ''            max_events: 10_000,'',
       ''        },'',
       ''    );'',
       ''    world.set_drop_percent(drop_percent);'',
       ''    world.add_node(0, |env: SimEnv| async move {'',
       ''        let result = env'',
       ''            .clock()'',
       ''            .timeout(Duration::from_millis(200), env.net().recv())'',
       ''            .await;'',
       ''        if result.is_err() {'',
       ''            env.record("missing-message");'',
       ''        }'',
       ''    });'',
       ''    world.add_node(1, |env: SimEnv| async move {'',
       ''        env.net().send(0, b"hello".to_vec()).await;'',
       ''    });'',
       ''    world.run()'',
       ''}'',
       [],
       ''pub fn plant_bug_case() -> ExperimentCase {'',
       ''    ExperimentCase {'',
       ''        name: "missing-message",'',
       ''        budget: ExperimentBudget::default(),'',
       ''        generate: plant_bug_run,'',
       ''        replay: plant_bug_replay,'',
       ''        oracle: missing_message_signature,'',
       ''    }'',
       ''}'',
       [],
       ''fn plant_bug_run(seed: u64) -> RunReport {'',
       ''    run(seed, 100)'',
       ''}'',
       [],
       ''fn plant_bug_replay(seed: u64, tape: Vec<u64>) -> RunReport {'',
       ''    let mut world = World::replay('',
       ''        seed,'',
       ''        tape,'',
       ''        WorldConfig {'',
       ''            horizon_ns: 1_000_000_000,'',
       ''            max_events: 10_000,'',
       ''        },'',
       ''    );'',
       ''    world.set_drop_percent(100);'',
       ''    world.add_node(0, |env: SimEnv| async move {'',
       ''        let result = env'',
       ''            .clock()'',
       ''            .timeout(Duration::from_millis(200), env.net().recv())'',
       ''            .await;'',
       ''        if result.is_err() {'',
       ''            env.record("missing-message");'',
       ''        }'',
       ''    });'',
       ''    world.add_node(1, |env: SimEnv| async move {'',
       ''        env.net().send(0, b"hello".to_vec()).await;'',
       ''    });'',
       ''    world.run()'',
       ''}'',
       [],
       ''pub fn missing_message_signature(report: &RunReport) -> Option<FailureSignature> {'',
       ''    report'',
       ''        .history'',
       ''        .iter()'',
       ''        .any(|entry| entry == "missing-message")'',
       ''        .then(|| FailureSignature::InvariantViolated("missing-message".to_string()))'',
       ''}'']\<close>

definition stream_template_lib :: string where
  \<open>stream_template_lib = unlines [
       ''use detersim_net::{connect_pair, ConnectionId, StreamFault};'',
       [],
       ''pub fn transcript_lines() -> Vec<String> {'',
       ''    let mut stream = connect_pair(0, 1, ConnectionId(1));'',
       ''    stream.send(b"hello".to_vec(), &[]);'',
       ''    stream.send(b"again".to_vec(), &[StreamFault::Duplicate { seq: 1 }]);'',
       ''    stream.into_transcript().to_history_lines()'',
       ''}'']\<close>

definition template_test :: "string \<Rightarrow> string \<Rightarrow> string" where
  \<open>template_test crate_name template =
     (if template = ''stream''
      then unlines [
          ''use '' @ crate_name @ ''::transcript_lines;'',
          [],
          ''#[test]'',
          ''fn stream_transcript_is_deterministic() {'',
          ''    let a = transcript_lines();'',
          ''    let b = transcript_lines();'',
          ''    assert_eq!(a, b);'',
          ''    assert!(a.iter().any(|line| line == "stream:duplicate:seq=1"));'',
          ''}'']
      else unlines [
          ''use '' @ crate_name @ ''::{missing_message_signature, plant_bug_case, run};'',
          ''use detersim_testkit::{assert_deterministic, run_experiment_case, RecallResult};'',
          ''use detersim_viz::{debug_artifact_to_json, DebugArtifact};'',
          [],
          ''#[test]'',
          ''fn negative_control_is_deterministic() {'',
          ''    let report = assert_deterministic(0, |seed| run(seed, 0));'',
          ''    assert!(!report.history.contains(&"missing-message".to_string()));'',
          ''}'',
          [],
          ''#[test]'',
          ''fn plant_bug_case_recalls_failure() {'',
          ''    let case = plant_bug_case();'',
          ''    let result = run_experiment_case(&case);'',
          ''    assert!(matches!(result, RecallResult::Recalled(_)));'',
          ''}'',
          [],
          ''#[test]'',
          ''fn artifact_render_test() {'',
          ''    let report = run(0, 100);'',
          ''    let artifact = DebugArtifact {'',
          ''        title: "generated-template".to_string(),'',
          ''        run: report.clone(),'',
          ''        experiment_json: None,'',
          ''        checker_json: None,'',
          ''        shrink_json: None,'',
          ''        failure_signature_json: missing_message_signature(&report).map(|_| "{'' @ [CHR 0x5C] @ ''"type'' @ [CHR 0x5C] @ ''":'' @ [CHR 0x5C] @ ''"InvariantViolated'' @ [CHR 0x5C] @ ''",'' @ [CHR 0x5C] @ ''"name'' @ [CHR 0x5C] @ ''":'' @ [CHR 0x5C] @ ''"missing-message'' @ [CHR 0x5C] @ ''"}".to_string()),'',
          ''    };'',
          ''    let json = debug_artifact_to_json(&artifact);'',
          ''    assert!(json.contains("missing-message"));'',
          ''}''])\<close>

definition template_readme :: "string \<Rightarrow> string \<Rightarrow> string" where
  \<open>template_readme name template = unlines [
       ''# '' @ name,
       [],
       ''Generated by `detersim init-sut --template '' @ template @ ''`.'',
       [],
       ''Run:'',
       [],
       ''```powershell'',
       ''cargo test'',
       ''```'',
       [],
       ''This template is intentionally local-first and uses DeterSim path dependencies from the source checkout.'']\<close>

subsection \<open>JSON\<close>

text \<open>\<^verbatim>\<open>escape_json\<close> stands once more in this file.\<close>

definition escape_json_cli :: "string \<Rightarrow> string" where
  "escape_json_cli value =
     concat (map (\<lambda>c.
       if c = quote_char then [backslash, quote_char]
       else if c = backslash then [backslash, backslash]
       else if c = CHR 0x0A then [backslash, CHR ''n'']
       else if c = CHR 0x0D then [backslash, CHR ''r'']
       else if c = CHR 0x09 then [backslash, CHR ''t'']
       else if is_control c then [backslash, CHR ''u''] @ hex4 (of_char c)
       else [c]) value)"

fun failure_signature_json_cli :: "failure_signature \<Rightarrow> string" where
  \<open>failure_signature_json_cli (InvariantViolated name) =
     ''{"type":"InvariantViolated","name":"'' @ escape_json_cli name @ ''"}''\<close>
| \<open>failure_signature_json_cli (SigNotLinearizable conflict model) =
     ''{"type":"NotLinearizable","model":"'' @ escape_json_cli model @ ''","conflict":''
     @ (case conflict of None \<Rightarrow> ''null''
          | Some (left, right) \<Rightarrow> ''['' @ show_u64 left @ '','' @ show_u64 right @ '']'') @ ''}''\<close>
| \<open>failure_signature_json_cli SigDeadlock = ''{"type":"Deadlock"}''\<close>
| \<open>failure_signature_json_cli (SigPanic label) = ''{"type":"Panic","label":"'' @ escape_json_cli label @ ''"}''\<close>
| \<open>failure_signature_json_cli (StorageCorruption label) =
     ''{"type":"StorageCorruption","label":"'' @ escape_json_cli label @ ''"}''\<close>

definition removed_labels_json_cli :: "removed_label list \<Rightarrow> string" where
  \<open>removed_labels_json_cli labels =
     ''['' @ join_with '','' (map (\<lambda>l.
        ''{"label":"'' @ escape_json_cli (rl_label l) @ ''","count":'' @ show_nat (rl_count l) @ ''}'') labels) @ '']''\<close>

subsection \<open>Arguments\<close>

text \<open>
  The loops over the arguments: an option in \<open>takes\<close> is followed by its value, if there is one. A step
  gets the argument and the value.
\<close>

fun arg_loop ::
  "(string \<Rightarrow> bool) \<Rightarrow> (string \<Rightarrow> string option \<Rightarrow> 's \<Rightarrow> 's) \<Rightarrow> string list \<Rightarrow> 's \<Rightarrow> 's" where
  "arg_loop takes step [] st = st"
| "arg_loop takes step (a # rest) st =
     (if takes a
      then case rest of
             [] \<Rightarrow> step a None st
           | v # rest' \<Rightarrow> arg_loop takes step rest' (step a (Some v) st)
      else arg_loop takes step rest (step a None st))"

definition parse_suite_and_out :: "string list \<Rightarrow> string \<Rightarrow> string \<times> string option" where
  "parse_suite_and_out args default_suite =
     arg_loop (\<lambda>a. a \<in> {''--suite'', ''--out''})
       (\<lambda>a v (suite, out).
          if a = ''--suite'' then (case v of Some value \<Rightarrow> (value, out) | None \<Rightarrow> (suite, out))
          else if a = ''--out'' then (case v of Some value \<Rightarrow> (suite, Some value) | None \<Rightarrow> (suite, out))
          else (suite, Some a))
       args (default_suite, None)"

definition parse_tape :: "string \<Rightarrow> u64 list" where
  "parse_tape value =
     (if trim value = [] then []
      else List.map_filter (\<lambda>item. parse_u64 (trim item)) (split_at_char CHR '','' value))"

subsection \<open>Output\<close>

record 'w cli_env =
  ce_debug :: "message \<Rightarrow> string"
  ce_show_f64 :: "real \<Rightarrow> string"
  ce_manifest_dir :: string
  ce_create_dir_all :: "string \<Rightarrow> 'w \<Rightarrow> string option \<times> 'w"
  ce_write :: "string \<Rightarrow> string \<Rightarrow> 'w \<Rightarrow> string option \<times> 'w"
  ce_read :: "string \<Rightarrow> 'w \<Rightarrow> string option"
  ce_command :: "string \<Rightarrow> string list \<Rightarrow> (bool \<times> u8 list) option"

record 'w cli_state =
  cs_world :: 'w
  cs_stdout :: string
  cs_stderr :: string

text \<open>A command ends with an exit code, or panics with a message.\<close>

type_synonym 'w command = "'w cli_state \<Rightarrow> (string + nat) \<times> 'w cli_state"

abbreviation exit_with :: "nat \<Rightarrow> 'w command" where
  "exit_with code st \<equiv> (Inr code, st)"

definition println :: "string \<Rightarrow> 'w cli_state \<Rightarrow> 'w cli_state" where
  "println s st = st\<lparr>cs_stdout := cs_stdout st @ s @ nl\<rparr>"

definition eprintln :: "string \<Rightarrow> 'w cli_state \<Rightarrow> 'w cli_state" where
  "eprintln s st = st\<lparr>cs_stderr := cs_stderr st @ s @ nl\<rparr>"

text \<open>One step on the file system; on an error the message is printed and the exit code is 1.\<close>

definition or_fail ::
  "string \<Rightarrow> ('w \<Rightarrow> string option \<times> 'w) \<Rightarrow> 'w command \<Rightarrow> 'w command" where
  "or_fail what action next_step st =
     (case action (cs_world st) of
        (Some err, w) \<Rightarrow> exit_with 1 (eprintln (what @ err) (st\<lparr>cs_world := w\<rparr>))
      | (None, w) \<Rightarrow> next_step (st\<lparr>cs_world := w\<rparr>))"

text \<open>\<^verbatim>\<open>std::fs::write(..).and_then(|_| ..)\<close>\<close>

fun write_all :: "'w cli_env \<Rightarrow> (string \<times> string) list \<Rightarrow> 'w \<Rightarrow> string option \<times> 'w" where
  "write_all env [] w = (None, w)"
| "write_all env ((path, contents) # files) w =
     (case ce_write env path contents w of
        (Some err, w') \<Rightarrow> (Some err, w')
      | (None, w') \<Rightarrow> write_all env files w')"

definition write_or_print :: "'w cli_env \<Rightarrow> string option \<Rightarrow> string \<Rightarrow> 'w command" where
  "write_or_print env out contents =
     (case out of
        None \<Rightarrow> (\<lambda>st. exit_with 0 (println contents st))
      | Some path \<Rightarrow>
          (let write = or_fail ''failed to write output: '' (ce_write env path contents) (exit_with 0)
           in case path_parent path of
                Some parent \<Rightarrow>
                  if parent \<noteq> []
                  then or_fail ''failed to create output directory: '' (ce_create_dir_all env parent) write
                  else write
              | None \<Rightarrow> write))"

definition unsupported_suite :: "'w cli_env \<Rightarrow> string option \<Rightarrow> string \<Rightarrow> 'w command" where
  \<open>unsupported_suite env out suite =
     write_or_print env out
       (''{"schema_version":3,"ok":false,"unsupported_suite":"'' @ escape_json_cli suite
        @ ''","supported_suites":["smoke","replicated-kv","mini-raft-smoke","storage-faults"],"note":"test targets are the source of truth for full benchmark gates"}'')\<close>

definition command_output :: "'w cli_env \<Rightarrow> string \<Rightarrow> string list \<Rightarrow> string option" where
  "command_output env command args =
     (case ce_command env command args of
        None \<Rightarrow> None
      | Some (success, stdout) \<Rightarrow> if \<not> success then None else Some (trim (utf8_lossy stdout)))"

definition workspace_root :: "'w cli_env \<Rightarrow> string" where
  "workspace_root env =
     (case path_parent (ce_manifest_dir env) \<bind> path_parent of None \<Rightarrow> ''.'' | Some path \<Rightarrow> path)"

subsection \<open>Facts about the helpers\<close>

lemma escape_json_cli_eq [simp]: "escape_json_cli = escape_json"
  by (simp add: fun_eq_iff escape_json_cli_def escape_json_def escape_char_def [abs_def])

text \<open>A tape survives being written as text and parsed.\<close>

lemma trim_no_space: "\<forall>c \<in> set s. \<not> is_whitespace c \<Longrightarrow> trim s = s"
proof -
  assume "\<forall>c \<in> set s. \<not> is_whitespace c"
  then have "dropWhile is_whitespace s = s" "dropWhile is_whitespace (rev s) = rev s"
    by (auto simp: dropWhile_eq_self_iff hd_rev)
  then show ?thesis by (simp add: trim_def trim_with_def)
qed

lemma digits_no_space: "c \<in> set (show_nat n) \<Longrightarrow> \<not> is_whitespace c"
  using show_nat_digits [of c n] by (auto simp: is_digit_def digit_value_def is_whitespace_def Let_def split: if_splits)

lemma trim_show_nat [simp]: "trim (show_nat n) = show_nat n"
  by (simp add: trim_no_space digits_no_space)

lemma set_join: "c \<in> set (join_with sep parts) \<Longrightarrow> c \<in> set sep \<or> (\<exists>p \<in> set parts. c \<in> set p)"
  by (induction sep parts rule: join_with.induct) auto

lemma parse_tape_text: "parse_tape (join_with '','' (map show_u64 tape)) = tape"
proof (cases "tape = []")
  case False
  have "trim (join_with '','' (map show_u64 tape)) = join_with '','' (map show_u64 tape)"
  proof (rule trim_no_space, intro ballI)
    fix c assume "c \<in> set (join_with '','' (map show_u64 tape))"
    then show "\<not> is_whitespace c"
      using set_join digits_no_space by (fastforce simp: is_whitespace_def)
  qed
  moreover have "join_with '','' (map show_u64 tape) \<noteq> []"
    using False join_Nil_iff [of "map show_u64 tape"] by auto
  moreover have "split_at_char CHR '','' (join_with '','' (map show_u64 tape)) = map show_u64 tape"
    using False by (intro split_join) (auto dest: show_nat_digits)
  moreover have "List.map_filter (\<lambda>item. parse_u64 (trim item)) (map show_u64 tape) = tape"
    by (simp add: map_filter_def comp_def)
  ultimately show ?thesis by (simp add: parse_tape_def)
qed (simp add: parse_tape_def trim_def trim_with_def)

text \<open>A text contains what one of its lines contains.\<close>

lemma contains_unlines: "l \<in> set ls \<Longrightarrow> contains_str l pat \<Longrightarrow> contains_str (unlines ls) pat"
  by (induction ls) (auto simp: contains_str_def unlines_def sublist_append)

lemma failure_signature_json_cli_eq: "failure_signature_json_cli s = signature_json s"
  by (cases s) (simp_all split: option.split)

end
