(* ===== verification/Cli_Runs.thy ===== *)
theory Cli_Runs
  imports Cli_Worlds
begin

section \<open>Runs of the smoke and storage suites\<close>

text \<open>
  The worlds of these suites have no race that their oracle could see, so their histories are the same for
  every seed and every tape. That is what \<^verbatim>\<open>detersim doctor\<close> and the storage benchmark rely on.
\<close>

subsection \<open>From a run to its report\<close>

lemma quiesced_report:
  assumes "quiesces_with body ops (world_with_config seed config) h"
  obtains r where "script_generate (sut_step body) ops config dbg seed = Some r" "rp_history r = h" "\<not> rp_deadlocked r"
proof -
  obtain g where g: "world_script (sut_step body) ops (world_with_config seed config) = Some (Inr g)"
    "in_history g = h" "in_tasks g = []"
    using assms by (auto simp: quiesces_with_def split: option.splits sum.splits)
  show thesis
    by (rule that [of "text_report_of dbg (run_report_of g)"])
      (simp_all add: script_generate_def report_of_script_def g text_report_of_def run_report_of_def Let_def)
qed

lemma quiesced_case_fails:
  assumes "quiesces_with body ops (world_with_config seed config) h"
    and "\<And>r. rp_history r = h \<Longrightarrow> oracle r \<noteq> None"
  shows "script_generate (sut_step body) ops config dbg seed \<noteq> None"
    and "failing (script_case name budget (sut_step body) ops config dbg oracle) seed"
proof -
  obtain r where "script_generate (sut_step body) ops config dbg seed = Some r" "rp_history r = h"
    using quiesced_report [OF assms(1), of dbg] .
  then show "script_generate (sut_step body) ops config dbg seed \<noteq> None"
    "failing (script_case name budget (sut_step body) ops config dbg oracle) seed"
    using assms(2) by (simp_all add: failing_def script_case_def)
qed

text \<open>A case whose every run fails is recalled.\<close>

lemma always_failing_recalled:
  assumes runs: "\<And>seed. quiesces_with body ops (world_with_config seed config) h"
    and fails: "\<And>r. rp_history r = h \<Longrightarrow> oracle r \<noteq> None" and "replay_blind oracle"
    and "eb_seed_count budget \<noteq> 0"
  shows "is_recalled (run_experiment_case (script_case name budget (sut_step body) ops config dbg oracle))"
proof -
  have "0 < eb_seed_count budget" using assms(4) by (simp add: word_neq_0_conv)
  moreover have "script_generate (sut_step body) ops config dbg seed \<noteq> None" for seed
    using runs fails by (rule quiesced_case_fails(1))
  moreover have "failing (script_case name budget (sut_step body) ops config dbg oracle) seed" for seed
    using runs fails by (rule quiesced_case_fails(2))
  ultimately show ?thesis by (subst script_case_recalled [OF _ assms(3)]) blast+
qed

lemma signatures_replay_blind [simp]:
  "replay_blind (history_has line signature)" "replay_blind storage_ack_before_flush_signature"
  "replay_blind single_key_signature" "replay_blind append_log_signature" "replay_blind protocol_history_signature"
  by (simp_all add: replay_blind_def history_has_def storage_ack_before_flush_signature_def
      single_key_signature_def append_log_signature_def protocol_history_signature_def Let_def)

subsection \<open>The dropped message\<close>

text \<open>The message is dropped when it arrives, before, with or after the timeout of 20 milliseconds.\<close>

lemma net_delay_time:
  "\<exists>b. unat (time_saturating_add 0 (duration_from_millis (Suc (unat (v :: u64) mod 100)))) = b * 1000000
     \<and> 1 \<le> b \<and> b \<le> 100"
proof -
  let ?b = "Suc (unat v mod 100)"
  have "?b \<le> 100" by (simp add: Suc_leI)
  then have "unat (0 :: u64) + ?b * 1000000 \<le> u64_max" by (simp add: u64_max_def)
  from plus_millis [OF this] have "unat (time_saturating_add 0 (duration_from_millis ?b)) = ?b * 1000000" by simp
  with \<open>?b \<le> 100\<close> show ?thesis by (metis le_add1 plus_1_eq_Suc)
qed

lemma dropped_times: "time_saturating_add 0 (duration_from_millis 20) = 20000000"
  by (simp add: time_saturating_add_def duration_from_millis_def u64_saturating_add_def Let_def u64_max_def)

lemmas dropped_eval = world_eval dropped_receiver_def dropped_sender_def bytes_of_def dropped_times

lemma dropped_message_late:
  assumes dt: "time_saturating_add 0 (duration_from_millis (Suc (unat (fst (draw NetDelay tape)) mod 100))) = dt"
    "\<not> dt < 20000000" "dt \<noteq> 20000000" "\<not> 100000000 < dt" "dt \<noteq> 0"
  shows "quiesces_with no_labels run_dropped_message (world_from_tape seed cli_config tape) [''missing-message'']"
  by (simp add: quiesces_with_def run_dropped_message_def cli_config_def world_eval)
    ((subst run_loop_event, simp add: dropped_eval dt)+)

lemma dropped_message_tie:
  assumes dt: "time_saturating_add 0 (duration_from_millis (Suc (unat (fst (draw NetDelay tape)) mod 100))) = 20000000"
  shows "quiesces_with no_labels run_dropped_message (world_from_tape seed cli_config tape) [''missing-message'']"
  by (simp add: quiesces_with_def run_dropped_message_def cli_config_def world_eval)
    ((subst run_loop_event, simp add: dropped_eval dt)+)

lemma dropped_message_early:
  assumes dt: "time_saturating_add 0 (duration_from_millis (Suc (unat (fst (draw NetDelay tape)) mod 100))) = dt"
    "dt < 20000000" "\<not> 100000000 < dt" "dt \<noteq> 0" "dt \<noteq> 20000000"
  shows "quiesces_with no_labels run_dropped_message (world_from_tape seed cli_config tape) [''missing-message'']"
  by (simp add: quiesces_with_def run_dropped_message_def cli_config_def world_eval)
    ((subst run_loop_event, simp add: dropped_eval dt)+)

lemma dropped_message_quiesces:
  "quiesces_with no_labels run_dropped_message (world_from_tape seed cli_config tape) [''missing-message'']"
proof -
  define dt where "dt = time_saturating_add 0 (duration_from_millis (Suc (unat (fst (draw NetDelay tape)) mod 100)))"
  obtain b where b: "unat dt = b * 1000000" "1 \<le> b" "b \<le> 100"
    using net_delay_time [of "fst (draw NetDelay tape)"] unfolding dt_def by blast
  have bounds: "\<not> 100000000 < dt" "dt \<noteq> 0"
    using b by (auto simp: word_less_nat_alt unat_eq_zero)
  consider "dt = 20000000" | "dt < 20000000" "dt \<noteq> 20000000" | "\<not> dt < 20000000" "dt \<noteq> 20000000"
    by (cases "dt = 20000000"; cases "dt < 20000000") auto
  then show ?thesis
  proof cases
    case 1
    then show ?thesis using dropped_message_tie [OF dt_def [symmetric, unfolded 1]] by simp
  next
    case 2
    then show ?thesis using dropped_message_early [OF dt_def [symmetric]] bounds by simp
  next
    case 3
    then show ?thesis using dropped_message_late [OF dt_def [symmetric]] bounds by simp
  qed
qed

subsection \<open>The storage faults\<close>

lemma storage_bytes:
  "bytes_of ''OKAY'' = [0x4F, 0x4B, 0x41, 0x59]" "bytes_of ''ok'' = [0x6F, 0x6B]"
  "bytes_of ''ABCD'' = [0x41, 0x42, 0x43, 0x44]" "utf8_lossy [0x41, 0x42] = ''AB''"
  by (simp_all add: bytes_of_def utf8_lossy_def char_of_def bit_0)

lemmas storage_eval = world_eval page_eval storage_bytes wal_times wal_text

lemma storage_ack_before_flush_quiesces:
  "quiesces_with no_labels run_storage_ack_before_flush (world_from_tape seed protocol_config tape)
     [''ack-before-flush'', ''restart:0:restarted'', ''ack-before-flush'']"
  by (simp add: quiesces_with_def run_storage_ack_before_flush_def protocol_config_def world_eval)
    ((subst run_loop_event, simp add: storage_eval ack_before_flush_node_def)+)

lemma storage_fault_quiesces:
  "quiesces_with no_labels run_storage_fault (world_from_tape seed protocol_config tape) [''storage-corruption:bitrot'']"
  by (simp add: quiesces_with_def run_storage_fault_def protocol_config_def world_eval)
    ((subst run_loop_event, simp add: storage_eval storage_fault_node_def)+)

lemma storage_torn_write_quiesces:
  "quiesces_with no_labels run_storage_torn_write (world_from_tape seed protocol_config tape) [''torn:AB'']"
  by (simp add: quiesces_with_def run_storage_torn_write_def protocol_config_def world_eval)
    ((subst run_loop_event, simp add: storage_eval torn_write_node_def)+)

subsection \<open>The suites\<close>

lemmas world_runs = dropped_message_quiesces storage_ack_before_flush_quiesces storage_fault_quiesces
  storage_torn_write_quiesces

lemma smoke_case_recalled: "is_recalled (run_experiment_case (smoke_case dbg))"
  unfolding case_scripts
  by (rule always_failing_recalled [where h = "[''missing-message'']"])
    (simp_all add: world_with_config_def world_runs missing_message_signature_def history_has_def cli_budget_def)

lemma storage_cases_recalled:
  "is_recalled (run_experiment_case (storage_ack_before_flush_case dbg))"
  "is_recalled (run_experiment_case (storage_fault_case dbg))"
  "is_recalled (run_experiment_case (storage_torn_write_case dbg))"
proof -
  show "is_recalled (run_experiment_case (storage_ack_before_flush_case dbg))"
    unfolding case_scripts
    by (rule always_failing_recalled [where h = "[''ack-before-flush'', ''restart:0:restarted'', ''ack-before-flush'']"])
      (simp_all add: world_with_config_def world_runs storage_ack_before_flush_signature_def cli_budget_def)
  show "is_recalled (run_experiment_case (storage_fault_case dbg))"
    unfolding case_scripts
    by (rule always_failing_recalled [where h = "[''storage-corruption:bitrot'']"])
      (simp_all add: world_with_config_def world_runs storage_fault_signature_def history_has_def cli_budget_def)
  show "is_recalled (run_experiment_case (storage_torn_write_case dbg))"
    unfolding case_scripts
    by (rule always_failing_recalled [where h = "[''torn:AB'']"])
      (simp_all add: world_with_config_def world_runs storage_torn_write_signature_def history_has_def cli_budget_def)
qed

lemma suite_policy_failures:
  "es_policy_failures (run_experiment_suite suite)
     = length (filter (\<lambda>(c, policy). policy_violated c policy) (su_cases suite))"
  using fold_tally [of "su_cases suite" 0 0 0] by (simp add: run_experiment_suite_def Let_def split_beta)

lemma must_recall_ok: "is_recalled (run_experiment_case c) \<Longrightarrow> \<not> policy_violated c MustRecall"
  using run_case_report [of c] by (auto simp: policy_violated_def)

lemma smoke_and_storage_suites_pass:
  "es_policy_failures (run_experiment_suite (smoke_suite dbg)) = 0"
  "es_policy_failures (run_experiment_suite (storage_faults_suite dbg)) = 0"
  by (simp_all add: suite_policy_failures smoke_suite_def storage_faults_suite_def must_recall_ok
      smoke_case_recalled storage_cases_recalled)

end
