(* ===== verification/Seed_Zero.thy ===== *)
theory Seed_Zero
  imports Cli_Runs
begin

section \<open>The planted bugs are recalled at seed 0\<close>

text \<open>
  The protocol suites recall their planted bugs at seed 0 already. A run of that seed draws message delays
  only; \<open>seed0 k\<close> is its tape after \<open>k\<close> of them.
\<close>

definition seed0 :: "nat \<Rightarrow> entropy_tape" where
  "seed0 k = ((\<lambda>tape. snd (draw NetDelay tape)) ^^ k) (tape_generate 0)"

lemma seed0_generates: "\<exists>lg ev. seed0 k = Generate \<lparr>sm_state = 0xA5A55A5ADEADBEEF + of_nat k * golden_gamma\<rparr> lg ev"
proof (induction k)
  case 0
  then show ?case by (simp add: seed0_def tape_generate_def sm_new_def)
next
  case (Suc k)
  have "seed0 (Suc k) = snd (draw NetDelay (seed0 k))" by (simp add: seed0_def)
  with Suc show ?case by (auto simp: next_u64_def Let_def algebra_simps)
qed

lemma seed0_draw:
  "draw NetDelay (seed0 k) = (sm_mix (0xA5A55A5ADEADBEEF + of_nat (Suc k) * golden_gamma), seed0 (Suc k))"
proof -
  obtain lg ev where "seed0 k = Generate \<lparr>sm_state = 0xA5A55A5ADEADBEEF + of_nat k * golden_gamma\<rparr> lg ev"
    using seed0_generates by blast
  then have "fst (draw NetDelay (seed0 k)) = sm_mix (0xA5A55A5ADEADBEEF + of_nat (Suc k) * golden_gamma)"
    by (simp add: next_u64_def Let_def algebra_simps)
  moreover have "snd (draw NetDelay (seed0 k)) = seed0 (Suc k)" by (simp add: seed0_def)
  ultimately show ?thesis by (metis prod.collapse)
qed

lemma seed0_draws [simp]:
  "draw NetDelay (seed0 0) = (15708979835816237448, seed0 1)"
  "draw NetDelay (seed0 1) = (808134591510399389, seed0 2)"
  "draw NetDelay (seed0 2) = (15839318857305659401, seed0 3)"
  "draw NetDelay (seed0 3) = (17110806334866473897, seed0 4)"
  "draw NetDelay (seed0 4) = (17617748834719105689, seed0 5)"
  "draw NetDelay (seed0 5) = (2668890566017092359, seed0 6)"
  "draw NetDelay (seed0 6) = (4150168319349777514, seed0 7)"
  "draw NetDelay (seed0 7) = (17307888764411487498, seed0 8)"
  "draw NetDelay (seed0 8) = (10632891598453267230, seed0 9)"
  "draw NetDelay (seed0 9) = (11377189055099529053, seed0 10)"
  "draw NetDelay (seed0 10) = (3203295553179661057, seed0 11)"
  "draw NetDelay (seed0 11) = (10949538319078812815, seed0 12)"
  by (simp_all add: seed0_draw [of 0, simplified] seed0_draw [of 1, simplified] seed0_draw sm_mix_def xor_shift_def golden_gamma_def numeral_2_eq_2 [symmetric] Let_def)

lemma seed0_world: "world_with_config 0 config = world_from_tape 0 config (seed0 0)"
  by (simp add: world_with_config_def seed0_def)

lemma seed0_second [simp]: "draw NetDelay (seed0 (Suc 0)) = (808134591510399389, seed0 2)"
  using seed0_draws(2) by simp

subsection \<open>Failing at seed 0\<close>

definition leaves_history ::
  "('l \<Rightarrow> ('l, 'v) prog) \<Rightarrow> ('l, 'v) sut_future world_op list \<Rightarrow> (('l, 'v) sut_future, 'v) inner \<Rightarrow> string list \<Rightarrow> bool" where
  "leaves_history body ops w h =
     (case world_script (sut_step body) ops w of Some (Inr g) \<Rightarrow> in_history g = h | _ \<Rightarrow> False)"

lemma recalled_at_zero:
  assumes run: "leaves_history body ops (world_from_tape 0 config (seed0 0)) h"
    and fails: "\<And>r. rp_history r = h \<Longrightarrow> oracle r \<noteq> None" and blind: "replay_blind oracle"
    and seeds: "eb_seed_count budget \<noteq> 0"
  shows "\<not> policy_violated (script_case name budget (sut_step body) ops config dbg oracle) MustRecall"
proof -
  let ?c = "script_case name budget (sut_step body) ops config dbg oracle"
  obtain g where g: "world_script (sut_step body) ops (world_with_config 0 config) = Some (Inr g)" "in_history g = h"
    using run by (auto simp: leaves_history_def seed0_world split: option.splits sum.splits)
  then obtain r where r: "script_generate (sut_step body) ops config dbg 0 = Some r" "rp_history r = h"
    by (auto simp: script_generate_def report_of_script_def text_report_of_def run_report_of_def Let_def)
  have "0 < eb_seed_count budget" using seeds by (simp add: word_neq_0_conv)
  then have "first_failing ?c 0"
    using r fails by (simp add: first_failing_def failing_def script_case_def)
  moreover have "replay_faithful ?c 0" using script_case_faithful [OF r(1) blind] .
  ultimately show ?thesis by (auto simp: policy_violated_def)
qed

subsection \<open>Sequential histories\<close>

text \<open>Operations that follow each other have one linearization at most.\<close>

lemma sequential_linearization:
  assumes seq: "sorted_wrt precedes ops" and lin: "linearization M ops is"
  shows "explains M (m_init M) ops"
proof -
  have facts: "distinct is" "set is = {..<length ops}" "sorted_wrt (\<lambda>i j. \<not> precedes (ops ! j) (ops ! i)) is"
    "explains M (m_init M) (map ((!) ops) is)"
    using lin by (simp_all add: linearization_def)
  have "sorted is"
    unfolding sorted_wrt_iff_nth_less
  proof (intro allI impI)
    fix a b assume ab: "a < b" "b < length is"
    then have bound: "is ! a < length ops" "is ! b < length ops" using facts(2) nth_mem by fastforce+
    have "\<not> precedes (ops ! (is ! b)) (ops ! (is ! a))"
      using facts(3) ab by (simp add: sorted_wrt_iff_nth_less)
    then show "is ! a \<le> is ! b" using sorted_wrt_nth_less [OF seq] bound by (meson not_le)
  qed
  then have "is = [0..<length ops]"
    using facts(1,2) by (intro sorted_distinct_set_unique) (simp_all add: atLeast0LessThan)
  then show ?thesis using facts(4) by (simp add: map_nth)
qed

lemma flagged:
  assumes "sorted_wrt precedes (filter is_complete history)"
    and "\<not> explains M (m_init M) (filter is_complete history)"
    and "search_bound (length (filter is_complete history)) \<le> 10000"
  shows "linearizability_signature name (check_linearizable_with_budget M history 10000) \<noteq> None"
proof -
  let ?s = "run_search M (filter is_complete history) 10000"
  have conclusive: "\<not> lr_inconclusive ?s" using assms(3) by (rule run_search_concludes)
  moreover have "\<not> lr_linearizable ?s"
    using run_search_sound sequential_linearization [OF assms(1)] assms(2) by blast
  ultimately show ?thesis by (simp add: check_linearizable_with_budget_def linearizability_signature_def Let_def)
qed

lemmas flagged_eval = append_only_log_def op_completed_at_def is_complete_def precedes_def map_filter_simps

lemma kv_flagged:
  assumes "rp_history r = map to_history_line ops"
    and "sorted_wrt precedes (filter is_complete (List.map_filter kv_operation ops))"
    and "\<not> explains (single_key_kv None) None (filter is_complete (List.map_filter kv_operation ops))"
    and "search_bound (length (filter is_complete (List.map_filter kv_operation ops))) \<le> 10000"
  shows "single_key_signature r \<noteq> None"
  unfolding single_key_signature_def assms(1) kv_history_of
  by (rule flagged) (use assms in \<open>simp_all add: single_key_kv_def\<close>)

lemma log_flagged:
  assumes "rp_history r = map to_history_line ops" "\<forall>op \<in> set ops. log_encodable op"
    and "sorted_wrt precedes (filter is_complete (List.map_filter log_operation ops))"
    and "\<not> explains (append_only_log []) [] (filter is_complete (List.map_filter log_operation ops))"
    and "search_bound (length (filter is_complete (List.map_filter log_operation ops))) \<le> 10000"
  shows "append_log_signature r \<noteq> None"
  unfolding append_log_signature_def assms(1) log_history_of [OF assms(2)]
  by (rule flagged) (use assms in \<open>simp_all add: append_only_log_def\<close>)

subsection \<open>Evaluating a run\<close>

lemma utf8_bytes: "\<forall>c \<in> set s. of_char c < (128 :: nat) \<Longrightarrow> utf8_lossy (bytes_of s) = s"
proof (induction s)
  case (Cons c s)
  have c: "of_char c < (128 :: nat)" using Cons.prems by simp
  have "(of_char c :: u8) = of_nat (of_char c)" by (simp add: of_nat_of_char)
  then have "unat (of_char c :: u8) = take_bit 8 (of_char c)" by (simp add: unsigned_of_nat)
  with c have unat: "unat (of_char c :: u8) = of_char c" by (simp add: take_bit_nat_eq_self)
  then have "(of_char c :: u8) < 128" using c by (simp add: word_less_nat_alt)
  with unat Cons show ?case by (simp add: utf8_lossy_def bytes_of_def)
qed (simp add: utf8_lossy_def bytes_of_def)

lemma three_nodes: "map word_of_nat [0..<3] = [0 :: node_id, 1, 2]"
  by (simp add: upt_conv_Cons numeral_3_eq_3)

lemmas time_eval = time_saturating_add_def duration_from_millis_def u64_saturating_add_def u64_max_def

end
