(* ===== verification/Kv_Recall.thy ===== *)
theory Kv_Recall
  imports Seed_Zero
begin

section \<open>The planted bugs of the replicated store\<close>

text \<open>
  The runs of the six faulty variants at seed 0, event by event, and their verdicts: every case of the suite
  \<^verbatim>\<open>replicated-kv\<close> that has to be recalled is.
\<close>

subsection \<open>Evaluating the protocol\<close>

lemma kv_replies:
  "show_i32 9 = ''9''" "utf8_lossy (bytes_of ''none'') = ''none''" "utf8_lossy (bytes_of ''9'') = ''9''"
  "parse_optional_i32 ''none'' = None" "parse_optional_i32 ''9'' = Some 9" "kv_value_msg None = ''none''"
  "show_nat 0 = ''0''" "utf8_lossy (bytes_of ''index:0'') = ''index:0''" "parse_index ''index:0'' = Some 0"
  "utf8_lossy (bytes_of ''x,x'') = ''x,x''" "parse_entries ''x,x'' = [''x'', ''x'']"
proof -
  show nine: "show_i32 9 = ''9''" by (simp add: show_i32_def show_nat.simps digit_char_def)
  show "parse_optional_i32 ''9'' = Some 9" using parse_show_i32 [of 9] nine by (simp add: parse_optional_i32_def)
qed (simp_all add: utf8_bytes parse_optional_i32_def kv_value_msg_def show_nat.simps digit_char_def parse_index_def
    strip_prefix_def parse_unsigned_def parse_entries_def u64_max_def is_digit_def digit_value_def)

lemmas kv_node_defs = run_primary_backup_kv_def run_primary_def kv_config_with_bug_def kv_client_node_def
  run_primary_backup_kv_client_def single_key_client_def single_key_read_def put_if_ok_def record_ops_def
  append_log_client_def uncommitted_follower_client_def

lemmas kv_server_defs = primary_handle_def primary_put_def replicate_to_node_def follower_handle_def log_handle_def
  replicate_msg_def kv_ok_def kv_texts kv_replies cm_block_def

lemmas kv_world_defs = leaves_history_def run_replicated_kv_variant_def protocol_config_def three_nodes

subsection \<open>The runs\<close>

lemma run_AckBeforeReplicate:
  "leaves_history (kv_body AckBeforeReplicate) (run_replicated_kv_variant AckBeforeReplicate) (world_from_tape 0 protocol_config (seed0 0))
     (map to_history_line [RecKvPut 1 4 7 0 147000000, RecKvGet 2 4 None 147000000 222000000])"
  by (simp add: kv_world_defs world_eval del: to_history_line.simps)
    ((subst run_loop_event, simp add: kv_node_defs kv_server_defs world_eval time_eval del: to_history_line.simps)+)

lemma run_ReadFromStaleFollower:
  "leaves_history (kv_body ReadFromStaleFollower) (run_replicated_kv_variant ReadFromStaleFollower) (world_from_tape 0 protocol_config (seed0 0))
     (map to_history_line [RecKvPut 1 4 7 0 239000000, RecKvGet 2 4 None 239000000 389000000])"
  by (simp add: kv_world_defs world_eval del: to_history_line.simps)
    ((subst run_loop_event, simp add: kv_node_defs kv_server_defs world_eval time_eval del: to_history_line.simps)+)

lemma run_LostUpdate:
  "leaves_history (kv_body LostUpdate) (run_replicated_kv_variant LostUpdate) (world_from_tape 0 protocol_config (seed0 0))
     (map to_history_line [RecKvPut 1 4 7 0 239000000, RecKvPut 2 4 9 239000000 503000000, RecKvGet 3 4 (Some 7) 503000000 588000000])"
  by (simp add: kv_world_defs world_eval del: to_history_line.simps)
    ((subst run_loop_event, simp add: kv_node_defs kv_server_defs world_eval time_eval del: to_history_line.simps)+)

lemma run_DuplicateRequestReapplied:
  "leaves_history (kv_body DuplicateRequestReapplied) (run_replicated_kv_variant DuplicateRequestReapplied) (world_from_tape 0 protocol_config (seed0 0))
     (map to_history_line [RecLogAppend 1 4 ''x'' 0 0 139000000, RecLogRead 2 4 [''x'', ''x''] 139000000 239000000])"
  by (simp add: kv_world_defs world_eval del: to_history_line.simps)
    ((subst run_loop_event, simp add: kv_node_defs kv_server_defs world_eval time_eval del: to_history_line.simps)+)

lemma run_FollowerAppliesUncommitted:
  "leaves_history (kv_body FollowerAppliesUncommitted) (run_replicated_kv_variant FollowerAppliesUncommitted) (world_from_tape 0 protocol_config (seed0 0))
     (map to_history_line [RecKvGet 2 4 (Some 7) 250000000 350000000])"
  by (simp add: kv_world_defs world_eval del: to_history_line.simps)
    ((subst run_loop_event, simp add: kv_node_defs kv_server_defs world_eval time_eval del: to_history_line.simps)+)

lemma run_QuorumCountOffByOne:
  "leaves_history (kv_body QuorumCountOffByOne) (run_replicated_kv_variant QuorumCountOffByOne) (world_from_tape 0 protocol_config (seed0 0))
     (map to_history_line [RecKvPut 1 4 7 0 239000000, RecKvGet 2 4 None 239000000 389000000])"
  by (simp add: kv_world_defs world_eval del: to_history_line.simps)
    ((subst run_loop_event, simp add: kv_node_defs kv_server_defs world_eval time_eval del: to_history_line.simps)+)

subsection \<open>The verdicts\<close>

lemma kv_recalled:
  "\<not> policy_violated (replicated_kv_ack_before_replicate_case dbg) MustRecall"
  "\<not> policy_violated (replicated_kv_case dbg) MustRecall"
  "\<not> policy_violated (replicated_kv_lost_update_case dbg) MustRecall"
  "\<not> policy_violated (replicated_kv_duplicate_request_case dbg) MustRecall"
  "\<not> policy_violated (replicated_kv_follower_applies_uncommitted_case dbg) MustRecall"
  "\<not> policy_violated (replicated_kv_quorum_count_off_by_one_case dbg) MustRecall"
proof -
  show "\<not> policy_violated (replicated_kv_ack_before_replicate_case dbg) MustRecall"
    unfolding case_scripts
    by (rule recalled_at_zero [OF run_AckBeforeReplicate], erule kv_flagged)
      (simp_all add: flagged_eval cli_budget_def)
  show "\<not> policy_violated (replicated_kv_case dbg) MustRecall"
    unfolding case_scripts
    by (rule recalled_at_zero [OF run_ReadFromStaleFollower], erule kv_flagged)
      (simp_all add: flagged_eval cli_budget_def)
  show "\<not> policy_violated (replicated_kv_lost_update_case dbg) MustRecall"
    unfolding case_scripts
    by (rule recalled_at_zero [OF run_LostUpdate], erule kv_flagged)
      (simp_all add: flagged_eval cli_budget_def)
  show "\<not> policy_violated (replicated_kv_duplicate_request_case dbg) MustRecall"
    unfolding case_scripts
    by (rule recalled_at_zero [OF run_DuplicateRequestReapplied], erule log_flagged)
      (simp_all add: flagged_eval cli_budget_def)
  show "\<not> policy_violated (replicated_kv_follower_applies_uncommitted_case dbg) MustRecall"
    unfolding case_scripts
    by (rule recalled_at_zero [OF run_FollowerAppliesUncommitted], erule kv_flagged)
      (simp_all add: flagged_eval cli_budget_def)
  show "\<not> policy_violated (replicated_kv_quorum_count_off_by_one_case dbg) MustRecall"
    unfolding case_scripts
    by (rule recalled_at_zero [OF run_QuorumCountOffByOne], erule kv_flagged)
      (simp_all add: flagged_eval cli_budget_def)
qed

end
