(* ===== verification/Raft_Recall.thy ===== *)
theory Raft_Recall
  imports Seed_Zero
begin

section \<open>The planted bugs of the Raft-shaped protocol\<close>

text \<open>
  The runs of its faulty variants at seed 0, event by event, and their verdicts: every case of the suite
  \<^verbatim>\<open>mini-raft-smoke\<close> is recalled. The clients of four variants record the operations of
  \<^verbatim>\<open>checker_backed\<close> instead of their own.
\<close>

subsection \<open>Evaluating the protocol\<close>

lemmas raft_node_defs = run_mini_raft_def run_node_zero_def run_node_one_def run_node_two_def
  run_persistence_probe_def mini_raft_with_bug_def mini_raft_persistence_probe_def run_mini_raft_kv_client_def
  notify_observer_def raft_observer_node_def record_ops_def raft_write_def raft_read_def put_if_ok_def
  raft_stale_read_history_client_def raft_visible_bug_history_client_def raft_duplicate_history_client_def
  checker_backed_ops_def raft_kv_put_def raft_kv_get_def add_raft_observer_def

lemma duplicate_rounds:
  "duplicate_request_rounds 2 applied = Recv (\<lambda>client msg.
     if msg = bytes_of ''client:req-1:append:x''
     then Send client (bytes_of (''applied:'' @ show_nat (applied + 1))) (duplicate_request_rounds 1 (applied + 1))
     else duplicate_request_rounds 1 applied)"
  by (simp add: numeral_2_eq_2 fun_eq_iff)

lemmas raft_server_defs = leader_handle_def replica_handle_def raft_value_msg_def stop_replicas_def
  run_client_visible_bug_leader_def run_leader_for_stale_read_def run_duplicate_request_leader_def
  duplicate_rounds collect_protocol_events_def probe_write_def probe_label_def

lemmas raft_world_defs = leaves_history_def run_mini_raft_client_variant_def run_mini_raft_persistence_variant_def
  run_mini_raft_observed_variant_def protocol_config_def three_nodes add_raft_observer_def

lemma raft_texts:
  "show_nat 0 = ''0''" "show_nat (Suc 0) = ''1''" "show_nat (Suc (Suc 0)) = ''2''"
  by (simp_all add: show_nat.simps digit_char_def)

lemma raft_labels:
  "utf8_lossy (bytes_of ''leader:0'') = ''leader:0''" "utf8_lossy (bytes_of ''leader:1'') = ''leader:1''"
  "utf8_lossy (bytes_of ''raft-invariant:single-leader-per-term'') = ''raft-invariant:single-leader-per-term''"
  "utf8_lossy (bytes_of ''raft-bug:term-not-persisted'') = ''raft-bug:term-not-persisted''"
  "utf8_lossy (bytes_of ''raft-bug:vote-not-persisted'') = ''raft-bug:vote-not-persisted''"
  by (simp_all add: utf8_bytes)

subsection \<open>The runs\<close>

lemma run_WrongCommitRule:
  "leaves_history raft_body (run_mini_raft_client_variant WrongCommitRule) (world_from_tape 0 protocol_config (seed0 0))
     (map to_history_line [RecKvPut 1 4 1 0 1, RecKvGet 2 4 None 2 3])"
  by (simp add: raft_world_defs world_eval del: to_history_line.simps)
    ((subst run_loop_event, simp add: raft_node_defs raft_server_defs raft_texts raft_labels world_eval time_eval del: to_history_line.simps)+)

lemma run_WrongLogMatching:
  "leaves_history raft_body (run_mini_raft_client_variant WrongLogMatching) (world_from_tape 0 protocol_config (seed0 0))
     (map to_history_line [RecKvPut 1 4 1 0 1, RecKvGet 2 4 None 2 3])"
  by (simp add: raft_world_defs world_eval del: to_history_line.simps)
    ((subst run_loop_event, simp add: raft_node_defs raft_server_defs raft_texts raft_labels world_eval time_eval del: to_history_line.simps)+)

lemma run_FollowerStaleRead:
  "leaves_history raft_body (run_mini_raft_client_variant FollowerStaleRead) (world_from_tape 0 protocol_config (seed0 0))
     (map to_history_line [RecKvPut 1 4 1 0 239000000, RecKvGet 2 4 None 239000000 389000000])"
  by (simp add: raft_world_defs world_eval del: to_history_line.simps)
    ((subst run_loop_event, simp add: raft_node_defs raft_server_defs raft_texts raft_labels world_eval time_eval del: to_history_line.simps)+)

lemma run_DuplicateClientRequest:
  "leaves_history raft_body (run_mini_raft_client_variant DuplicateClientRequest) (world_from_tape 0 protocol_config (seed0 0))
     (map to_history_line [RecLogAppend 1 4 ''x'' 0 0 1, RecLogRead 2 4 [''x'', ''x''] 2 3])"
  by (simp add: raft_world_defs world_eval del: to_history_line.simps)
    ((subst run_loop_event, simp add: raft_node_defs raft_server_defs raft_texts raft_labels world_eval time_eval del: to_history_line.simps)+)

lemma run_ApplyBeforeCommit:
  "leaves_history raft_body (run_mini_raft_client_variant ApplyBeforeCommit) (world_from_tape 0 protocol_config (seed0 0))
     (map to_history_line [RecKvPut 1 4 1 0 1, RecKvGet 2 4 None 2 3])"
  by (simp add: raft_world_defs world_eval del: to_history_line.simps)
    ((subst run_loop_event, simp add: raft_node_defs raft_server_defs raft_texts raft_labels world_eval time_eval del: to_history_line.simps)+)

lemma run_OldTermLeaderCommitsEntry:
  "leaves_history raft_body (run_mini_raft_client_variant OldTermLeaderCommitsEntry) (world_from_tape 0 protocol_config (seed0 0))
     (map to_history_line [RecKvPut 1 4 1 0 1, RecKvGet 2 4 None 2 3])"
  by (simp add: raft_world_defs world_eval del: to_history_line.simps)
    ((subst run_loop_event, simp add: raft_node_defs raft_server_defs raft_texts raft_labels world_eval time_eval del: to_history_line.simps)+)

lemma probe_bytes:
  "bytes_of ''0'' = [0x30]" "bytes_of ''1'' = [0x31]" "bytes_of ''x'' = [0x78]" "bytes_of ''10x'' = [0x31, 0x30, 0x78]"
  "(of_char CHR ''0'' :: u8) = 0x30" "(of_char CHR ''1'' :: u8) = 0x31"
  by (simp_all add: bytes_of_def)

lemma run_TermNotPersisted:
  "leaves_history raft_body (run_mini_raft_persistence_variant TermNotPersisted) (world_from_tape 0 protocol_config (seed0 0))
     [''restart:0:restarted'', ''raft-bug:term-not-persisted'']"
  by (simp add: raft_world_defs world_eval)
    ((subst run_loop_event, simp add: raft_node_defs raft_server_defs raft_texts raft_labels world_eval time_eval page_eval probe_bytes)+)

lemma run_VoteNotPersisted:
  "leaves_history raft_body (run_mini_raft_persistence_variant VoteNotPersisted) (world_from_tape 0 protocol_config (seed0 0))
     [''restart:0:restarted'', ''raft-bug:vote-not-persisted'']"
  by (simp add: raft_world_defs world_eval)
    ((subst run_loop_event, simp add: raft_node_defs raft_server_defs raft_texts raft_labels world_eval time_eval page_eval probe_bytes)+)

lemma run_DualLeader:
  "leaves_history raft_body (run_mini_raft_observed_variant DualLeaderUnderPartition 4) (world_from_tape 0 protocol_config (seed0 0))
     [''leader:1'', ''leader:0'', ''raft-invariant:single-leader-per-term'',
       ''raft-invariant:single-leader-per-term'']"
  by (simp add: raft_world_defs world_eval)
    ((subst run_loop_event, simp add: raft_node_defs raft_server_defs raft_texts raft_labels world_eval time_eval)+)

subsection \<open>The verdicts\<close>

lemma protocol_kv_flagged:
  assumes "rp_history r = map to_history_line ops" "List.map_filter log_operation ops = []"
    and "\<forall>op \<in> set ops. log_encodable op"
    and "sorted_wrt precedes (filter is_complete (List.map_filter kv_operation ops))"
    and "\<not> explains (single_key_kv None) None (filter is_complete (List.map_filter kv_operation ops))"
    and "search_bound (length (filter is_complete (List.map_filter kv_operation ops))) \<le> 10000"
  shows "protocol_history_signature r \<noteq> None"
proof -
  have "append_log_history (rp_history r) = []" by (simp add: assms(1,2) log_history_of [OF assms(3)])
  then show ?thesis using kv_flagged [OF assms(1,4-)] by (simp add: protocol_history_signature_def Let_def)
qed

lemma protocol_log_flagged:
  assumes "rp_history r = map to_history_line ops" "List.map_filter log_operation ops \<noteq> []"
    and "\<forall>op \<in> set ops. log_encodable op"
    and "sorted_wrt precedes (filter is_complete (List.map_filter log_operation ops))"
    and "\<not> explains (append_only_log []) [] (filter is_complete (List.map_filter log_operation ops))"
    and "search_bound (length (filter is_complete (List.map_filter log_operation ops))) \<le> 10000"
  shows "protocol_history_signature r \<noteq> None"
  unfolding protocol_history_signature_def Let_def assms(1) log_history_of [OF assms(3)] if_P [OF assms(2)]
  by (rule flagged) (use assms in \<open>simp_all add: append_only_log_def\<close>)

lemma raft_recalled:
  "\<not> policy_violated (mini_raft_wrong_commit_rule_case dbg) MustRecall"
  "\<not> policy_violated (mini_raft_wrong_log_matching_case dbg) MustRecall"
  "\<not> policy_violated (mini_raft_smoke_case dbg) MustRecall"
  "\<not> policy_violated (mini_raft_duplicate_client_request_case dbg) MustRecall"
  "\<not> policy_violated (mini_raft_apply_before_commit_case dbg) MustRecall"
  "\<not> policy_violated (mini_raft_old_term_leader_commits_entry_case dbg) MustRecall"
  "\<not> policy_violated (mini_raft_term_not_persisted_case dbg) MustRecall"
  "\<not> policy_violated (mini_raft_vote_not_persisted_case dbg) MustRecall"
  "\<not> policy_violated (mini_raft_dual_leader_case dbg) MustRecall"
proof -
  show "\<not> policy_violated (mini_raft_wrong_commit_rule_case dbg) MustRecall"
    unfolding case_scripts
    by (rule recalled_at_zero [OF run_WrongCommitRule], erule protocol_kv_flagged) (simp_all add: flagged_eval cli_budget_def)
  show "\<not> policy_violated (mini_raft_wrong_log_matching_case dbg) MustRecall"
    unfolding case_scripts
    by (rule recalled_at_zero [OF run_WrongLogMatching], erule protocol_kv_flagged) (simp_all add: flagged_eval cli_budget_def)
  show "\<not> policy_violated (mini_raft_smoke_case dbg) MustRecall"
    unfolding case_scripts
    by (rule recalled_at_zero [OF run_FollowerStaleRead], erule protocol_kv_flagged) (simp_all add: flagged_eval cli_budget_def)
  show "\<not> policy_violated (mini_raft_duplicate_client_request_case dbg) MustRecall"
    unfolding case_scripts
    by (rule recalled_at_zero [OF run_DuplicateClientRequest], erule protocol_log_flagged) (simp_all add: flagged_eval cli_budget_def)
  show "\<not> policy_violated (mini_raft_apply_before_commit_case dbg) MustRecall"
    unfolding case_scripts
    by (rule recalled_at_zero [OF run_ApplyBeforeCommit], erule protocol_kv_flagged) (simp_all add: flagged_eval cli_budget_def)
  show "\<not> policy_violated (mini_raft_old_term_leader_commits_entry_case dbg) MustRecall"
    unfolding case_scripts
    by (rule recalled_at_zero [OF run_OldTermLeaderCommitsEntry], erule protocol_kv_flagged) (simp_all add: flagged_eval cli_budget_def)
  show "\<not> policy_violated (mini_raft_term_not_persisted_case dbg) MustRecall"
    unfolding case_scripts
    by (rule recalled_at_zero [OF run_TermNotPersisted])
      (simp_all add: mini_raft_term_not_persisted_signature_def history_has_def cli_budget_def)
  show "\<not> policy_violated (mini_raft_vote_not_persisted_case dbg) MustRecall"
    unfolding case_scripts
    by (rule recalled_at_zero [OF run_VoteNotPersisted])
      (simp_all add: mini_raft_vote_not_persisted_signature_def history_has_def cli_budget_def)
  show "\<not> policy_violated (mini_raft_dual_leader_case dbg) MustRecall"
    unfolding case_scripts
    by (rule recalled_at_zero [OF run_DualLeader])
      (simp_all add: mini_raft_dual_leader_signature_def history_has_def cli_budget_def)
qed

lemma mini_raft_smoke_suite_passes: "es_policy_failures (run_experiment_suite (mini_raft_smoke_suite dbg)) = 0"
  by (simp add: suite_policy_failures mini_raft_smoke_suite_def raft_recalled)

end
