(* ===== verification/Async_Network.thy ===== *)
theory Async_Network
  imports Scenarios Sim_Order
begin

section \<open>The asynchronous network behind the simulator\<close>

text \<open>
  \<open>net_step\<close> is what a program over \<open>Env\<close> may rely on, whatever the scheduler does: an asynchronous
  network of one program per node. A message takes time, is delivered at most once, and may be lost; messages
  overtake each other; a node may see any storage contents and any timeout; what a crash throws away is an inbox
  and messages in flight. \<open>world_run_refines_network\<close> says that the simulator is an instance: the history of
  every run of a world whose faults are drops, delays, partitions, crashes and storage faults is the history of a
  reachable network state. A protocol is then proved safe on the network, once for all runs.
\<close>

subsection \<open>The network\<close>

record ('l, 'v) network =
  nt_clock :: sim_time
  nt_nodes :: "node_id \<Rightarrow> ('l, 'v) prog option"
  nt_flight :: "(sim_time \<times> node_id \<times> node_id \<times> message) multiset"
  nt_inbox :: "node_id \<Rightarrow> (node_id \<times> message) list"
  nt_history :: "string list"

definition net_start :: "('l, 'v) network" where
  "net_start = \<lparr>nt_clock = 0, nt_nodes = (\<lambda>_. None), nt_flight = {#}, nt_inbox = (\<lambda>_. []), nt_history = []\<rparr>"

abbreviation at_node :: "('l, 'v) network \<Rightarrow> node_id \<Rightarrow> ('l, 'v) prog \<Rightarrow> ('l, 'v) network" where
  "at_node N n p \<equiv> N\<lparr>nt_nodes := (nt_nodes N)(n \<mapsto> p)\<rparr>"

text \<open>A flying message carries the time from which on it may be delivered. \<open>progs\<close> says which nodes there
  may be, and what they run.\<close>

inductive net_step ::
  "('l \<Rightarrow> ('l, 'v) prog) \<Rightarrow> (node_id \<Rightarrow> ('l, 'v) prog option) \<Rightarrow> ('l, 'v) network \<Rightarrow> ('l, 'v) network \<Rightarrow> bool"
  for body :: "'l \<Rightarrow> ('l, 'v) prog" and progs where
  net_begin: "nt_nodes N n = None \<Longrightarrow> progs n = Some p \<Longrightarrow> net_step body progs N (at_node N n p)"
| net_goto: "nt_nodes N n = Some (Goto l) \<Longrightarrow> net_step body progs N (at_node N n (body l))"
| net_now: "nt_nodes N n = Some (Now k) \<Longrightarrow> net_step body progs N (at_node N n (k (nt_clock N)))"
| net_send: "nt_nodes N n = Some (Send dst m p) \<Longrightarrow> nt_clock N < t \<Longrightarrow>
    net_step body progs N ((at_node N n p)\<lparr>nt_flight := add_mset (t, n, dst, m) (nt_flight N)\<rparr>)"
| net_recv: "nt_nodes N n = Some (Recv k) \<Longrightarrow> nt_inbox N n = (src, m) # rest \<Longrightarrow>
    net_step body progs N ((at_node N n (k src m))\<lparr>nt_inbox := (nt_inbox N)(n := rest)\<rparr>)"
| net_timed_recv: "nt_nodes N n = Some (TimedRecv d k) \<Longrightarrow> nt_inbox N n = (src, m) # rest \<Longrightarrow>
    net_step body progs N ((at_node N n (k (Some (src, m))))\<lparr>nt_inbox := (nt_inbox N)(n := rest)\<rparr>)"
| net_timeout: "nt_nodes N n = Some (TimedRecv d k) \<Longrightarrow> net_step body progs N (at_node N n (k None))"
| net_sleep: "nt_nodes N n = Some (Sleep d p) \<Longrightarrow> net_step body progs N (at_node N n p)"
| net_write: "nt_nodes N n = Some (WriteAt off data p) \<Longrightarrow> net_step body progs N (at_node N n p)"
| net_read: "nt_nodes N n = Some (ReadAt off buf k) \<Longrightarrow> net_step body progs N (at_node N n (k cnt out))"
| net_flush: "nt_nodes N n = Some (Flush p) \<Longrightarrow> net_step body progs N (at_node N n p)"
| net_len: "nt_nodes N n = Some (Len k) \<Longrightarrow> net_step body progs N (at_node N n (k cnt))"
| net_record: "nt_nodes N n = Some (Record event p) \<Longrightarrow>
    net_step body progs N ((at_node N n p)\<lparr>nt_history := nt_history N @ [event]\<rparr>)"
| net_tick: "nt_clock N \<le> t \<Longrightarrow> net_step body progs N (N\<lparr>nt_clock := t\<rparr>)"
| net_deliver: "nt_flight N = add_mset (t, src, dst, m) F \<Longrightarrow> t \<le> nt_clock N \<Longrightarrow>
    net_step body progs N (N\<lparr>nt_flight := F, nt_inbox := (nt_inbox N)(dst := nt_inbox N dst @ [(src, m)])\<rparr>)"
| net_lose: "F \<subseteq># nt_flight N \<Longrightarrow> net_step body progs N (N\<lparr>nt_flight := F\<rparr>)"
| net_forget: "net_step body progs N (N\<lparr>nt_inbox := (nt_inbox N)(n := [])\<rparr>)"

abbreviation net_steps ::
  "('l \<Rightarrow> ('l, 'v) prog) \<Rightarrow> (node_id \<Rightarrow> ('l, 'v) prog option) \<Rightarrow> ('l, 'v) network \<Rightarrow> ('l, 'v) network \<Rightarrow> bool" where
  "net_steps body progs \<equiv> (net_step body progs)\<^sup>*\<^sup>*"

inductive_cases net_step_cases: "net_step body progs N N'"

subsection \<open>What a future has left to do\<close>

text \<open>The network has no tasks besides the nodes.\<close>

primrec spawn_free :: "('l, 'v) prog \<Rightarrow> bool" where
  "spawn_free (Return v) = True"
| "spawn_free (Goto l) = True"
| "spawn_free (Now k) = (\<forall>t. spawn_free (k t))"
| "spawn_free (Send dst msg p) = spawn_free p"
| "spawn_free (Recv k) = (\<forall>src msg. spawn_free (k src msg))"
| "spawn_free (Sleep d p) = spawn_free p"
| "spawn_free (TimedRecv d k) = (\<forall>x. spawn_free (k x))"
| "spawn_free (WriteAt off data p) = spawn_free p"
| "spawn_free (ReadAt off buf k) = (\<forall>n out. spawn_free (k n out))"
| "spawn_free (Flush p) = spawn_free p"
| "spawn_free (Len k) = (\<forall>n. spawn_free (k n))"
| "spawn_free (Record event p) = spawn_free p"
| "spawn_free (SpawnTask child k) = False"
| "spawn_free (Join h k) = False"

text \<open>\<open>runs f p\<close>: the future \<open>f\<close> is the program \<open>p\<close> at its current await.\<close>

primrec runs :: "('l, 'v) sut_future \<Rightarrow> ('l, 'v) prog \<Rightarrow> bool" where
  "runs (Running q) p = (p = q)"
| "runs (Yield f) p = runs f p"
| "runs (Receiving this k) p = (p = Recv k)"
| "runs (Sleeping this q) p = (\<exists>d. p = Sleep d q)"
| "runs (Joining this k) p = (p = Join this k)"
| "runs (Racing r f k) p = (\<exists>d. p = TimedRecv d k)"
| "runs (TimerTurn d r timer k) p = (\<exists>d'. p = TimedRecv d' k)"
| "runs (DropTimer f q) p = (p = q)"
| "runs (DropRecv r q) p = (p = q)"

subsection \<open>Matching states\<close>

text \<open>The deliveries of the queue are the messages in flight.\<close>

definition flying :: "keyed \<Rightarrow> (sim_time \<times> node_id \<times> node_id \<times> message) multiset" where
  "flying e = (case k_kind e of DeliverMsg src dst msg \<Rightarrow> {#(k_time e, src, dst, msg)#} | _ \<Rightarrow> {#})"

definition flight_of :: "keyed list \<Rightarrow> (sim_time \<times> node_id \<times> node_id \<times> message) multiset" where
  "flight_of q = (\<Sum>e \<in># mset q. flying e)"

lemma flight_of_push [simp]: "flight_of (queue_push e q) = flying e + flight_of q"
  by (simp add: flight_of_def)

lemma flight_of_simps [simp]: "flight_of [] = {#}" "flight_of (e # q) = flying e + flight_of q"
  by (simp_all add: flight_of_def)

lemma flying_simps [simp]:
  "flying \<lparr>k_time = t, k_seq = sq, k_kind = PollTask task\<rparr> = {#}"
  "flying \<lparr>k_time = t, k_seq = sq, k_kind = TimerFire timer\<rparr> = {#}"
  "flying \<lparr>k_time = t, k_seq = sq, k_kind = NemesisEvent action\<rparr> = {#}"
  "flying \<lparr>k_time = t, k_seq = sq, k_kind = DeliverMsg src dst msg\<rparr> = {#(t, src, dst, msg)#}"
  by (simp_all add: flying_def)

lemma flight_of_filter: "flight_of (queue_filter P q) \<subseteq># flight_of q"
proof -
  have "(\<Sum>e \<in># mset q. flying e)
      = (\<Sum>e \<in># filter_mset P (mset q) + filter_mset (\<lambda>e. \<not> P e) (mset q). flying e)"
    by (rule arg_cong [where f = "\<lambda>M. \<Sum>e \<in># M. flying e", OF multiset_partition])
  then have "flight_of q = flight_of (queue_filter P q) + (\<Sum>e \<in># filter_mset (\<lambda>e. \<not> P e) (mset q). flying e)"
    by (simp only: flight_of_def mset_queue_filter image_mset_union sum_mset.union)
  then show ?thesis by simp
qed

definition world_sim :: "('f, 'w) inner \<Rightarrow> ('l, 'v) network \<Rightarrow> bool" where
  "world_sim g N \<longleftrightarrow>
     nt_clock N = in_now g \<and> nt_flight N = flight_of (in_queue g)
     \<and> nt_inbox N = btm_get_or [] (in_inboxes g) \<and> nt_history N = in_history g"

text \<open>The faults a network has, and a clock that has not reached its end.\<close>

primrec calm_action :: "nemesis_action \<Rightarrow> bool" where
  "calm_action (Partition groups) = True"
| "calm_action (AsymmetricPartition a b) = True"
| "calm_action (SetLink a b up) = True"
| "calm_action HealAll = True"
| "calm_action (Crash node) = True"
| "calm_action (Restart node) = False"
| "calm_action (ClockSkew node offset_ns) = False"
| "calm_action (BitRot node) = True"
| "calm_action (TornWrite node) = True"
| "calm_action (LostOnCrash node) = True"
| "calm_action (PreFsyncReorder node) = True"

definition calm_event :: "keyed \<Rightarrow> bool" where
  "calm_event e = (case k_kind e of NemesisEvent action \<Rightarrow> calm_action action | _ \<Rightarrow> True)"

definition calm :: "('f, 'v) inner \<Rightarrow> bool" where
  "calm g \<longleftrightarrow>
     fc_duplicate_percent (in_faults g) = 0 \<and> fc_clock_skew_ns (in_faults g) = []
     \<and> (\<forall>n. btm_get_or 0 (in_last_local_now g) n \<le> in_now g)
     \<and> (\<forall>e \<in> set (in_queue g). calm_event e)
     \<and> wc_horizon_ns (in_config g) < - 1"

subsection \<open>One call\<close>

lemma calm_local_now:
  assumes "calm g"
  shows "local_now n g = (in_now g, g\<lparr>in_last_local_now := btm_insert n (in_now g) (in_last_local_now g)\<rparr>)"
proof -
  have "clock_skew n g = 0" using assms by (simp add: calm_def clock_skew_def btm_get_or_def)
  moreover have "btm_get_or 0 (in_last_local_now g) n \<le> in_now g" using assms by (simp add: calm_def)
  ultimately show ?thesis by (auto simp: local_now_plain Let_def time_zero_def)
qed

text \<open>What changes neither the network side of the state nor the tasks.\<close>

definition same_net :: "('f, 'v) inner \<Rightarrow> ('f, 'v) inner \<Rightarrow> bool" where
  "same_net g g' \<longleftrightarrow>
     in_now g' = in_now g \<and> flight_of (in_queue g') = flight_of (in_queue g) \<and> in_inboxes g' = in_inboxes g
     \<and> in_history g' = in_history g"

definition same_tasks :: "('f, 'v) inner \<Rightarrow> ('f, 'v) inner \<Rightarrow> bool" where
  "same_tasks g g' \<longleftrightarrow> in_tasks g' = in_tasks g \<and> in_nodes g' = in_nodes g \<and> in_next_task_id g' = in_next_task_id g"

lemma same_net_sim: "same_net g g' \<Longrightarrow> world_sim g N \<Longrightarrow> world_sim g' N"
  by (simp add: same_net_def world_sim_def)

lemma same_net_ops:
  "calm g \<Longrightarrow> sleep_poll n sf g = Inr (b, sf', g') \<Longrightarrow> same_net g g' \<and> same_tasks g g'"
  "same_net g (sleep_drop sf g) \<and> same_tasks g (sleep_drop sf g)"
  "same_net g (recv_drop n rf g) \<and> same_tasks g (recv_drop n rf g)"
  "storage_write_at n off data g = Inr g' \<Longrightarrow> same_net g g' \<and> same_tasks g g'"
  "storage_flush n g = Inr g' \<Longrightarrow> same_net g g' \<and> same_tasks g g'"
  by (auto simp: same_net_def same_tasks_def sleep_poll_def calm_local_now register_timer_def push_event_def
      cancel_timer_def sleep_drop_def recv_drop_def unregister_recv_waiter_def storage_write_at_def
      storage_flush_def set_store_def Let_def split: if_splits option.splits)

lemma recv_poll_net:
  assumes "recv_poll n rf g = Inr (got, rf', g')" and "world_sim g N"
  shows "same_tasks g g' \<and> (case got of
      None \<Rightarrow> world_sim g' N
    | Some am \<Rightarrow> \<exists>rest. nt_inbox N n = am # rest \<and> world_sim g' (N\<lparr>nt_inbox := (nt_inbox N)(n := rest)\<rparr>))"
  using assms
  by (auto simp: recv_poll_def world_sim_def same_tasks_def btm_get_or_def register_recv_waiter_def
      unregister_recv_waiter_def Let_def fun_eq_iff split: list.splits option.splits if_splits)

lemma net_delay_positive:
  assumes "draw_net_delay_ms g = Inr (d, g')"
  shows "0 < d \<and> same_net g g' \<and> same_tasks g g' \<and> in_faults g' = in_faults g"
  using assms
  by (auto simp: draw_net_delay_ms_def tape_draw_def same_net_def same_tasks_def Let_def split_beta split: if_splits)

lemma saturating_add_later:
  assumes "t < - 1" and "0 < d"
  shows "t < time_saturating_add t (duration_from_millis d)"
proof -
  have "unat t < u64_max" using assms(1) by (simp add: word_less_nat_alt unat_u64_minus_one)
  moreover have "0 < duration_from_millis d" using assms(2) by (simp add: duration_from_millis_def)
  ultimately show ?thesis by (simp add: word_less_nat_alt unat_time_saturating_add)
qed

lemma net_send_net:
  assumes "net_send n dst msg g = Inr g'" and "world_sim g N" and "calm g" and "in_now g < - 1"
  shows "same_tasks g g' \<and> (world_sim g' N \<or>
    (\<exists>t. nt_clock N < t \<and> world_sim g' (N\<lparr>nt_flight := add_mset (t, n, dst, msg) (nt_flight N)\<rparr>)))"
proof (cases "n \<in> in_crashed g")
  case True
  then show ?thesis using assms(1,2) by (auto simp: net_send_def world_sim_def same_tasks_def)
next
  case False
  then obtain d g1 where d: "draw_net_delay_ms g = Inr (d, g1)"
    using assms(1) by (auto simp: net_send_def split: sum.splits prod.splits)
  note g1 = net_delay_positive [OF d]
  let ?t = "time_saturating_add (in_now g1) (duration_from_millis d)"
  have "g' = push_event ?t (DeliverMsg n dst msg) g1"
    using assms(1,3) False d g1 by (auto simp: net_send_def draw_percent_def calm_def push_event_def Let_def)
  moreover have "nt_clock N < ?t"
    using saturating_add_later [of "in_now g1" d] g1 assms(2,4) by (simp add: same_net_def world_sim_def)
  ultimately show ?thesis
    using assms(2) g1 by (auto simp: world_sim_def same_net_def same_tasks_def push_event_def)
qed


text \<open>One call of a polled future is at most two steps of its node: entering a loop, and the call itself.\<close>

definition node_moves ::
  "('l \<Rightarrow> ('l, 'v) prog) \<Rightarrow> (node_id \<Rightarrow> ('l, 'v) prog option) \<Rightarrow> node_id \<Rightarrow> ('l, 'v) network
     \<Rightarrow> (('l, 'v) sut_future, 'v) inner \<Rightarrow> ('l, 'v) sut_future \<Rightarrow> bool" where
  "node_moves body progs n N g' f' \<longleftrightarrow>
     (\<exists>N' p'. net_steps body progs N N' \<and> world_sim g' N' \<and> nt_nodes N' = (nt_nodes N)(n \<mapsto> p')
        \<and> runs f' p' \<and> spawn_free p')"

lemma node_stays:
  "nt_nodes N n = Some p \<Longrightarrow> runs f' p \<Longrightarrow> spawn_free p \<Longrightarrow> world_sim g' N \<Longrightarrow> node_moves body progs n N g' f'"
  unfolding node_moves_def by (intro exI [of _ N] exI [of _ p]) auto

lemma node_moves_one:
  "net_step body progs N N' \<Longrightarrow> world_sim g' N' \<Longrightarrow> nt_nodes N' = (nt_nodes N)(n \<mapsto> p') \<Longrightarrow> runs f' p'
     \<Longrightarrow> spawn_free p' \<Longrightarrow> node_moves body progs n N g' f'"
  unfolding node_moves_def by (intro exI [of _ N'] exI [of _ p']) auto

lemma world_sim_nodes [simp]: "world_sim g (N\<lparr>nt_nodes := h\<rparr>) = world_sim g N"
  by (simp add: world_sim_def)

lemma recv_moves:
  assumes "recv_poll n rf g = Inr (got, rf', g')" and "world_sim g N"
    and "nt_nodes N n = Some p" and "runs f p" and "spawn_free p" and "p = Recv k"
  shows "node_moves body progs n N g' (after_recv k (RespRecv got rf'))"
proof (cases got)
  case None
  then show ?thesis using recv_poll_net [OF assms(1,2)] assms(3-6) by (intro node_stays) auto
next
  case (Some am)
  obtain src m where am: "am = (src, m)" by (cases am)
  obtain rest where rest: "nt_inbox N n = (src, m) # rest"
    "world_sim g' (N\<lparr>nt_inbox := (nt_inbox N)(n := rest)\<rparr>)"
    using recv_poll_net [OF assms(1,2)] Some am by auto
  have "net_step body progs N ((at_node N n (k src m))\<lparr>nt_inbox := (nt_inbox N)(n := rest)\<rparr>)"
    using assms(3,6) rest(1) by (intro net_recv) simp_all
  then show ?thesis
    using rest(2) assms(5,6) Some am by (auto intro!: node_moves_one simp: world_sim_def)
qed


lemma timed_recv_moves:
  assumes "recv_poll n rf g = Inr (got, rf', g')" and "world_sim g N"
    and "nt_nodes N n = Some (TimedRecv d' k)" and "spawn_free (TimedRecv d' k)"
  shows "node_moves body progs n N g' (after_race_recv d timer k (RespRecv got rf'))"
proof (cases got)
  case None
  then show ?thesis using recv_poll_net [OF assms(1,2)] assms(3,4) by (intro node_stays) auto
next
  case (Some am)
  obtain src m where am: "am = (src, m)" by (cases am)
  obtain rest where rest: "nt_inbox N n = (src, m) # rest"
    "world_sim g' (N\<lparr>nt_inbox := (nt_inbox N)(n := rest)\<rparr>)"
    using recv_poll_net [OF assms(1,2)] Some am by auto
  have "net_step body progs N ((at_node N n (k (Some (src, m))))\<lparr>nt_inbox := (nt_inbox N)(n := rest)\<rparr>)"
    using assms(3) rest(1) by (rule net_timed_recv)
  then show ?thesis
    using rest(2) assms(4) Some am by (auto intro!: node_moves_one simp: world_sim_def split: option.split)
qed

lemma send_moves:
  assumes "net_send n dst msg g = Inr g'" and "world_sim g N" and "calm g" and "in_now g < - 1"
    and "nt_nodes N n = Some (Send dst msg q)" and "spawn_free q"
  shows "node_moves body progs n N g' (Running q)"
proof -
  have step: "net_step body progs N ((at_node N n q)\<lparr>nt_flight := add_mset (t, n, dst, msg) (nt_flight N)\<rparr>)"
    if "nt_clock N < t" for t
    using assms(5) that by (rule net_send)
  from net_send_net [OF assms(1-4)] show ?thesis
  proof (elim conjE disjE exE)
    assume sim: "world_sim g' N"
    obtain t where t: "nt_clock N < t"
      using assms(2,4) by (auto simp: world_sim_def)
    let ?N = "(at_node N n q)\<lparr>nt_flight := add_mset (t, n, dst, msg) (nt_flight N)\<rparr>"
    have "net_step body progs ?N (?N\<lparr>nt_flight := nt_flight N\<rparr>)" by (rule net_lose) simp
    also have "?N\<lparr>nt_flight := nt_flight N\<rparr> = at_node N n q" by (cases N) simp
    finally have "net_steps body progs N (at_node N n q)"
      using step [OF t] by (meson converse_rtranclp_into_rtranclp r_into_rtranclp)
    then show ?thesis
      unfolding node_moves_def using sim assms(6)
      by (intro exI [of _ "at_node N n q"] exI [of _ q]) simp
  next
    fix t
    assume "nt_clock N < t" "world_sim g' (N\<lparr>nt_flight := add_mset (t, n, dst, msg) (nt_flight N)\<rparr>)"
    then show ?thesis using step assms(6) by (auto intro!: node_moves_one simp: world_sim_def)
  qed
qed

lemma prog_call:
  assumes call: "prog_step q = StepCall c kk" "env_exec n c g = Inr (r, g')"
    and sim: "world_sim g N" "nt_nodes N n = Some q" and free: "spawn_free q"
    and calm: "calm g" "in_now g < - 1"
  shows "node_moves body progs n N g' (kk r)"
proof (cases q)
  case (Now k)
  have "net_step body progs N (at_node N n (k (nt_clock N)))" using sim(2) Now by (intro net_now) simp
  then show ?thesis
    using assms Now by (auto intro!: node_moves_one simp: calm_local_now [OF calm(1)] world_sim_def)
next
  case (Send dst msg q')
  then show ?thesis using call sim free calm send_moves by (fastforce split: sum.splits)
next
  case (Recv k)
  then show ?thesis using call sim free recv_moves [where f = "Running q" and p = q] by (fastforce split: sum.splits)
next
  case (Sleep d q')
  then show ?thesis
    using assms by (auto intro!: node_stays simp: calm_local_now [OF calm(1)] world_sim_def)
next
  case (TimedRecv d k)
  then show ?thesis using call sim free timed_recv_moves by (fastforce split: sum.splits)
next
  case (WriteAt off data q')
  then show ?thesis
    using assms same_net_ops(4) [of n off data g] same_net_sim [of g _ N]
    by (auto intro!: node_moves_one net_write split: sum.splits)
next
  case (ReadAt off buf k)
  have step: "net_step body progs N (at_node N n (k cnt out))" for cnt out
    using sim(2) ReadAt by (intro net_read) simp
  obtain cnt out where "g' = g" "r = RespRead cnt out"
    using call ReadAt by (auto split: sum.splits prod.splits)
  then show ?thesis
    using assms ReadAt node_moves_one [OF step [of cnt out], of g n "k cnt out" "Running (k cnt out)"] by auto
next
  case (Flush q')
  then show ?thesis
    using assms same_net_ops(5) [of n g] same_net_sim [of g _ N]
    by (auto intro!: node_moves_one net_flush split: sum.splits)
next
  case (Len k)
  have "net_step body progs N (at_node N n (k cnt))" for cnt
    using sim(2) Len by (intro net_len) simp
  then show ?thesis using assms Len by (auto intro!: node_moves_one)
next
  case (Record event q')
  have "net_step body progs N ((at_node N n q')\<lparr>nt_history := nt_history N @ [event]\<rparr>)"
    using sim(2) Record by (intro net_record) simp
  then show ?thesis
    using assms Record by (auto intro!: node_moves_one simp: env_record_def world_sim_def)
qed (use call free in auto)

lemma sut_call:
  assumes call: "sut_step body f = StepCall c kk" "env_exec n c g = Inr (r, g')"
    and sim: "world_sim g N" "nt_nodes N n = Some p" "runs f p" and free: "spawn_free p" "\<forall>l. spawn_free (body l)"
    and calm: "calm g" "in_now g < - 1"
  shows "node_moves body progs n N g' (kk r)"
proof (cases f)
  case (Running q)
  then have p: "p = q" using sim(3) by simp
  show ?thesis
  proof (cases "\<exists>l. q = Goto l")
    case True
    then obtain l where l: "q = Goto l" ..
    have step: "net_step body progs N (at_node N n (body l))"
      using sim(2) p l by (intro net_goto) simp
    have "node_moves body progs n (at_node N n (body l)) g' (kk r)"
      using call Running l sim free calm by (intro prog_call) auto
    then show ?thesis
      unfolding node_moves_def using step by (auto intro: converse_rtranclp_into_rtranclp)
  next
    case False
    then show ?thesis using call Running p sim free calm by (intro prog_call) (auto split: prog.splits)
  qed
next
  case (Receiving this k)
  then show ?thesis using call sim free recv_moves [where f = f and p = p] by (fastforce split: sum.splits)
next
  case (Sleeping this q)
  then obtain d where p: "p = Sleep d q" using sim(3) by auto
  obtain rdy this' where poll: "sleep_poll n this g = Inr (rdy, this', g')" "r = RespSleep rdy this'"
    using call Sleeping by (auto split: sum.splits prod.splits)
  have sim': "world_sim g' N" using same_net_ops(1) [OF calm(1) poll(1)] same_net_sim sim(1) by blast
  have "net_step body progs N (at_node N n q)" using sim(2) p by (intro net_sleep) simp
  moreover have "node_moves body progs n N g' (Yield (Sleeping this' q))"
    using sim(2) p free sim' by (intro node_stays [where p = p]) auto
  ultimately show ?thesis
    using call Sleeping poll p free sim' node_moves_one [of body progs N "at_node N n q" g' n q "Running q"]
    by auto
next
  case (Racing rf sf k)
  then show ?thesis using call sim free timed_recv_moves by (fastforce split: sum.splits)
next
  case (TimerTurn d rf timer k)
  then obtain d' where p: "p = TimedRecv d' k" using sim(3) by auto
  show ?thesis
  proof (cases timer)
    case None
    then show ?thesis
      using assms TimerTurn p by (auto intro!: node_stays simp: calm_local_now [OF calm(1)] world_sim_def)
  next
    case (Some sf)
    obtain rdy this' where poll: "sleep_poll n sf g = Inr (rdy, this', g')" "r = RespSleep rdy this'"
      using call TimerTurn Some by (auto split: sum.splits prod.splits)
    have sim': "world_sim g' N" using same_net_ops(1) [OF calm(1) poll(1)] same_net_sim sim(1) by blast
    have "net_step body progs N (at_node N n (k None))" using sim(2) p by (intro net_timeout) simp
    moreover have "node_moves body progs n N g' (Racing rf this' k)"
      using sim(2) p free sim' by (intro node_stays [where p = p]) auto
    moreover have "node_moves body progs n N g' (Yield (Racing rf this' k))"
      using sim(2) p free sim' by (intro node_stays [where p = p]) auto
    ultimately show ?thesis
      using call TimerTurn Some poll p free sim'
        node_moves_one [of body progs N "at_node N n (k None)" g' n "k None" "DropRecv rf (k None)"]
      by auto
  qed
next
  case (DropTimer sf q)
  then show ?thesis
    using assms same_net_ops(2) [of g sf] same_net_sim [of g _ N] by (auto intro!: node_stays)
next
  case (DropRecv rf q)
  then show ?thesis
    using assms same_net_ops(3) [of g n rf] same_net_sim [of g _ N] by (auto intro!: node_stays)
qed (use call sim free in auto)


subsection \<open>One poll\<close>

text \<open>A property of the future and the state that every call keeps holds of both when the poll ends.\<close>

lemma poll_fut_run:
  assumes "poll_fut nx n f g = Some (Inr (p, g'))" and "Q f g"
    and step: "\<And>f g c k r g'. Q f g \<Longrightarrow> nx f = StepCall c k \<Longrightarrow> env_exec n c g = Inr (r, g') \<Longrightarrow> Q (k r) g'"
  shows "\<exists>f1. Q f1 g' \<and> (case p of PolledReady v \<Rightarrow> nx f1 = StepReady v | PolledPending f' \<Rightarrow> nx f1 = StepPending f')"
proof -
  let ?post = "\<lambda>y. \<forall>p g'. y = Inr (p, g') \<longrightarrow> (\<exists>f1. Q f1 g' \<and>
    (case p of PolledReady v \<Rightarrow> nx f1 = StepReady v | PolledPending f' \<Rightarrow> nx f1 = StepPending f'))"
  have "mx = nx \<longrightarrow> nd = n \<longrightarrow> Q f g \<longrightarrow> ?post y" if "poll_fut mx nd f g = Some y" for mx nd f g y
    using that
  proof (rule poll_fut.raw_induct [where P = "\<lambda>mx nd f g y. mx = nx \<longrightarrow> nd = n \<longrightarrow> Q f g \<longrightarrow> ?post y", rotated])
    fix rec mx nd f g y
    assume ih: "\<And>mx nd f g y. rec mx nd f g = Some y \<Longrightarrow> mx = nx \<longrightarrow> nd = n \<longrightarrow> Q f g \<longrightarrow> ?post y"
      and body: "(case mx f of
         StepReady v \<Rightarrow> Some (Inr (PolledReady v, g))
       | StepPending f' \<Rightarrow> Some (Inr (PolledPending f', g))
       | StepCall c k \<Rightarrow> (case env_exec nd c g of Inl p \<Rightarrow> Some (Inl p) | Inr (r, g') \<Rightarrow> rec mx nd (k r) g')) = Some y"
    show "mx = nx \<longrightarrow> nd = n \<longrightarrow> Q f g \<longrightarrow> ?post y"
    proof (intro impI)
      assume eqs: "mx = nx" "nd = n" and g: "Q f g"
      show "?post y"
      proof (cases "nx f")
        case (StepCall c k)
        show ?thesis
        proof (cases "env_exec n c g")
          case (Inl e)
          then show ?thesis using body eqs StepCall by auto
        next
          case (Inr rg)
          then obtain r g1 where e: "env_exec n c g = Inr (r, g1)" by (cases rg) auto
          then have "rec nx n (k r) g1 = Some y" using body eqs StepCall by simp
          then show ?thesis using ih step [OF g StepCall e] by blast
        qed
      qed (use body eqs g in auto)
    qed
  qed
  with assms(1,2) show ?thesis by blast
qed

definition calm_frame :: "('f, 'v) inner \<Rightarrow> ('f, 'v) inner \<Rightarrow> bool" where
  "calm_frame g g' \<longleftrightarrow>
     in_faults g' = in_faults g \<and> in_now g' = in_now g \<and> in_config g' = in_config g
     \<and> in_last_local_now g' = in_last_local_now g
     \<and> (\<forall>e \<in> set (in_queue g'). e \<in> set (in_queue g) \<or> calm_event e)"

lemma calm_frame_calm: "calm_frame g g' \<Longrightarrow> calm g \<Longrightarrow> calm g'"
  by (auto simp: calm_frame_def calm_def)

lemma calm_frame_trans: "calm_frame g g' \<Longrightarrow> calm_frame g' g'' \<Longrightarrow> calm_frame g g''"
  by (auto simp: calm_frame_def)

lemma calm_frame_push: "calm_event e \<Longrightarrow> e = \<lparr>k_time = t, k_seq = in_seq g, k_kind = kind\<rparr> \<Longrightarrow> calm_frame g (push_event t kind g)"
  by (auto simp: calm_frame_def push_event_def)

lemma calm_frame_enqueue [simp]: "calm_frame g (enqueue_poll_now task g)"
  unfolding enqueue_poll_now_def by (rule calm_frame_push [OF _ refl]) (simp add: calm_event_def)

lemma calm_frame_fold_enqueue: "calm_frame g (fold enqueue_poll_now ts g)"
proof (induction ts arbitrary: g)
  case Nil
  then show ?case by (simp add: calm_frame_def)
next
  case (Cons t ts)
  then show ?case
    using calm_frame_trans [OF calm_frame_enqueue [of g t] Cons.IH [of "enqueue_poll_now t g"]] by simp
qed

lemma calm_now: "calm g \<Longrightarrow> calm (g\<lparr>in_last_local_now := btm_insert n (in_now g) (in_last_local_now g)\<rparr>)"
  by (auto simp: calm_def btm_get_or_def)

lemma calm_sleep_poll:
  assumes "calm g" and "sleep_poll n sf g = Inr (b, sf', g')"
  shows "calm g' \<and> in_now g' = in_now g"
proof -
  let ?g1 = "g\<lparr>in_last_local_now := btm_insert n (in_now g) (in_last_local_now g)\<rparr>"
  have cancel: "calm (cancel_timer t ?g1)" for t
    using calm_now [OF assms(1)] by (simp add: calm_def cancel_timer_def)
  have register: "calm (snd (register_timer task d ?g1))" for task d
    using calm_now [OF assms(1)] by (auto simp: calm_def register_timer_def push_event_def calm_event_def Let_def)
  have now: "in_now (cancel_timer t h) = in_now h" "in_now (snd (register_timer task d h)) = in_now h"
    for t task d and h :: "('a, 'b) inner"
    by (simp_all add: cancel_timer_def register_timer_def push_event_def Let_def)
  show ?thesis
    using assms cancel register calm_now [OF assms(1)] now
    by (auto simp: sleep_poll_def calm_local_now Let_def split_beta split: if_splits option.splits)
qed

lemma calm_net_send:
  assumes "calm g" and "net_send n dst msg g = Inr g'"
  shows "calm g' \<and> in_now g' = in_now g"
proof -
  have "calm_frame g g'"
    using assms
    by (auto simp: net_send_def draw_net_delay_ms_def draw_percent_def tape_draw_def push_event_def calm_frame_def
        calm_event_def calm_def Let_def split_beta split: if_splits sum.splits)
  then show ?thesis using assms(1) by (simp add: calm_frame_calm) (simp add: calm_frame_def)
qed

text \<open>The calls that neither send nor look at the clock.\<close>

definition quiet :: "('f, 'v) inner \<Rightarrow> ('f, 'v) inner \<Rightarrow> bool" where
  "quiet g g' \<longleftrightarrow>
     in_faults g' = in_faults g \<and> in_now g' = in_now g \<and> in_config g' = in_config g
     \<and> in_last_local_now g' = in_last_local_now g \<and> in_queue g' = in_queue g \<and> same_tasks g g'"

lemma quiet_calm: "quiet g g' \<Longrightarrow> calm g \<Longrightarrow> calm g' \<and> in_now g' = in_now g \<and> same_tasks g g'"
  by (simp add: quiet_def calm_def)

lemma quiet_ops:
  "quiet g (sleep_drop sf g)" "quiet g (recv_drop n rf g)" "quiet g (join_drop h g)" "quiet g (env_record ev g)"
  "quiet g (snd (next_sut_rng n g))" "quiet g g"
  by (simp_all add: quiet_def same_tasks_def sleep_drop_def cancel_timer_def recv_drop_def unregister_recv_waiter_def
      join_drop_def env_record_def next_sut_rng_def Let_def split: option.split)

lemma quiet_polls:
  "recv_poll n rf g = Inr (got, rf', g') \<Longrightarrow> quiet g g'"
  "join_poll h g = Inr (out, h', g') \<Longrightarrow> quiet g g'"
  "storage_write_at n off data g = Inr g' \<Longrightarrow> quiet g g'"
  "storage_flush n g = Inr g' \<Longrightarrow> quiet g g'"
  by (auto simp: quiet_def same_tasks_def recv_poll_def register_recv_waiter_def unregister_recv_waiter_def
      join_poll_def storage_write_at_def storage_flush_def set_store_def Let_def
      split: list.splits option.splits if_splits)

lemma net_send_same_tasks: "net_send n dst msg g = Inr g' \<Longrightarrow> same_tasks g g'"
  by (auto simp: net_send_def draw_net_delay_ms_def draw_percent_def tape_draw_def push_event_def same_tasks_def
      Let_def split_beta split: if_splits sum.splits)

lemma calm_env_exec:
  assumes "calm g" and "env_exec n c g = Inr (r, g')" and "\<And>f. c \<noteq> CallSpawn f"
  shows "calm g' \<and> in_now g' = in_now g \<and> same_tasks g g'"
proof (cases c)
  case CallNow
  then show ?thesis using assms by (auto simp: calm_local_now calm_now same_tasks_def)
next
  case (CallSleepPoll sf)
  then obtain b sf' where p: "sleep_poll n sf g = Inr (b, sf', g')" using assms(2) by (auto split: sum.splits)
  then show ?thesis using calm_sleep_poll [OF assms(1) p] same_net_ops(1) [OF assms(1) p] by simp
next
  case (CallSend dst msg)
  then show ?thesis
    using assms calm_net_send [of g n dst msg g'] net_send_same_tasks [of n dst msg g g'] by (auto split: sum.splits)
next
  case (CallSpawn f)
  then show ?thesis using assms(3) by blast
next
  case CallRng
  have "g' = snd (next_sut_rng n g)" using CallRng assms(2) by (auto simp: Let_def split_beta)
  then show ?thesis using quiet_calm [OF quiet_ops(5) assms(1), of n] by simp
next
  case (CallRecvPoll rf)
  then have "quiet g g'" using assms(2) by (auto split: sum.splits intro: quiet_polls)
  then show ?thesis using quiet_calm assms(1) by blast
next
  case (CallJoinPoll h)
  then have "quiet g g'" using assms(2) by (auto split: sum.splits intro: quiet_polls)
  then show ?thesis using quiet_calm assms(1) by blast
next
  case (CallWriteAt off data)
  then have "quiet g g'" using assms(2) by (auto split: sum.splits intro: quiet_polls)
  then show ?thesis using quiet_calm assms(1) by blast
next
  case (CallReadAt off buf)
  then have "quiet g g'" using assms(2) by (auto split: sum.splits simp: quiet_ops)
  then show ?thesis using quiet_calm assms(1) by blast
next
  case CallFlush
  then have "quiet g g'" using assms(2) by (auto split: sum.splits intro: quiet_polls)
  then show ?thesis using quiet_calm assms(1) by blast
next
  case (CallSleepDrop sf)
  then show ?thesis using assms(1,2) quiet_calm [OF quiet_ops(1)] by auto
next
  case (CallRecvDrop rf)
  then show ?thesis using assms(1,2) quiet_calm [OF quiet_ops(2)] by auto
next
  case (CallJoinDrop h)
  then show ?thesis using assms(1,2) quiet_calm [OF quiet_ops(3)] by auto
next
  case (CallRecord ev)
  then show ?thesis using assms(1,2) quiet_calm [OF quiet_ops(4)] by auto
next
  case CallLen
  then show ?thesis using assms(1,2) quiet_calm [OF quiet_ops(6)] by auto
qed


lemma sut_no_spawn:
  assumes "sut_step body f = StepCall c k" and "runs f p" and "spawn_free p" and "\<forall>l. spawn_free (body l)"
  shows "c \<noteq> CallSpawn x"
proof -
  have "c' \<noteq> CallSpawn x" if "prog_step q = StepCall c' k'" "spawn_free q" for q c' k'
    using that by (cases q) auto
  then have here: "c \<noteq> CallSpawn x" if "prog_step q = StepCall c k" "spawn_free q" for q
    using that by blast
  show ?thesis
  proof (cases f)
    case (Running q)
    then show ?thesis
      using assms here [of q] here [of "case q of Goto l \<Rightarrow> body l | _ \<Rightarrow> q"] by (cases q) auto
  next
    case (TimerTurn d r timer kk)
    then show ?thesis using assms(1) by (cases timer) auto
  qed (use assms in auto)
qed

lemma sut_pending:
  "sut_step body f = StepPending f' \<Longrightarrow> runs f p \<Longrightarrow>
     runs f' p \<or> (\<exists>l l'. p = Goto l \<and> body l = Goto l' \<and> f' = Running (Goto l'))"
proof -
  have goto: "\<exists>l. q = Goto l \<and> f' = Running (Goto l)" if "prog_step q = StepPending f'" for q :: "('a, 'b) prog"
    using that by (cases q) auto
  assume step: "sut_step body f = StepPending f'" and p: "runs f p"
  show ?thesis
  proof (cases f)
    case (Running q)
    then show ?thesis using step p goto [of "case q of Goto l \<Rightarrow> body l | _ \<Rightarrow> q"] by (cases q) auto
  next
    case (TimerTurn d r timer kk)
    then show ?thesis using step by (cases timer) auto
  qed (use step p in auto)
qed

lemma node_moves_trans:
  assumes "net_steps body progs N N1" and "nt_nodes N1 = (nt_nodes N)(n \<mapsto> p1)"
    and "node_moves body progs n N1 g f"
  shows "node_moves body progs n N g f"
  using assms unfolding node_moves_def by (metis fun_upd_upd rtranclp_trans)

lemma sut_poll:
  assumes poll: "poll_fut (sut_step body) n f g = Some (Inr (res, g'))"
    and sim: "world_sim g N" "nt_nodes N n = Some p" "runs f p" "spawn_free p"
    and free: "\<forall>l. spawn_free (body l)" and calm: "calm g" "in_now g < - 1" and order: "order_ok g"
  shows "(\<exists>N' p'. net_steps body progs N N' \<and> world_sim g' N' \<and> nt_nodes N' = (nt_nodes N)(n \<mapsto> p')
      \<and> spawn_free p' \<and> (\<forall>f'. res = PolledPending f' \<longrightarrow> runs f' p'))
    \<and> calm g' \<and> order_ok g' \<and> same_tasks g g'"
proof -
  let ?Q = "\<lambda>f h. node_moves body progs n N h f \<and> calm h \<and> order_ok h \<and> same_tasks g h \<and> in_now h < - 1"
  have start: "?Q f g"
    using sim calm order by (auto intro: node_stays simp: same_tasks_def)
  have "\<exists>f1. ?Q f1 g' \<and> (case res of PolledReady v \<Rightarrow> sut_step body f1 = StepReady v
      | PolledPending f' \<Rightarrow> sut_step body f1 = StepPending f')"
  proof (rule poll_fut_run [OF poll, where Q = ?Q, OF start])
    fix f h c k r h'
    assume Q: "?Q f h" and call: "sut_step body f = StepCall c k" and exec: "env_exec n c h = Inr (r, h')"
    then obtain N1 p1 where N1: "net_steps body progs N N1" "world_sim h N1" "nt_nodes N1 = (nt_nodes N)(n \<mapsto> p1)"
      "runs f p1" "spawn_free p1"
      unfolding node_moves_def by blast
    have "node_moves body progs n N1 h' (k r)"
      using call exec N1 free Q by (intro sut_call [where p = p1]) auto
    then have "node_moves body progs n N h' (k r)" by (rule node_moves_trans [OF N1(1,3)])
    moreover have "calm h' \<and> in_now h' = in_now h \<and> same_tasks h h'"
      using calm_env_exec [OF _ exec] sut_no_spawn [OF call N1(4,5) free] Q by blast
    moreover have "order_ok h'" using order_ok_env_exec exec Q by blast
    ultimately show "?Q (k r) h'" using Q by (simp add: same_tasks_def)
  qed
  then obtain f1 where f1: "?Q f1 g'" and stop: "case res of PolledReady v \<Rightarrow> sut_step body f1 = StepReady v
      | PolledPending f' \<Rightarrow> sut_step body f1 = StepPending f'"
    by blast
  obtain N1 p1 where N1: "net_steps body progs N N1" "world_sim g' N1" "nt_nodes N1 = (nt_nodes N)(n \<mapsto> p1)"
      "runs f1 p1" "spawn_free p1"
    using f1 unfolding node_moves_def by blast
  show ?thesis
  proof (cases "\<exists>f' l l'. res = PolledPending f' \<and> p1 = Goto l \<and> body l = Goto l' \<and> f' = Running (Goto l')")
    case True
    then obtain l l' where l: "res = PolledPending (Running (Goto l'))" "p1 = Goto l" "body l = Goto l'" by blast
    have "net_step body progs N1 (at_node N1 n (body l))" using N1(3) l by (intro net_goto) simp
    then have "net_steps body progs N (at_node N1 n (body l))" using N1(1) by (rule rtranclp.rtrancl_into_rtrancl [rotated])
    then show ?thesis
      using f1 N1 l by (intro conjI exI [of _ "at_node N1 n (body l)"] exI [of _ "body l"]) auto
  next
    case False
    then have "\<forall>f'. res = PolledPending f' \<longrightarrow> runs f' p1"
      using stop sut_pending [OF _ N1(4), of body] by auto
    then show ?thesis using f1 N1 by blast
  qed
qed

end
