(* ===== verification/Network_Run.thy ===== *)
theory Network_Run
  imports Async_Network
begin

section \<open>Runs of the simulator are runs of the network\<close>

text \<open>
  The simulation between the states of \<^verbatim>\<open>World\<close> and the network of \<open>Async_Network\<close>: for one event,
  for a step of the run loop, for the calls that set a world up, and for a script that sets a world up and runs it once.
  It covers programs that spawn no tasks and the faults of \<open>calm_op\<close>: loss, delay, partitions, link cuts, crashes
  and storage faults, without duplication, restart, clock skew and nemesis plans.
\<close>

subsection \<open>Tasks and nodes\<close>

text \<open>Every task that can still be polled is its node's program, and a node that was not added has none.\<close>

definition task_runs :: "(('l, 'v) sut_future) task_slot \<Rightarrow> ('l, 'v) network \<Rightarrow> bool" where
  "task_runs slot N \<longleftrightarrow>
     (ts_future slot = None
      \<or> (\<exists>f p. ts_future slot = Some (NodeFut (ts_node slot) f) \<and> nt_nodes N (ts_node slot) = Some p
            \<and> runs f p \<and> spawn_free p))"

definition tasks_sim :: "(('l, 'v) sut_future, 'v) inner \<Rightarrow> ('l, 'v) network \<Rightarrow> bool" where
  "tasks_sim g N \<longleftrightarrow>
     (\<forall>t slot. btm_get (in_tasks g) t = Some slot \<longrightarrow>
        t < in_next_task_id g \<and> ts_node slot \<in> in_nodes g \<and> task_runs slot N)
     \<and> (\<forall>t t' slot slot'. btm_get (in_tasks g) t = Some slot \<longrightarrow> btm_get (in_tasks g) t' = Some slot' \<longrightarrow>
          ts_node slot = ts_node slot' \<longrightarrow> t = t')
     \<and> btm_wf (in_tasks g)
     \<and> (\<forall>n. n \<notin> in_nodes g \<longrightarrow> nt_nodes N n = None)"

lemma tasks_sim_same: "same_tasks g g' \<Longrightarrow> nt_nodes N' = nt_nodes N \<Longrightarrow> tasks_sim g' N' = tasks_sim g N"
  by (simp add: tasks_sim_def task_runs_def same_tasks_def)

lemma tasks_sim_fewer:
  assumes "tasks_sim g N" and "in_nodes g' = in_nodes g" and "in_next_task_id g' = in_next_task_id g"
    and "btm_wf (in_tasks g')"
    and "\<And>t slot. btm_get (in_tasks g') t = Some slot \<Longrightarrow>
      \<exists>slot'. btm_get (in_tasks g) t = Some slot' \<and> ts_node slot' = ts_node slot
        \<and> (ts_future slot = ts_future slot' \<or> ts_future slot = None)"
  shows "tasks_sim g' N"
proof -
  have one: "t < in_next_task_id g \<and> ts_node slot \<in> in_nodes g \<and> task_runs slot N"
    if slot: "btm_get (in_tasks g') t = Some slot" for t slot
  proof -
    obtain slot' where slot': "btm_get (in_tasks g) t = Some slot'" "ts_node slot' = ts_node slot"
      "ts_future slot = ts_future slot' \<or> ts_future slot = None"
      using assms(5) [OF slot] by blast
    then have "t < in_next_task_id g \<and> ts_node slot' \<in> in_nodes g \<and> task_runs slot' N"
      using assms(1) unfolding tasks_sim_def by blast
    then show ?thesis using slot'(2,3) by (auto simp: task_runs_def)
  qed
  have uniq: "t = t'" if "btm_get (in_tasks g') t = Some slot" "btm_get (in_tasks g') t' = Some slot'"
    "ts_node slot = ts_node slot'" for t t' slot slot'
    using assms(5) [OF that(1)] assms(5) [OF that(2)] that(3) assms(1) unfolding tasks_sim_def by metis
  show ?thesis
    unfolding tasks_sim_def
  proof (intro conjI allI impI)
    show "nt_nodes N n = None" if "n \<notin> in_nodes g'" for n
      using that assms(1,2) by (simp add: tasks_sim_def)
    show "t < in_next_task_id g'" "ts_node slot \<in> in_nodes g'" "task_runs slot N"
      if "btm_get (in_tasks g') t = Some slot" for t slot
      using one [OF that] assms(2,3) by simp_all
    show "btm_wf (in_tasks g')" by (fact assms(4))
  qed (rule uniq)
qed

lemma tasks_sim_polled:
  assumes sim: "tasks_sim g N" and slot: "btm_get (in_tasks g) t = Some slot"
    and tasks: "in_tasks g' = btm_insert t (slot\<lparr>ts_future := Some (NodeFut (ts_node slot) f)\<rparr>) (in_tasks g)"
    and same: "in_nodes g' = in_nodes g" "in_next_task_id g' = in_next_task_id g"
    and nodes: "nt_nodes N' = (nt_nodes N)(ts_node slot \<mapsto> p)" and runs: "runs f p" "spawn_free p"
  shows "tasks_sim g' N'"
proof -
  have here: "ts_node slot \<in> in_nodes g" "t < in_next_task_id g"
    using sim slot by (auto simp: tasks_sim_def)
  have other: "ts_node slot' \<noteq> ts_node slot" if "btm_get (in_tasks g) t' = Some slot'" "t' \<noteq> t" for t' slot'
    using sim slot that by (metis tasks_sim_def)
  have "task_runs slot' N'" if "btm_get (in_tasks g) t' = Some slot'" "t' \<noteq> t" for t' slot'
    using sim that other [OF that] nodes by (fastforce simp: tasks_sim_def task_runs_def)
  note others = this
  have one: "t' < in_next_task_id g \<and> ts_node slot' \<in> in_nodes g \<and> task_runs slot' N'"
    if "btm_get (in_tasks g') t' = Some slot'" for t' slot'
  proof (cases "t' = t")
    case True
    then show ?thesis using that here nodes runs by (auto simp: tasks task_runs_def)
  next
    case False
    then show ?thesis using that others sim by (auto simp: tasks tasks_sim_def)
  qed
  have uniq: "t1 = t2" if "btm_get (in_tasks g') t1 = Some s1" "btm_get (in_tasks g') t2 = Some s2" "ts_node s1 = ts_node s2"
    for t1 t2 s1 s2
  proof (cases "t1 = t \<or> t2 = t")
    case True
    then show ?thesis using that other [of t1 s1] other [of t2 s2] by (auto simp: tasks split: if_splits)
  next
    case False
    then show ?thesis using that sim by (auto simp: tasks tasks_sim_def)
  qed
  show ?thesis
    unfolding tasks_sim_def
  proof (intro conjI allI impI)
    show "nt_nodes N' n = None" if "n \<notin> in_nodes g'" for n
      using that sim nodes here same by (auto simp: tasks_sim_def)
    show "btm_wf (in_tasks g')" using sim by (simp add: tasks tasks_sim_def)
    show "t' < in_next_task_id g'" "ts_node slot' \<in> in_nodes g'" "task_runs slot' N'"
      if "btm_get (in_tasks g') t' = Some slot'" for t' slot'
      using one [OF that] same by simp_all
  qed (rule uniq)
qed

definition sim_ok :: "(('l, 'v) sut_future, 'v) inner \<Rightarrow> ('l, 'v) network \<Rightarrow> bool" where
  "sim_ok g N \<longleftrightarrow> world_sim g N \<and> tasks_sim g N \<and> calm g \<and> order_ok g"

subsection \<open>One event\<close>

text \<open>An event has been taken from the queue; its message is still in flight.\<close>

definition taken_sim :: "keyed \<Rightarrow> (('l, 'v) sut_future, 'v) inner \<Rightarrow> ('l, 'v) network \<Rightarrow> bool" where
  "taken_sim e g N \<longleftrightarrow>
     nt_clock N = in_now g \<and> nt_flight N = flying e + flight_of (in_queue g)
     \<and> nt_inbox N = btm_get_or [] (in_inboxes g) \<and> nt_history N = in_history g
     \<and> tasks_sim g N \<and> calm g \<and> in_now g = k_time e"

lemma take_event_sim:
  assumes "sim_ok g N" and "queue_pop (in_queue g) = Some (e, q)"
  shows "net_steps body progs N (N\<lparr>nt_clock := k_time e\<rparr>)" and "taken_sim e (take_event e q g) (N\<lparr>nt_clock := k_time e\<rparr>)"
    and "calm_event e"
proof -
  have queue: "in_queue g = e # q" using assms(2) by (cases "in_queue g") auto
  have later: "in_now g \<le> k_time e" using assms(1) queue by (simp add: sim_ok_def order_ok_def)
  then have "net_step body progs N (N\<lparr>nt_clock := k_time e\<rparr>)"
    using assms(1) by (intro net_tick) (simp add: sim_ok_def world_sim_def)
  then show "net_steps body progs N (N\<lparr>nt_clock := k_time e\<rparr>)" by blast
  have "calm (take_event e q g)"
    using assms(1) later queue by (auto simp: sim_ok_def calm_def take_event_def intro: order_trans)
  moreover have "tasks_sim (take_event e q g) (N\<lparr>nt_clock := k_time e\<rparr>)"
    using assms(1) by (subst tasks_sim_same [of g _ _ N]) (simp_all add: sim_ok_def same_tasks_def take_event_def)
  ultimately show "taken_sim e (take_event e q g) (N\<lparr>nt_clock := k_time e\<rparr>)"
    using assms(1) queue by (simp add: taken_sim_def sim_ok_def world_sim_def take_event_def)
  show "calm_event e" using assms(1) queue by (simp add: sim_ok_def calm_def)
qed

text \<open>What a dispatched event may do to the simulator without the network noticing.\<close>

lemma taken_quiet:
  assumes "taken_sim e g N" and "flying e = {#}"
    and "same_net g g'" and "same_tasks g g'" and "calm g'"
  shows "world_sim g' N \<and> tasks_sim g' N \<and> calm g'"
  using assms tasks_sim_same [of g g' N N] by (simp add: taken_sim_def world_sim_def same_net_def)

lemma enqueue_same [simp]:
  "same_net g (enqueue_poll_now t g)" "same_tasks g (enqueue_poll_now t g)"
  by (simp_all add: same_net_def same_tasks_def enqueue_poll_now_def push_event_def)

lemma same_net_trans: "same_net g g' \<Longrightarrow> same_net g' g'' \<Longrightarrow> same_net g g''"
  by (simp add: same_net_def)

lemma same_tasks_trans: "same_tasks g g' \<Longrightarrow> same_tasks g' g'' \<Longrightarrow> same_tasks g g''"
  by (simp add: same_tasks_def)

lemma fold_enqueue_same: "same_net g (fold enqueue_poll_now ts g) \<and> same_tasks g (fold enqueue_poll_now ts g)"
proof (induction ts arbitrary: g)
  case Nil
  then show ?case by (simp add: same_net_def same_tasks_def)
next
  case (Cons t ts)
  then show ?case
    using same_net_trans [OF enqueue_same(1) [of g t]] same_tasks_trans [OF enqueue_same(2) [of g t]] by simp
qed

lemma count_dispatch_same [simp]:
  "same_net g (count_dispatch l g)" "same_tasks g (count_dispatch l g)" "calm (count_dispatch l g) = calm g"
  by (simp_all add: same_net_def same_tasks_def count_dispatch_def calm_def)

lemma dispatch_timer_sim:
  assumes "calm g"
  shows "same_net g (dispatch_timer t sq timer g) \<and> same_tasks g (dispatch_timer t sq timer g)
    \<and> calm (dispatch_timer t sq timer g)"
proof (cases "btm_get (in_timers g) timer")
  case None
  then show ?thesis using assms by (simp add: dispatch_timer_def same_net_def same_tasks_def)
next
  case (Some w)
  let ?g1 = "count_dispatch (Dispatched t sq (TimerFire timer)) (g\<lparr>in_timers := btm_remove timer (in_timers g)\<rparr>)"
  have "same_net g ?g1" "same_tasks g ?g1" "calm ?g1"
    using assms by (simp_all add: same_net_def same_tasks_def count_dispatch_def calm_def)
  moreover have "dispatch_timer t sq timer g = enqueue_poll_now (tw_task w) ?g1"
    using Some by (simp add: dispatch_timer_def Let_def)
  ultimately show ?thesis
    using same_net_trans [of g ?g1 "enqueue_poll_now (tw_task w) ?g1"]
      same_tasks_trans [of g ?g1 "enqueue_poll_now (tw_task w) ?g1"]
      calm_frame_calm [of ?g1 "enqueue_poll_now (tw_task w) ?g1"]
    by simp
qed


text \<open>A delivery puts the message into the inbox or loses it.\<close>

lemma deliver_to_inbox_sim:
  assumes "taken_sim e g N" and "k_kind e = DeliverMsg src dst msg"
  shows "\<exists>N'. net_step body progs N N' \<and> nt_nodes N' = nt_nodes N \<and> world_sim (deliver_to_inbox src dst msg g) N'
    \<and> same_tasks g (deliver_to_inbox src dst msg g) \<and> calm (deliver_to_inbox src dst msg g)"
proof -
  let ?waiters = "btm_get_or [] (in_recv_waiters g) dst"
  let ?g1 = "g\<lparr>in_inboxes := btm_insert dst (btm_get_or [] (in_inboxes g) dst @ [(src, msg)]) (in_inboxes g),
    in_recv_waiters := (if btm_contains dst (in_recv_waiters g) then btm_insert dst [] (in_recv_waiters g)
      else in_recv_waiters g)\<rparr>"
  let ?N = "N\<lparr>nt_flight := flight_of (in_queue g), nt_inbox := (nt_inbox N)(dst := nt_inbox N dst @ [(src, msg)])\<rparr>"
  have step: "net_step body progs N ?N"
    by (rule net_deliver [where t = "k_time e"]) (use assms in \<open>simp_all add: taken_sim_def flying_def\<close>)
  have g1: "world_sim ?g1 ?N" "same_tasks g ?g1" "calm ?g1"
    using assms by (auto simp: taken_sim_def world_sim_def same_tasks_def calm_def btm_get_or_def fun_eq_iff)
  have "deliver_to_inbox src dst msg g = fold enqueue_poll_now ?waiters ?g1"
    by (simp add: deliver_to_inbox_def Let_def)
  then show ?thesis
    using step g1 fold_enqueue_same [of ?g1 ?waiters] same_net_sim [of ?g1 _ ?N] same_tasks_trans [of g ?g1]
      calm_frame_calm [OF calm_frame_fold_enqueue [of ?g1 ?waiters]]
    by (intro exI [of _ ?N]) simp
qed

lemma taken_calm: "taken_sim e g N \<Longrightarrow> calm g"
  by (simp add: taken_sim_def)

lemma taken_count: "taken_sim e g N \<Longrightarrow> taken_sim e (count_dispatch l g) N"
  using count_dispatch_same [where g = g and l = l] tasks_sim_same [of g "count_dispatch l g" N N]
  by (simp add: taken_sim_def same_net_def)

lemma dispatch_deliver_sim:
  assumes "taken_sim e g N" and "k_kind e = DeliverMsg src dst msg"
  shows "\<exists>N'. net_step body progs N N' \<and> nt_nodes N' = nt_nodes N \<and> world_sim (dispatch_deliver t sq src dst msg g) N'
    \<and> same_tasks g (dispatch_deliver t sq src dst msg g) \<and> calm (dispatch_deliver t sq src dst msg g)"
proof -
  let ?N = "N\<lparr>nt_flight := flight_of (in_queue g)\<rparr>"
  obtain dropped g1 where draw: "draw_percent (fc_drop_percent (in_faults g)) DropDecision g = (dropped, g1)"
    by (cases "draw_percent (fc_drop_percent (in_faults g)) DropDecision g")
  then have g1: "same_net g g1" "same_tasks g g1" "taken_sim e g1 N"
    using assms(1) by (auto simp: draw_percent_def tape_draw_def same_net_def same_tasks_def taken_sim_def calm_def
        tasks_sim_def Let_def split_beta split: if_splits)
  have lose: "net_step body progs N ?N" by (rule net_lose) (use assms(1) in \<open>simp add: taken_sim_def\<close>)
  have calm: "calm g" "calm g1" using taken_calm assms(1) g1(3) by blast+
  have sim: "world_sim (count_dispatch l h) ?N \<and> same_tasks g (count_dispatch l h) \<and> calm (count_dispatch l h)"
    if h: "h = g \<or> h = g1" for l h
  proof -
    have "world_sim h ?N" using h assms(1) g1(1) by (auto simp: taken_sim_def world_sim_def same_net_def)
    moreover have "same_tasks g h" "calm h" using h g1(2) calm by (auto simp: same_tasks_def)
    ultimately show ?thesis
      by (intro conjI) (rule same_net_sim [OF count_dispatch_same(1)], assumption,
        rule same_tasks_trans [OF _ count_dispatch_same(2)], assumption, simp only: count_dispatch_same)
  qed
  have lost: ?thesis if "dispatch_deliver t sq src dst msg g = count_dispatch l h" "h = g \<or> h = g1" for l h
    using that lose sim [of h l] by (intro exI [of _ ?N]) simp
  let ?g2 = "count_dispatch (Dispatched t sq (DeliverMsg src dst msg)) g1"
  have g2: "taken_sim e ?g2 N" "same_tasks g ?g2"
    using taken_count [OF g1(3)] same_tasks_trans [OF g1(2) count_dispatch_same(2)] by blast+
  show ?thesis
  proof (cases "dst \<notin> in_nodes g \<or> dst \<in> in_crashed g \<or> src \<in> in_crashed g
      \<or> \<not> is_connected (fc_connectivity (in_faults g)) src dst \<or> dropped")
    case True
    then have "\<exists>l h. dispatch_deliver t sq src dst msg g = count_dispatch l h \<and> (h = g \<or> h = g1)"
      using draw by (auto simp: dispatch_deliver_def)
    then show ?thesis using lost by blast
  next
    case False
    then have "dispatch_deliver t sq src dst msg g = deliver_to_inbox src dst msg ?g2"
      using draw by (simp add: dispatch_deliver_def)
    then show ?thesis
      using deliver_to_inbox_sim [OF g2(1) assms(2), of body progs] same_tasks_trans [OF g2(2)] by auto
  qed
qed

lemma crash_node_sim:
  assumes "world_sim g N" and "tasks_sim g N" and "calm g"
  shows "\<exists>N'. net_steps body progs N N' \<and> world_sim (crash_node n g) N' \<and> tasks_sim (crash_node n g) N'
    \<and> calm (crash_node n g)"
proof (cases "n \<in> in_nodes g")
  case False
  then show ?thesis using assms by (auto simp: crash_node_def)
next
  case True
  let ?h = "crash_node n g"
  let ?N1 = "N\<lparr>nt_flight := flight_of (in_queue ?h)\<rparr>"
  let ?N2 = "?N1\<lparr>nt_inbox := (nt_inbox ?N1)(n := [])\<rparr>"
  define P where "P = (\<lambda>e :: keyed. event_is_live_after_crash (k_kind e) n (tasks_of_node n g)
    (btm_retain (\<lambda>_ waiter. tw_task waiter \<notin> tasks_of_node n g) (in_timers g)))"
  have queue: "in_queue ?h = queue_filter P (in_queue g)"
    using True by (simp add: crash_node_def crash_storage_def P_def Let_def)
  have fields: "in_now ?h = in_now g" "in_history ?h = in_history g" "in_nodes ?h = in_nodes g"
    "in_next_task_id ?h = in_next_task_id g" "in_faults ?h = in_faults g" "in_config ?h = in_config g"
    "in_last_local_now ?h = in_last_local_now g" "in_inboxes ?h = btm_remove n (in_inboxes g)"
    "in_tasks ?h = btm_retain (\<lambda>_ slot. ts_node slot \<noteq> n) (in_tasks g)"
    using True by (simp_all add: crash_node_def crash_storage_def Let_def)
  have "net_step body progs N ?N1"
    using assms(1) flight_of_filter [of P "in_queue g"] queue by (intro net_lose) (simp add: world_sim_def)
  moreover have "net_step body progs ?N1 ?N2" by (rule net_forget)
  ultimately have steps: "net_steps body progs N ?N2" by (meson converse_rtranclp_into_rtranclp r_into_rtranclp)
  have "world_sim ?h ?N2"
    using assms(1) by (auto simp: world_sim_def fields btm_get_or_def fun_eq_iff)
  moreover have "calm ?h"
    using assms(3) by (auto simp: calm_def fields queue set_queue_filter)
  moreover have "tasks_sim ?h ?N2"
  proof -
    have wf: "btm_wf (in_tasks g)" using assms(2) by (simp add: tasks_sim_def)
    have "tasks_sim g ?N2" using assms(2) by (simp add: tasks_sim_def task_runs_def)
    then show ?thesis
      by (rule tasks_sim_fewer) (use wf in \<open>auto simp: fields btm_get_retain split: if_splits option.splits\<close>)
  qed
  ultimately show ?thesis using steps by blast
qed

lemma apply_nemesis_sim:
  assumes "world_sim g N" and "tasks_sim g N" and "calm g" and "calm_action a"
  shows "\<exists>N'. net_steps body progs N N' \<and> world_sim (snd (apply_nemesis a g)) N' \<and> tasks_sim (snd (apply_nemesis a g)) N'
    \<and> calm (snd (apply_nemesis a g))"
proof (cases a)
  case (Crash n)
  have "world_sim (log_nemesis a g) N" "tasks_sim (log_nemesis a g) N" "calm (log_nemesis a g)"
    using assms(1-3) by (simp_all add: log_nemesis_def world_sim_def tasks_sim_def calm_def)
  then show ?thesis using crash_node_sim Crash by (simp add: apply_nemesis_def)
qed (use assms in \<open>auto simp: apply_nemesis_def log_nemesis_def with_connectivity_def with_faults_def bit_rot_storage_def
      world_sim_def tasks_sim_def calm_def split: option.split\<close>)


subsection \<open>One step of a run\<close>

lemma taken_lose:
  assumes "taken_sim e g N"
  shows "\<exists>N'. net_steps body progs N N' \<and> world_sim g N' \<and> tasks_sim g N' \<and> calm g"
proof -
  let ?N = "N\<lparr>nt_flight := flight_of (in_queue g)\<rparr>"
  have "net_step body progs N ?N" by (rule net_lose) (use assms in \<open>simp add: taken_sim_def\<close>)
  moreover have "world_sim g ?N \<and> tasks_sim g ?N \<and> calm g"
    using assms tasks_sim_same [of g g ?N N] by (simp add: taken_sim_def world_sim_def same_tasks_def)
  ultimately show ?thesis by blast
qed

lemma tasks_simD:
  assumes "tasks_sim g N" and "btm_get (in_tasks g) t = Some slot" and "ts_future slot = Some fut"
  shows "\<exists>f p. fut = NodeFut (ts_node slot) f \<and> nt_nodes N (ts_node slot) = Some p \<and> runs f p \<and> spawn_free p"
proof -
  have "task_runs slot N" using assms(1,2) unfolding tasks_sim_def by blast
  then show ?thesis using assms(3) by (simp add: task_runs_def)
qed

lemma tasks_sim_taken:
  assumes "tasks_sim g N" and "btm_get (in_tasks g) t = Some slot"
    and "in_tasks g' = btm_insert t (slot\<lparr>ts_future := None\<rparr>) (in_tasks g)"
    and "in_nodes g' = in_nodes g" "in_next_task_id g' = in_next_task_id g"
  shows "tasks_sim g' N"
  by (rule tasks_sim_fewer [OF assms(1,4,5)]) (use assms in \<open>auto simp: tasks_sim_def split: if_splits\<close>)

lemma dispatch_nemesis_sim:
  assumes "taken_sim e g N" and "k_kind e = NemesisEvent a" and "calm_event e"
    and "dispatch_nemesis t sq a g = (r, g')"
  shows "r = None \<and> (\<exists>N'. net_steps body progs N N' \<and> world_sim g' N' \<and> tasks_sim g' N' \<and> calm g')"
proof -
  let ?g1 = "count_dispatch (Dispatched t sq (NemesisEvent a)) g"
  have a: "calm_action a" using assms(2,3) by (simp add: calm_event_def)
  then have g': "r = None" "g' = snd (apply_nemesis a ?g1)"
    using assms(4) by (auto simp: dispatch_nemesis_def Let_def split: nemesis_action.splits)
  have "taken_sim e ?g1 N" using assms(1) by (rule taken_count)
  moreover have "flying e = {#}" using assms(2) by (simp add: flying_def)
  ultimately have "world_sim ?g1 N" "tasks_sim ?g1 N" "calm ?g1" by (simp_all add: taken_sim_def world_sim_def)
  from apply_nemesis_sim [OF this a] show ?thesis using g' by simp
qed

lemma poll_task_sim:
  assumes taken: "taken_sim e g N" "flying e = {#}" "in_now g < - 1" "order_ok g1"
    and poll: "dispatch_poll t sq task g = (Some (PopPoll tid fut), g1)"
      "poll_box (sut_step body) fut g1 = Some (Inr (st, g2))"
    and free: "\<forall>l. spawn_free (body l)"
  shows "\<exists>N'. net_steps body progs N N' \<and> world_sim (finish_poll tid st g2) N' \<and> tasks_sim (finish_poll tid st g2) N'
    \<and> calm (finish_poll tid st g2)"
proof -
  obtain slot where slot: "btm_get (in_tasks g) task = Some slot" "ts_future slot = Some fut" "tid = task"
    and g1: "in_tasks g1 = btm_insert task (slot\<lparr>ts_future := None\<rparr>) (in_tasks g)" "in_nodes g1 = in_nodes g"
      "in_next_task_id g1 = in_next_task_id g" "same_net g g1" "calm g1" "in_now g1 = in_now g"
    using poll(1) taken_calm [OF taken(1)]
    by (auto simp: dispatch_poll_def count_dispatch_def same_net_def calm_def Let_def split: option.splits if_splits)
  let ?n = "ts_node slot"
  have sim: "world_sim g N" "tasks_sim g N" using taken(1,2) by (simp_all add: taken_sim_def world_sim_def)
  obtain f p where f: "fut = NodeFut ?n f" "nt_nodes N ?n = Some p" "runs f p" "spawn_free p"
    using tasks_simD [OF sim(2) slot(1,2)] by blast
  obtain res where res: "poll_fut (sut_step body) ?n f g1 = Some (Inr (res, g2))"
    and st: "st = (case res of PolledReady v \<Rightarrow> None | PolledPending f' \<Rightarrow> Some (NodeFut ?n f'))"
    using poll(2) f(1) by (auto simp: poll_box_def split: option.splits sum.splits polled.splits)
  have "world_sim g1 N" using same_net_sim g1(4) sim(1) by blast
  then obtain N' p' where N': "net_steps body progs N N'" "world_sim g2 N'" "nt_nodes N' = (nt_nodes N)(?n \<mapsto> p')"
      "spawn_free p'" "\<forall>f'. res = PolledPending f' \<longrightarrow> runs f' p'"
    and g2: "calm g2" "same_tasks g1 g2"
    using sut_poll [OF res _ f(2,3,4) free g1(5) _ taken(4), of progs] taken(3) g1(6) by auto
  have g2_tasks: "in_tasks g2 = btm_insert task (slot\<lparr>ts_future := None\<rparr>) (in_tasks g)" "in_nodes g2 = in_nodes g"
      "in_next_task_id g2 = in_next_task_id g"
    using g1 g2(2) by (simp_all add: same_tasks_def)
  have finish: "same_net g2 (finish_poll task st g2)" "calm (finish_poll task st g2)"
    using g2(1) by (auto simp: finish_poll_def same_net_def calm_def Let_def split: option.splits)
  have "tasks_sim (finish_poll task st g2) N'"
  proof (cases res)
    case (PolledPending f')
    then have "in_tasks (finish_poll task st g2) = btm_insert task (slot\<lparr>ts_future := Some (NodeFut ?n f')\<rparr>) (in_tasks g)"
      using st g2_tasks sim(2) by (simp add: finish_poll_def Let_def tasks_sim_def btm.put_put)
    then show ?thesis
      by (rule tasks_sim_polled [OF sim(2) slot(1) _ _ _ N'(3)])
        (use PolledPending N'(4,5) g2_tasks st in \<open>auto simp: finish_poll_def Let_def split: option.split\<close>)
  next
    case (PolledReady v)
    let ?h = "finish_poll task st g2"
    have tasks: "in_tasks ?h = btm_remove task (in_tasks g)" "in_nodes ?h = in_nodes g" "in_next_task_id ?h = in_next_task_id g"
      using PolledReady st g2_tasks sim(2) by (simp_all add: finish_poll_def Let_def tasks_sim_def btm.del_put)
    have "task_runs slot' N'" if "btm_get (in_tasks g) t' = Some slot'" "t' \<noteq> task" for t' slot'
    proof -
      have "ts_node slot' \<noteq> ?n" using that slot(1) sim(2) unfolding tasks_sim_def by blast
      moreover have "task_runs slot' N" using that(1) sim(2) unfolding tasks_sim_def by blast
      ultimately show ?thesis using N'(3) by (simp add: task_runs_def)
    qed
    moreover have "?n \<in> in_nodes g" using slot(1) sim(2) by (simp add: tasks_sim_def)
    ultimately show ?thesis
      using sim(2) N'(3) by (auto simp: tasks_sim_def tasks split: if_splits)
  qed
  then show ?thesis using N'(1,2) finish same_net_sim slot(3) by blast
qed

lemma dispatch_event_sim:
  assumes taken: "taken_sim e g N" "calm_event e" and event: "dispatch_event e g = (None, g')"
  shows "\<exists>N'. net_steps body progs N N' \<and> world_sim g' N' \<and> tasks_sim g' N' \<and> calm g'"
proof (cases "k_kind e")
  case (TimerFire timer)
  then have "g' = dispatch_timer (k_time e) (k_seq e) timer g" "flying e = {#}"
    using event by (simp_all add: dispatch_event_def flying_def)
  then show ?thesis
    using taken_quiet [OF taken(1)] dispatch_timer_sim [OF taken_calm [OF taken(1)]] by blast
next
  case (DeliverMsg src dst msg)
  then have g': "g' = dispatch_deliver (k_time e) (k_seq e) src dst msg g"
    using event by (simp add: dispatch_event_def)
  obtain N' where N': "net_step body progs N N'" "nt_nodes N' = nt_nodes N" "world_sim g' N'" "same_tasks g g'" "calm g'"
    using dispatch_deliver_sim [OF taken(1) DeliverMsg] g' by blast
  have "tasks_sim g' N'" using taken(1) tasks_sim_same [OF N'(4,2)] by (simp add: taken_sim_def)
  then show ?thesis using N' by blast
next
  case (NemesisEvent a)
  then have "dispatch_nemesis (k_time e) (k_seq e) a g = (None, g')" using event by (simp add: dispatch_event_def)
  from dispatch_nemesis_sim [OF taken(1) NemesisEvent taken(2) this] show ?thesis by blast
next
  case (PollTask task)
  then have poll: "dispatch_poll (k_time e) (k_seq e) task g = (None, g')" "flying e = {#}"
    using event by (simp_all add: dispatch_event_def flying_def)
  then have sim: "world_sim g N" "tasks_sim g N" "calm g" using taken(1) by (simp_all add: taken_sim_def world_sim_def)
  show ?thesis
  proof (cases "g' = g")
    case False
    then obtain slot where slot: "btm_get (in_tasks g) task = Some slot"
      and g': "in_tasks g' = btm_insert task (slot\<lparr>ts_future := None\<rparr>) (in_tasks g)" "in_nodes g' = in_nodes g"
        "in_next_task_id g' = in_next_task_id g" "same_net g g'" "calm g'"
      using poll(1) sim(3)
      by (auto simp: dispatch_poll_def same_net_def calm_def Let_def split: option.splits if_splits)
    have "tasks_sim g' N" using sim(2) slot g'(1-3) by (rule tasks_sim_taken)
    then show ?thesis using g'(4,5) same_net_sim sim(1) by blast
  qed (use sim in blast)
qed

lemma world_step_sim:
  assumes step: "world_step (sut_step body) g g'" and sim: "sim_ok g N" and free: "\<forall>l. spawn_free (body l)"
  shows "\<exists>N'. net_steps body progs N N' \<and> sim_ok g' N'"
proof -
  have order: "order_ok g" using sim by (simp add: sim_ok_def)
  have order': "order_ok g'" using order.step_keeps [OF step order] .
  have "\<exists>N'. net_steps body progs N N' \<and> world_sim g' N' \<and> tasks_sim g' N' \<and> calm g'"
    using step
  proof (cases rule: world_step.cases)
    case (step_abort e q)
    note taken = take_event_sim [OF sim step_abort(2)]
    show ?thesis
      using taken(1) taken_lose [OF taken(2)] step_abort(1) by (metis rtranclp_trans)
  next
    case (step_event e q)
    note taken = take_event_sim [OF sim step_event(1)]
    from dispatch_event_sim [OF taken(2,3) step_event(3)] show ?thesis
      using taken(1) by (meson rtranclp_trans)
  next
    case (step_restart e q node g1)
    note taken = take_event_sim [OF sim step_restart(2)]
    show ?thesis
    proof (cases "k_kind e")
      case (NemesisEvent a)
      then have "dispatch_nemesis (k_time e) (k_seq e) a (take_event e q g) = (Some (PopRestart node), g1)"
        using step_restart(4) by (simp add: dispatch_event_def)
      from dispatch_nemesis_sim [OF taken(2) NemesisEvent taken(3) this] show ?thesis by blast
    qed (use step_restart(4) in \<open>auto simp: dispatch_event_def dispatch_poll_def Let_def split: option.splits if_splits\<close>)
  next
    case (step_poll e q task fut g1 st g2)
    note taken = take_event_sim [OF sim step_poll(2)]
    obtain t where t: "k_kind e = PollTask t" "dispatch_poll (k_time e) (k_seq e) t (take_event e q g) = (Some (PopPoll task fut), g1)"
    proof (cases "k_kind e")
      case (NemesisEvent a)
      then have "dispatch_nemesis (k_time e) (k_seq e) a (take_event e q g) = (Some (PopPoll task fut), g1)"
        using step_poll(4) by (simp add: dispatch_event_def)
      from dispatch_nemesis_sim [OF taken(2) NemesisEvent taken(3) this] show ?thesis by blast
    qed (use step_poll(4) that in \<open>auto simp: dispatch_event_def\<close>)
    have "in_now (take_event e q g) < - 1"
      using step_poll(3) taken_calm [OF taken(2)] by (auto simp: over_budget_def calm_def)
    moreover have "order_ok g1"
      using order_dispatch [OF order step_poll(2)] step_poll(4) by simp
    ultimately obtain N' where "net_steps body progs (N\<lparr>nt_clock := k_time e\<rparr>) N'"
        "world_sim (finish_poll task st g2) N'" "tasks_sim (finish_poll task st g2) N'" "calm (finish_poll task st g2)"
      using poll_task_sim [OF taken(2) _ _ _ t(2) step_poll(5) free, of progs] t(1) by (auto simp: flying_def)
    then show ?thesis using taken(1) step_poll(1) by (meson rtranclp_trans)
  qed
  then show ?thesis using order' by (auto simp: sim_ok_def)
qed

lemma world_steps_sim:
  assumes "world_steps (sut_step body) g g'" and "sim_ok g N" and "\<forall>l. spawn_free (body l)"
  shows "\<exists>N'. net_steps body progs N N' \<and> sim_ok g' N'"
  using assms(1)
proof (induction rule: rtranclp_induct)
  case base
  then show ?case using assms(2) by blast
next
  case (step g1 g2)
  then obtain N1 where N1: "net_steps body progs N N1" "sim_ok g1 N1" by blast
  obtain N2 where "net_steps body progs N1 N2" "sim_ok g2 N2"
    using world_step_sim [OF step(2) N1(2) assms(3)] by blast
  then show ?case using N1(1) by (meson rtranclp_trans)
qed


subsection \<open>Setting the world up\<close>

text \<open>The calls that add the nodes of \<open>progs\<close> and cause faults a network has.\<close>

definition adds :: "(node_id \<Rightarrow> ('l, 'v) prog option) \<Rightarrow> (('l, 'v) sut_future) node_factory \<Rightarrow> node_id \<Rightarrow> bool" where
  "adds progs f n \<longleftrightarrow> (\<exists>p. progs n = Some p \<and> f n = Running p)"

primrec calm_op :: "(node_id \<Rightarrow> ('l, 'v) prog option) \<Rightarrow> (('l, 'v) sut_future) world_op \<Rightarrow> bool" where
  "calm_op progs (OpAddNode n f) = adds progs f n"
| "calm_op progs (OpAddNodes cnt f) = (\<forall>n < cnt. adds progs f n)"
| "calm_op progs (OpScheduleNemesis at_time action) = calm_action action"
| "calm_op progs (OpSchedulePlan p n) = False"
| "calm_op progs (OpPartition groups) = True"
| "calm_op progs OpHealAll = True"
| "calm_op progs (OpSetDropPercent percent) = True"
| "calm_op progs (OpSetDuplicatePercent percent) = (percent = 0)"
| "calm_op progs (OpSetExtraDelayMs ms) = True"
| "calm_op progs (OpSetClockSkew n offset_ns) = False"
| "calm_op progs (OpCrashNode n) = True"
| "calm_op progs (OpRestartNode n) = False"
| "calm_op progs OpRun = False"

definition spawn_free_progs :: "(node_id \<Rightarrow> ('l, 'v) prog option) \<Rightarrow> bool" where
  "spawn_free_progs progs \<longleftrightarrow> (\<forall>n p. progs n = Some p \<longrightarrow> spawn_free p)"

definition setup_sim ::
  "('l \<Rightarrow> ('l, 'v) prog) \<Rightarrow> (node_id \<Rightarrow> ('l, 'v) prog option) \<Rightarrow> (('l, 'v) sut_future, 'v) inner \<Rightarrow> bool" where
  "setup_sim body progs g \<longleftrightarrow>
     at_start g \<and> (\<exists>N. net_steps body progs net_start N \<and> world_sim g N \<and> tasks_sim g N \<and> calm g)"

lemma add_node_sim:
  assumes "setup_sim body progs g" and "adds progs f n" and "spawn_free_progs progs"
    and "add_node_factory n f g = Inr g'"
  shows "setup_sim body progs g'"
proof -
  obtain N where N: "net_steps body progs net_start N" "world_sim g N" "tasks_sim g N" "calm g" and start: "at_start g"
    using assms(1) by (auto simp: setup_sim_def)
  obtain p where p: "progs n = Some p" "f n = Running p" "spawn_free p"
    using assms(2,3) by (auto simp: adds_def spawn_free_progs_def)
  have fresh: "n \<notin> in_nodes g" and g': "g' = spawn_registered_node n f (register_node n f g)"
    using assms(4) by (auto simp: add_node_factory_def split: if_splits)
  let ?N = "at_node N n p" and ?slot = "\<lparr>ts_node = n, ts_future = Some (NodeFut n (Running p))\<rparr>"
  have "nt_nodes N n = None" using N(3) fresh by (simp add: tasks_sim_def)
  then have "net_steps body progs net_start ?N"
    using N(1) net_begin [of N n progs p body] p(1) by (meson rtranclp.rtrancl_into_rtrancl)
  moreover have "world_sim g' ?N" and "calm g'"
    using N(2,4) p(2)
    by (auto simp: g' spawn_registered_node_def add_task_def register_node_def with_connectivity_def with_faults_def
        enqueue_poll_now_def push_event_def world_sim_def calm_def calm_event_def btm_get_or_def Let_def fun_eq_iff)
  moreover have "tasks_sim g' ?N"
  proof -
    have fields: "in_tasks g' = btm_insert (in_next_task_id g) ?slot (in_tasks g)" "in_nodes g' = insert n (in_nodes g)"
      "in_next_task_id g' = Suc (in_next_task_id g)"
      using p(2) by (simp_all add: g' spawn_registered_node_def add_task_def register_node_def with_connectivity_def
          with_faults_def enqueue_poll_now_def push_event_def Let_def)
    have old: "t < in_next_task_id g \<and> ts_node slot \<in> in_nodes g \<and> task_runs slot N"
      if "btm_get (in_tasks g) t = Some slot" for t slot
      using that N(3) unfolding tasks_sim_def by blast
    have kept: "task_runs slot ?N" if "btm_get (in_tasks g) t = Some slot" for t slot
      using old [OF that] fresh by (auto simp: task_runs_def)
    have new: "task_runs ?slot ?N" using p(3) by (simp add: task_runs_def)
    show ?thesis
      unfolding tasks_sim_def
    proof (intro conjI allI impI)
      show "t < in_next_task_id g'" "ts_node slot \<in> in_nodes g'" "task_runs slot ?N"
        if "btm_get (in_tasks g') t = Some slot" for t slot
        using that old [of t slot] kept [of t slot] new by (auto simp: fields split: if_splits)
      show "t = t'" if "btm_get (in_tasks g') t = Some slot" "btm_get (in_tasks g') t' = Some slot'"
        "ts_node slot = ts_node slot'" for t t' slot slot'
      proof (cases "t = in_next_task_id g \<or> t' = in_next_task_id g")
        case True
        then show ?thesis
          using that old [of t slot] old [of t' slot'] fresh by (auto simp: fields split: if_splits)
      next
        case False
        then show ?thesis using that N(3) unfolding tasks_sim_def fields by (metis btm_get_insert)
      qed
      show "btm_wf (in_tasks g')" using N(3) by (simp add: fields tasks_sim_def)
      show "nt_nodes ?N m = None" if "m \<notin> in_nodes g'" for m
        using that N(3) by (auto simp: fields tasks_sim_def)
    qed
  qed
  moreover have "at_start g'" using at_start_add_node [OF start assms(4)] .
  ultimately show ?thesis unfolding setup_sim_def by blast
qed

lemma add_node_list_sim:
  "setup_sim body progs g \<Longrightarrow> \<forall>n \<in> set ns. adds progs f n \<Longrightarrow> spawn_free_progs progs \<Longrightarrow>
     add_node_list ns f g = Inr g' \<Longrightarrow> setup_sim body progs g'"
  by (induction ns arbitrary: g) (auto split: sum.splits intro: add_node_sim)

lemma setup_op_sim:
  assumes "setup_sim body progs g" and "calm_op progs op" and "spawn_free_progs progs"
    and "world_exec (sut_step body) op g = Some (Inr g')"
  shows "setup_sim body progs g'"
proof -
  have "op \<noteq> OpRun" using assms(2) by auto
  then have start': "at_start g'" using at_start_exec [OF _ _ assms(4)] assms(1) by (simp add: setup_sim_def)
  obtain N where N: "net_steps body progs net_start N" "world_sim g N" "tasks_sim g N" "calm g"
    using assms(1) by (auto simp: setup_sim_def)
  have nemesis: "setup_sim body progs g'" if "calm_action a" "g' = snd (apply_nemesis a g)" for a
    using apply_nemesis_sim [OF N(2-4) that(1), of body progs] that(2) N(1) start'
    unfolding setup_sim_def by (meson rtranclp_trans)
  have faults: "setup_sim body progs g'" if "g' = with_faults F g"
    "\<And>fc. fc_duplicate_percent fc = 0 \<Longrightarrow> fc_duplicate_percent (F fc) = 0"
    "\<And>fc. fc_clock_skew_ns (F fc) = fc_clock_skew_ns fc" for F
    using N start' that by (auto simp: setup_sim_def with_faults_def world_sim_def tasks_sim_def calm_def intro!: exI [of _ N])
  show ?thesis
  proof (cases op)
    case (OpAddNode n f)
    then show ?thesis using assms by (auto intro: add_node_sim)
  next
    case (OpAddNodes cnt f)
    have "adds progs f n" if "n \<in> set (map of_nat [0..<unat cnt])" for n
    proof -
      have "n < cnt" using that by (auto simp: word_less_nat_alt unsigned_of_nat intro: le_less_trans [OF take_bit_nat_less_eq_self])
      then show ?thesis using assms(2) OpAddNodes by simp
    qed
    then have "\<forall>n \<in> set (map of_nat [0..<unat cnt]). adds progs f n" by blast
    moreover have "add_node_list (map of_nat [0..<unat cnt]) f g = Inr g'"
      using assms(4) OpAddNodes by (simp add: add_nodes_def)
    ultimately show ?thesis using add_node_list_sim [OF assms(1) _ assms(3)] by blast
  next
    case (OpScheduleNemesis at_time a)
    then show ?thesis
      using N start' assms(2,4)
      by (auto simp: setup_sim_def world_sim_def tasks_sim_def calm_def calm_event_def push_event_def intro!: exI [of _ N])
  next
    case (OpPartition groups)
    then show ?thesis using assms(4) nemesis [of "Partition groups"] by simp
  next
    case OpHealAll
    then show ?thesis using assms(4) nemesis [of HealAll] by simp
  next
    case (OpCrashNode n)
    then show ?thesis using assms(4) nemesis [of "Crash n"] by simp
  qed (use assms(2,4) faults in auto)
qed

lemma setup_script_sim:
  "world_script (sut_step body) ops g = Some (Inr g') \<Longrightarrow> setup_sim body progs g \<Longrightarrow>
     \<forall>op \<in> set ops. calm_op progs op \<Longrightarrow> spawn_free_progs progs \<Longrightarrow> setup_sim body progs g'"
proof (induction ops arbitrary: g)
  case (Cons op ops)
  then obtain g1 where g1: "world_exec (sut_step body) op g = Some (Inr g1)" "world_script (sut_step body) ops g1 = Some (Inr g')"
    by (auto split: option.splits sum.splits)
  have "setup_sim body progs g1" by (rule setup_op_sim [OF Cons.prems(2) _ Cons.prems(4) g1(1)]) (use Cons.prems(3) in simp)
  with g1(2) show ?case by (rule Cons.IH) (use Cons.prems(3,4) in simp_all)
qed simp

lemma world_script_append:
  "world_script nx (ops @ ops') g =
     (case world_script nx ops g of Some (Inr g') \<Rightarrow> world_script nx ops' g' | r \<Rightarrow> r)"
  by (induction ops arbitrary: g) (auto split: option.split sum.split)

lemma start_sim:
  "wc_horizon_ns config < - 1 \<Longrightarrow> setup_sim body progs (world_from_tape seed config tape)"
  unfolding setup_sim_def
  by (intro conjI exI [of _ net_start] at_start_world)
    (simp_all add: net_start_def world_sim_def tasks_sim_def calm_def world_from_tape_def fault_config_default_def
      time_zero_def btm_get_or_def fun_eq_iff)

lemma run_refines_network:
  assumes run: "world_script (sut_step body) (setup_ops @ [OpRun]) (world_from_tape seed config tape) = Some (Inr g)"
    and setup_ok: "\<forall>op \<in> set setup_ops. calm_op progs op" and horizon: "wc_horizon_ns config < - 1"
    and free: "\<forall>l. spawn_free (body l)" "spawn_free_progs progs"
  shows "\<exists>N. net_steps body progs net_start N \<and> sim_ok g N"
proof -
  obtain g0 where g0: "world_script (sut_step body) setup_ops (world_from_tape seed config tape) = Some (Inr g0)"
    and run0: "run_loop (sut_step body) g0 = Some (Inr g)"
    using run by (auto simp: world_script_append split: option.splits sum.splits)
  have "setup_sim body progs g0"
    using setup_script_sim [OF g0 start_sim [OF horizon] setup_ok free(2)] .
  then obtain N0 where N0: "net_steps body progs net_start N0" "sim_ok g0 N0"
    by (auto simp: setup_sim_def sim_ok_def at_start_def)
  obtain N where "net_steps body progs N0 N" "sim_ok g N"
    using world_steps_sim [OF run_loop_steps [OF run0] N0(2) free(1)] by blast
  then show ?thesis using N0(1) by (meson rtranclp_trans)
qed

text \<open>A protocol is safe in the simulator if it is safe on the network: an invariant of the network steps
  holds of the history of every run.\<close>

locale network_invariant =
  fixes body :: "'l \<Rightarrow> ('l, 'v) prog" and progs :: "node_id \<Rightarrow> ('l, 'v) prog option"
    and inv :: "('l, 'v) network \<Rightarrow> bool"
  assumes inv_start: "inv net_start"
    and inv_step: "net_step body progs N N' \<Longrightarrow> inv N \<Longrightarrow> inv N'"
    and no_tasks: "spawn_free (body l)" "spawn_free_progs progs"
begin

lemma reachable: "net_steps body progs net_start N \<Longrightarrow> inv N"
  by (induction rule: rtranclp_induct) (use inv_start inv_step in blast)+

lemma run_history:
  assumes "world_script (sut_step body) (setup_ops @ [OpRun]) (world_from_tape seed config tape) = Some (Inr g)"
    and "\<forall>op \<in> set setup_ops. calm_op progs op" and "wc_horizon_ns config < - 1"
  obtains N where "inv N" "nt_history N = in_history g"
proof -
  obtain N where N: "net_steps body progs net_start N" "sim_ok g N"
    using run_refines_network [OF assms] no_tasks by blast
  show thesis by (rule that [OF reachable [OF N(1)]]) (use N(2) in \<open>simp add: sim_ok_def world_sim_def\<close>)
qed

end

text \<open>C5. One run of a world refines the asynchronous network. Let a test add nodes with these programs, which
  spawn no tasks, set up or schedule message loss, delay, partitions and link cuts, crashes and storage faults, but no
  message duplication, no restart, no clock skew and no nemesis plan, with a horizon below the last instant, and then
  run the world once. If the run returns, its history is the history of a network state reachable from the
  empty network by steps of its nodes.\<close>

theorem world_run_refines_network:
  assumes "world_script (sut_step body) (setup_ops @ [OpRun]) (world_from_tape seed config tape) = Some (Inr g)"
    and "\<forall>op \<in> set setup_ops. calm_op progs op" and "wc_horizon_ns config < - 1"
    and "\<forall>l. spawn_free (body l)" "spawn_free_progs progs"
  shows "\<exists>N. net_steps body progs net_start N \<and> nt_history N = in_history g"
  using run_refines_network [OF assms] by (auto simp: sim_ok_def world_sim_def)

theorem world_run_refines_network_witness:
  "\<exists>N. net_steps no_labels [0 \<mapsto> timeout_node] net_start N \<and> nt_history N = [''timeout'']"
proof -
  obtain g where g: "world_script (sut_step no_labels) timeout_world (world_from_tape 7 world_config_default (tape_generate 7))
      = Some (Inr g)" "in_history g = [''timeout'']"
    using timeout_times_out [of 7 "tape_generate 7"] by (auto simp: quiesces_with_def split: option.splits sum.splits)
  have "timeout_world = [OpAddNode 0 (\<lambda>_. Running timeout_node)] @ [OpRun]" by (simp add: timeout_world_def)
  then show ?thesis
    using world_run_refines_network [of no_labels "[OpAddNode 0 (\<lambda>_. Running timeout_node)]" 7 world_config_default
        "tape_generate 7" g "[0 \<mapsto> timeout_node]"] g
    by (auto simp: adds_def world_config_default_def no_labels_def spawn_free_progs_def timeout_node_def split: option.split)
qed

end
