(* ===== verification/World_Returns.thy ===== *)
theory World_Returns
  imports Network_Run
begin

section \<open>Scripts that return\<close>

text \<open>
  A run stops after \<^verbatim>\<open>max_events\<close> events, but a poll may make calls for ever, and the simulator may panic.
  Neither happens for programs that use the clock, the network and the history only, and whose loops receive before
  they go round again: \<open>script_returns\<close> below. A loop may go on to loops of smaller \<open>rank\<close> without receiving.
\<close>

subsection \<open>Programs\<close>

primrec plain_prog :: "('l, 'v) prog \<Rightarrow> bool" where
  "plain_prog (Return v) = True"
| "plain_prog (Goto l) = True"
| "plain_prog (Now k) = (\<forall>t. plain_prog (k t))"
| "plain_prog (Send dst msg p) = plain_prog p"
| "plain_prog (Recv k) = (\<forall>src msg. plain_prog (k src msg))"
| "plain_prog (Sleep d p) = plain_prog p"
| "plain_prog (TimedRecv d k) = (\<forall>x. plain_prog (k x))"
| "plain_prog (WriteAt off data p) = False"
| "plain_prog (ReadAt off buf k) = False"
| "plain_prog (Flush p) = False"
| "plain_prog (Len k) = False"
| "plain_prog (Record event p) = plain_prog p"
| "plain_prog (SpawnTask child k) = False"
| "plain_prog (Join h k) = False"

primrec guarded :: "('l \<Rightarrow> nat) \<Rightarrow> nat \<Rightarrow> ('l, 'v) prog \<Rightarrow> bool" where
  "guarded rank b (Return v) = True"
| "guarded rank b (Goto l) = (rank l < b)"
| "guarded rank b (Now k) = (\<forall>t. guarded rank b (k t))"
| "guarded rank b (Send dst msg p) = guarded rank b p"
| "guarded rank b (Recv k) = True"
| "guarded rank b (Sleep d p) = guarded rank b p"
| "guarded rank b (TimedRecv d k) = guarded rank b (k None)"
| "guarded rank b (WriteAt off data p) = guarded rank b p"
| "guarded rank b (ReadAt off buf k) = (\<forall>n out. guarded rank b (k n out))"
| "guarded rank b (Flush p) = guarded rank b p"
| "guarded rank b (Len k) = (\<forall>n. guarded rank b (k n))"
| "guarded rank b (Record event p) = guarded rank b p"
| "guarded rank b (SpawnTask child k) = (\<forall>h. guarded rank b (k h))"
| "guarded rank b (Join h k) = (\<forall>v. guarded rank b (k v))"

lemma guarded_bound: "(\<And>l. rank l < b) \<Longrightarrow> guarded rank b p"
  by (induction p) auto

text \<open>Loops that receive before they go round.\<close>

definition good_loops :: "('l \<Rightarrow> nat) \<Rightarrow> nat \<Rightarrow> ('l \<Rightarrow> ('l, 'v) prog) \<Rightarrow> bool" where
  "good_loops rank b body \<longleftrightarrow> (\<forall>l. rank l < b \<and> plain_prog (body l) \<and> guarded rank (rank l) (body l))"

primrec plain_fut :: "('l, 'v) sut_future \<Rightarrow> bool" where
  "plain_fut (Running p) = plain_prog p"
| "plain_fut (Yield f) = plain_fut f"
| "plain_fut (Receiving this k) = (\<forall>src msg. plain_prog (k src msg))"
| "plain_fut (Sleeping this p) = plain_prog p"
| "plain_fut (Joining this k) = False"
| "plain_fut (Racing r f k) = (\<forall>x. plain_prog (k x))"
| "plain_fut (TimerTurn d r timer k) = (\<forall>x. plain_prog (k x))"
| "plain_fut (DropTimer f p) = plain_prog p"
| "plain_fut (DropRecv r p) = plain_prog p"

subsection \<open>Calls\<close>

definition keeps :: "('f, 'v) inner \<Rightarrow> ('f, 'v) inner \<Rightarrow> bool" where
  "keeps g g' \<longleftrightarrow>
     in_tasks g' = in_tasks g \<and> in_factories g' = in_factories g \<and> in_faults g' = in_faults g
     \<and> in_current_task g' = in_current_task g"

definition ready :: "('f, 'v) inner \<Rightarrow> bool" where
  "ready g \<longleftrightarrow> in_current_task g \<noteq> None \<and> unat (fc_extra_delay_ms (in_faults g)) + 100 \<le> u64_max"

abbreviation inbox_of :: "node_id \<Rightarrow> ('f, 'v) inner \<Rightarrow> (node_id \<times> message) list" where
  "inbox_of n g \<equiv> btm_get_or [] (in_inboxes g) n"

lemma keeps_refl [simp]: "keeps g g"
  by (simp add: keeps_def)

lemma keeps_trans: "keeps g g' \<Longrightarrow> keeps g' g'' \<Longrightarrow> keeps g g''"
  by (simp add: keeps_def)

lemma keeps_ready: "keeps g g' \<Longrightarrow> ready g \<Longrightarrow> ready g'"
  by (simp add: keeps_def ready_def)

lemma now_call: "\<exists>t g'. env_exec n CallNow g = Inr (RespTime t, g') \<and> keeps g g' \<and> in_inboxes g' = in_inboxes g"
  by (auto simp: local_now_def keeps_def Let_def)

lemma sleep_call:
  assumes "ready g"
  shows "\<exists>b sf' g'. env_exec n (CallSleepPoll sf) g = Inr (RespSleep b sf', g') \<and> keeps g g' \<and> in_inboxes g' = in_inboxes g"
  using assms
  by (auto simp: sleep_poll_def local_now_def keeps_def ready_def cancel_timer_def register_timer_def push_event_def
      Let_def split: option.split)

lemma send_call:
  assumes "ready g"
  shows "\<exists>g'. env_exec n (CallSend dst msg) g = Inr (RespUnit, g') \<and> keeps g g' \<and> in_inboxes g' = in_inboxes g"
proof -
  have base: "1 + v mod 100 + w mod (e + 1) \<le> e + 100" for v w e :: nat
    using mod_less_divisor [of 100 v] mod_less_divisor [of "e + 1" w] by linarith
  have "\<exists>d g1. draw_net_delay_ms g = Inr (d, g1) \<and> keeps g g1 \<and> in_inboxes g1 = in_inboxes g"
  proof (cases "unat (fc_extra_delay_ms (in_faults g)) = 0")
    case True
    then show ?thesis by (simp add: draw_net_delay_ms_def tape_draw_def keeps_def Let_def split_beta)
  next
    case False
    let ?e = "unat (fc_extra_delay_ms (in_faults g))"
    have e: "?e + 100 \<le> u64_max" using assms by (simp add: ready_def)
    then have "\<not> u64_max < 1 + v mod 100 + w mod (?e + 1)" for v w
      using base [of v w ?e] by linarith
    moreover have "?e \<noteq> u64_max" using e by simp
    ultimately show ?thesis using False
      by (simp add: draw_net_delay_ms_def tape_draw_def keeps_def Let_def split_beta del: unat_eq_0 unat_eq_zero)
  qed
  then show ?thesis
    by (auto simp: net_send_def draw_percent_def tape_draw_def push_event_def keeps_def Let_def split_beta)
qed

lemma recv_call:
  assumes "ready g"
  shows "inbox_of n g = [] \<and> (\<exists>rf' g'. env_exec n (CallRecvPoll rf) g = Inr (RespRecv None rf', g') \<and> keeps g g'
      \<and> in_inboxes g' = in_inboxes g)
    \<or> (\<exists>am rf' g'. env_exec n (CallRecvPoll rf) g = Inr (RespRecv (Some am) rf', g') \<and> keeps g g'
      \<and> length (inbox_of n g') < length (inbox_of n g))"
  using assms
  by (cases "inbox_of n g"; cases "rf_registered_task rf")
    (auto simp: recv_poll_def register_recv_waiter_def unregister_recv_waiter_def ready_def keeps_def Let_def
      btm_get_or_def split: option.split)

lemma drop_calls:
  "\<exists>g'. env_exec n (CallRecvDrop rf) g = Inr (RespUnit, g') \<and> keeps g g' \<and> in_inboxes g' = in_inboxes g"
  "\<exists>g'. env_exec n (CallSleepDrop sf) g = Inr (RespUnit, g') \<and> keeps g g' \<and> in_inboxes g' = in_inboxes g"
  "\<exists>g'. env_exec n (CallRecord ev) g = Inr (RespUnit, g') \<and> keeps g g' \<and> in_inboxes g' = in_inboxes g"
  by (auto simp: recv_drop_def unregister_recv_waiter_def sleep_drop_def cancel_timer_def env_record_def keeps_def
      split: option.split)

subsection \<open>Polls\<close>

definition poll_returns ::
  "('l \<Rightarrow> ('l, 'v) prog) \<Rightarrow> node_id \<Rightarrow> ('l, 'v) sut_future \<Rightarrow> (('l, 'v) sut_future, 'v) inner \<Rightarrow> bool" where
  "poll_returns body n f g \<longleftrightarrow>
     (\<exists>r g'. poll_fut (sut_step body) n f g = Some (Inr (r, g')) \<and> keeps g g' \<and> (\<forall>f'. r = PolledPending f' \<longrightarrow> plain_fut f'))"

lemma poll_returns_call:
  "sut_step body f = StepCall c k \<Longrightarrow> env_exec n c g = Inr (x, g1) \<Longrightarrow> keeps g g1 \<Longrightarrow> poll_returns body n (k x) g1 \<Longrightarrow>
     poll_returns body n f g"
  unfolding poll_returns_def using poll_fut_call keeps_trans by metis

lemma poll_returns_pending: "sut_step body f = StepPending f' \<Longrightarrow> plain_fut f' \<Longrightarrow> poll_returns body n f g"
  by (simp add: poll_returns_def poll_fut_pending)

lemma poll_returns_ready: "sut_step body f = StepReady v \<Longrightarrow> poll_returns body n f g"
  by (simp add: poll_returns_def poll_fut_ready)

lemma poll_returns_step:
  "sut_step body f = sut_step body f' \<Longrightarrow> poll_returns body n f' g \<Longrightarrow> poll_returns body n f g"
  by (simp add: poll_returns_def poll_fut.simps)

text \<open>What follows a receive, a sleep and a race, given that what runs afterwards returns
  with fewer messages in the inbox or the same.\<close>

lemma receiving_returns:
  assumes "ready g" and "\<And>src msg. plain_prog (k src msg)"
    and again: "\<And>src msg g'. ready g' \<Longrightarrow> length (inbox_of n g') < length (inbox_of n g) \<Longrightarrow> poll_returns body n (Running (k src msg)) g'"
    and step: "sut_step body f = StepCall (CallRecvPoll rf) (after_recv k)"
  shows "poll_returns body n f g"
  using recv_call [OF assms(1), of n rf]
proof (elim disjE conjE exE)
  fix rf' g'
  assume "env_exec n (CallRecvPoll rf) g = Inr (RespRecv None rf', g')" "keeps g g'"
  from poll_returns_call [OF step this] show ?thesis using assms(2) by (simp add: poll_returns_pending)
next
  fix am rf' g'
  assume call: "env_exec n (CallRecvPoll rf) g = Inr (RespRecv (Some am) rf', g')" "keeps g g'"
    and less: "length (inbox_of n g') < length (inbox_of n g)"
  obtain src msg where am: "am = (src, msg)" by (cases am)
  show ?thesis
    by (rule poll_returns_call [OF step call]) (use am again keeps_ready [OF call(2) assms(1)] less in simp)
qed

lemma sleeping_returns:
  assumes "ready g" and "plain_prog p"
    and again: "\<And>g'. ready g' \<Longrightarrow> in_inboxes g' = in_inboxes g \<Longrightarrow> poll_returns body n (Running p) g'"
  shows "poll_returns body n (Sleeping sf p) g"
proof -
  obtain b sf' g' where call: "env_exec n (CallSleepPoll sf) g = Inr (RespSleep b sf', g')" "keeps g g'"
    and same: "in_inboxes g' = in_inboxes g"
    using sleep_call [OF assms(1)] by blast
  show ?thesis
  proof (rule poll_returns_call [OF _ call])
    show "sut_step body (Sleeping sf p) = StepCall (CallSleepPoll sf) (after_sleep sf p)" by simp
    show "poll_returns body n (after_sleep sf p (RespSleep b sf')) g'"
      using again [OF keeps_ready [OF call(2) assms(1)] same] assms(2) by (cases b) (simp_all add: poll_returns_pending)
  qed
qed

lemma timer_turn_returns:
  assumes "ready g" and "\<And>x. plain_prog (k x)"
    and again: "\<And>g'. ready g' \<Longrightarrow> in_inboxes g' = in_inboxes g \<Longrightarrow> poll_returns body n (Running (k None)) g'"
  shows "poll_returns body n (TimerTurn d r timer k) g"
proof -
  have started: "poll_returns body n (TimerTurn d r (Some f) k) h" if h: "ready h" "in_inboxes h = in_inboxes g" for f h
  proof -
    obtain b sf' g' where call: "env_exec n (CallSleepPoll f) h = Inr (RespSleep b sf', g')" "keeps h g'"
      and same: "in_inboxes g' = in_inboxes h"
      using sleep_call [OF h(1)] by blast
    obtain g'' where drop: "env_exec n (CallRecvDrop r) g' = Inr (RespUnit, g'')" "keeps g' g''"
      and same': "in_inboxes g'' = in_inboxes g'"
      using drop_calls(1) by blast
    have "ready g''" using keeps_ready [OF drop(2) keeps_ready [OF call(2) h(1)]] .
    then have "poll_returns body n (Running (k None)) g''" using again same same' h(2) by simp
    then have dropped: "poll_returns body n (DropRecv r (k None)) g'"
      by (intro poll_returns_call [OF _ drop, where k = "\<lambda>_. Running (k None)"]) simp_all
    show ?thesis
      by (rule poll_returns_call [OF _ call, where k = "after_race_sleep r f k"])
        (use dropped assms(2) in \<open>simp_all add: poll_returns_pending\<close>)
  qed
  show ?thesis
  proof (cases timer)
    case (Some f)
    then show ?thesis using started [OF assms(1)] by simp
  next
    case None
    obtain t g' where call: "env_exec n CallNow g = Inr (RespTime t, g')" "keeps g g'" and same: "in_inboxes g' = in_inboxes g"
      using now_call by blast
    show ?thesis unfolding None
      by (rule poll_returns_call [OF _ call, where
            k = "after_now (\<lambda>t. TimerTurn d r (Some (sleep_until (time_saturating_add t d))) k)"])
        (use started [OF keeps_ready [OF call(2) assms(1)] same] in simp_all)
  qed
qed

lemma racing_returns:
  assumes "ready g" and "\<And>x. plain_prog (k x)"
    and again: "\<And>g'. ready g' \<Longrightarrow> in_inboxes g' = in_inboxes g \<Longrightarrow> poll_returns body n (Running (k None)) g'"
    and fewer: "\<And>am g'. ready g' \<Longrightarrow> length (inbox_of n g') < length (inbox_of n g) \<Longrightarrow> poll_returns body n (Running (k (Some am))) g'"
    and step: "sut_step body f = StepCall (CallRecvPoll rf) (after_race_recv d timer k)"
  shows "poll_returns body n f g"
  using recv_call [OF assms(1), of n rf]
proof (elim disjE conjE exE)
  fix rf' g'
  assume call: "env_exec n (CallRecvPoll rf) g = Inr (RespRecv None rf', g')" "keeps g g'" and same: "in_inboxes g' = in_inboxes g"
  have "poll_returns body n (TimerTurn d rf' timer k) g'"
    using timer_turn_returns [OF keeps_ready [OF call(2) assms(1)] assms(2)] again same by simp
  then show ?thesis by (intro poll_returns_call [OF step call]) simp
next
  fix am rf' g'
  assume call: "env_exec n (CallRecvPoll rf) g = Inr (RespRecv (Some am) rf', g')" "keeps g g'"
    and less: "length (inbox_of n g') < length (inbox_of n g)"
  have up: "ready g'" using keeps_ready [OF call(2) assms(1)] .
  have "poll_returns body n (DropTimer sf (k (Some am))) g'" for sf
  proof -
    obtain g'' where drop: "env_exec n (CallSleepDrop sf) g' = Inr (RespUnit, g'')" "keeps g' g''" "in_inboxes g'' = in_inboxes g'"
      using drop_calls(2) by blast
    have "poll_returns body n (Running (k (Some am))) g''"
      using fewer [OF keeps_ready [OF drop(2) up]] less drop(3) by simp
    then show ?thesis by (intro poll_returns_call [OF _ drop(1,2), where k = "\<lambda>_. Running (k (Some am))"]) simp_all
  qed
  then show ?thesis
    using fewer [OF up less] by (intro poll_returns_call [OF step call]) (simp split: option.split)
qed

lemma running_returns:
  assumes loops: "good_loops rank b body"
  shows "plain_prog p \<Longrightarrow> ready g \<Longrightarrow> poll_returns body n (Running p) g"
proof (induction "length (inbox_of n g)" arbitrary: p g rule: less_induct)
  case less
  have fewer: "poll_returns body n (Running q) h"
    if "length (inbox_of n h) < length (inbox_of n g)" "plain_prog q" "ready h" for q h
    using less.hyps that by blast
  have bounded: "plain_prog p \<Longrightarrow> guarded rank c p \<Longrightarrow> ready h \<Longrightarrow> in_inboxes h = in_inboxes g \<Longrightarrow> poll_returns body n (Running p) h"
    for c p h
  proof (induction c arbitrary: p h rule: less_induct)
    case (less c)
    note ranked = less.IH
    show ?case using less.prems
    proof (induction p arbitrary: h)
      case (Return v)
      then show ?case by (simp add: poll_returns_ready)
    next
      case (Goto l)
      then have "poll_returns body n (Running (body l)) h"
        using ranked [of "rank l" "body l" h] loops by (simp add: good_loops_def)
      then show ?case
      proof (cases "\<exists>l'. body l = Goto l'")
        case True
        then show ?thesis by (auto intro: poll_returns_pending)
      next
        case False
        then have "sut_step body (Running (Goto l)) = sut_step body (Running (body l))" by (auto split: prog.split)
        then show ?thesis using \<open>poll_returns body n (Running (body l)) h\<close> by (rule poll_returns_step)
      qed
    next
      case (Now k)
      obtain t h' where call: "env_exec n CallNow h = Inr (RespTime t, h')" "keeps h h'" "in_inboxes h' = in_inboxes h"
        using now_call by blast
      have "poll_returns body n (Running (k t)) h'"
        using Now.IH [of "k t" h'] Now.prems keeps_ready [OF call(2)] call(3) by simp
      then show ?case by (intro poll_returns_call [OF _ call(1,2), where k = "after_now (\<lambda>t. Running (k t))"]) simp_all
    next
      case (Send dst msg q)
      obtain h' where call: "env_exec n (CallSend dst msg) h = Inr (RespUnit, h')" "keeps h h'" "in_inboxes h' = in_inboxes h"
        using send_call [OF Send.prems(3)] by blast
      have "poll_returns body n (Running q) h'"
        using Send.IH [of h'] Send.prems keeps_ready [OF call(2)] call(3) by simp
      then show ?case by (intro poll_returns_call [OF _ call(1,2), where k = "\<lambda>_. Running q"]) simp_all
    next
      case (Recv k)
      then show ?case
        by (intro receiving_returns [where rf = recv_start and k = k and g = h]) (auto intro!: fewer)
    next
      case (Sleep d q)
      obtain t h' where call: "env_exec n CallNow h = Inr (RespTime t, h')" "keeps h h'" "in_inboxes h' = in_inboxes h"
        using now_call by blast
      have "poll_returns body n (Sleeping sf q) h'" for sf
        using Sleep.IH Sleep.prems call(3) keeps_ready [OF call(2) Sleep.prems(3)] by (intro sleeping_returns) simp_all
      then show ?case
        by (intro poll_returns_call [OF _ call(1,2), where
              k = "after_now (\<lambda>t. Sleeping (sleep_until (time_saturating_add t d)) q)"]) simp_all
    next
      case (TimedRecv d k)
      have "poll_returns body n (Running (k None)) h'" if "ready h'" "in_inboxes h' = in_inboxes h" for h'
        using TimedRecv.IH [of "k None" h'] TimedRecv.prems that by simp
      then show ?case
        using TimedRecv.prems
        by (intro racing_returns [where rf = recv_start and k = k and g = h and d = d and timer = None]) (auto intro!: fewer)
    next
      case (Record event q)
      obtain h' where call: "env_exec n (CallRecord event) h = Inr (RespUnit, h')" "keeps h h'" "in_inboxes h' = in_inboxes h"
        using drop_calls(3) by blast
      have "poll_returns body n (Running q) h'"
        using Record.IH [of h'] Record.prems keeps_ready [OF call(2)] call(3) by simp
      then show ?case by (intro poll_returns_call [OF _ call(1,2), where k = "\<lambda>_. Running q"]) simp_all
    qed simp_all
  qed
  have "guarded rank b p" using loops by (intro guarded_bound) (simp add: good_loops_def)
  then show ?case using bounded less.prems by blast
qed

lemma future_returns:
  assumes "good_loops rank b body" and "plain_fut f" and "ready g"
  shows "poll_returns body n f g"
proof -
  note running = running_returns [OF assms(1)]
  show ?thesis
  proof (cases f)
    case (Running p)
    then show ?thesis using assms running by simp
  next
    case (Yield f')
    then show ?thesis using assms by (intro poll_returns_pending) simp_all
  next
    case (Receiving this k)
    then have plain: "\<And>src msg. plain_prog (k src msg)" using assms(2) by simp
    show ?thesis
      by (rule receiving_returns [where k = k and rf = this, OF assms(3) plain]) (simp_all add: Receiving plain running)
  next
    case (Sleeping this p)
    then show ?thesis using assms running by (simp add: sleeping_returns)
  next
    case (Racing r sf k)
    then have plain: "\<And>x. plain_prog (k x)" using assms(2) by simp
    show ?thesis
      by (rule racing_returns [where rf = r and k = k and d = 0 and timer = "Some sf", OF assms(3) plain])
        (simp_all add: Racing plain running)
  next
    case (TimerTurn d r timer k)
    then have plain: "\<And>x. plain_prog (k x)" using assms(2) by simp
    show ?thesis unfolding TimerTurn by (rule timer_turn_returns [OF assms(3) plain]) (simp_all add: plain running)
  next
    case (DropTimer sf p)
    obtain g' where call: "env_exec n (CallSleepDrop sf) g = Inr (RespUnit, g')" "keeps g g'" using drop_calls(2) by blast
    show ?thesis unfolding DropTimer
      by (rule poll_returns_call [OF _ call, where k = "\<lambda>_. Running p"])
        (use assms DropTimer keeps_ready [OF call(2)] running in simp_all)
  next
    case (DropRecv r p)
    obtain g' where call: "env_exec n (CallRecvDrop r) g = Inr (RespUnit, g')" "keeps g g'" using drop_calls(1) by blast
    show ?thesis unfolding DropRecv
      by (rule poll_returns_call [OF _ call, where k = "\<lambda>_. Running p"])
        (use assms DropRecv keeps_ready [OF call(2)] running in simp_all)
  qed (use assms in simp)
qed

subsection \<open>Runs\<close>

definition plain_box :: "('l, 'v) sut_future box_fut \<Rightarrow> bool" where
  "plain_box fut \<longleftrightarrow> (\<exists>n f. fut = NodeFut n f \<and> plain_fut f)"

definition futures :: "(task_id, 'f task_slot) btree_map \<Rightarrow> 'f box_fut set" where
  "futures tasks = {fut. \<exists>slot \<in> snd ` set tasks. ts_future slot = Some fut}"

lemma futures_get: "btm_get tasks t = Some slot \<Longrightarrow> ts_future slot = Some fut \<Longrightarrow> fut \<in> futures tasks"
  by (force simp: futures_def dest: map_of_SomeD)

lemma futures_insert: "futures (btm_insert t slot tasks) \<subseteq> futures tasks \<union> set_option (ts_future slot)"
  using btm_set_insert [of t slot tasks] by (fastforce simp: futures_def)

lemma futures_mono: "set tasks' \<subseteq> set tasks \<Longrightarrow> futures tasks' \<subseteq> futures tasks"
  by (fastforce simp: futures_def)

lemma futures_fewer: "futures (btm_remove t tasks) \<subseteq> futures tasks" "futures (btm_retain P tasks) \<subseteq> futures tasks"
  by (rule futures_mono, rule btm_set_remove) (rule futures_mono, auto simp: btm_retain_def)

definition plain_world :: "(('l, 'v) sut_future, 'v) inner \<Rightarrow> bool" where
  "plain_world g \<longleftrightarrow>
     (\<forall>fut \<in> futures (in_tasks g). plain_box fut)
     \<and> (\<forall>n factory. btm_get (in_factories g) n = Some factory \<longrightarrow> (\<forall>m. plain_fut (factory m)))
     \<and> unat (fc_extra_delay_ms (in_faults g)) + 100 \<le> u64_max"

definition same_world :: "('f, 'v) inner \<Rightarrow> ('f, 'v) inner \<Rightarrow> bool" where
  "same_world g g' \<longleftrightarrow>
     futures (in_tasks g') \<subseteq> futures (in_tasks g)
     \<and> in_factories g' = in_factories g \<and> fc_extra_delay_ms (in_faults g') = fc_extra_delay_ms (in_faults g)"

lemma same_world_plain: "same_world g g' \<Longrightarrow> plain_world g \<Longrightarrow> plain_world g'"
  by (auto simp: same_world_def plain_world_def)

lemma same_world_frame:
  "in_tasks g' = in_tasks g \<Longrightarrow> in_factories g' = in_factories g \<Longrightarrow>
     fc_extra_delay_ms (in_faults g') = fc_extra_delay_ms (in_faults g) \<Longrightarrow> same_world g g'"
  by (simp add: same_world_def)

lemma same_world_trans: "same_world g g' \<Longrightarrow> same_world g' g'' \<Longrightarrow> same_world g g''"
  by (auto simp: same_world_def)

lemma enqueue_frame [simp]:
  "in_tasks (enqueue_poll_now t g) = in_tasks g" "in_factories (enqueue_poll_now t g) = in_factories g"
  "in_faults (enqueue_poll_now t g) = in_faults g"
  by (simp_all add: enqueue_poll_now_def push_event_def)

lemma fold_enqueue_frame [simp]:
  "in_tasks (fold enqueue_poll_now ts g) = in_tasks g" "in_factories (fold enqueue_poll_now ts g) = in_factories g"
  "in_faults (fold enqueue_poll_now ts g) = in_faults g"
  by (induction ts arbitrary: g) simp_all

lemma crash_same_world: "same_world g (crash_node n g)"
  using futures_fewer(2) by (auto simp: crash_node_def same_world_def crash_storage_def Let_def)

lemma nemesis_same_world: "same_world g (snd (apply_nemesis a g))"
  using crash_same_world [of "log_nemesis a g"]
  by (cases a)
    (auto simp: apply_nemesis_def with_connectivity_def with_faults_def bit_rot_storage_def log_nemesis_def
      same_world_def split: option.split)

lemma dispatch_same_world: "same_world g (snd (dispatch_event e g))"
proof (cases "k_kind e")
  case (NemesisEvent a)
  have counted: "same_world g (count_dispatch l g)" for l by (simp add: count_dispatch_def same_world_frame)
  have "same_world g (snd (apply_nemesis a (count_dispatch l g)))" for l
    by (rule same_world_trans [OF counted nemesis_same_world])
  moreover have "same_world g (log_nemesis a (count_dispatch l g))" for l
    by (simp add: count_dispatch_def log_nemesis_def same_world_frame)
  ultimately show ?thesis
    using NemesisEvent by (cases a) (simp_all add: dispatch_event_def dispatch_nemesis_def Let_def)
next
  case (PollTask task)
  have "futures (btm_insert task (slot\<lparr>ts_future := None\<rparr>) (in_tasks g)) \<subseteq> futures (in_tasks g)" for slot
    using futures_insert [of task "slot\<lparr>ts_future := None\<rparr>" "in_tasks g"] by simp
  then show ?thesis
    using PollTask
    by (auto simp: dispatch_event_def dispatch_poll_def count_dispatch_def same_world_def Let_def split: option.split)
qed (auto simp: dispatch_event_def dispatch_timer_def dispatch_deliver_def deliver_to_inbox_def count_dispatch_def
    draw_percent_def tape_draw_def Let_def split_beta split: option.split intro: same_world_frame)

lemma dispatch_poll_plain:
  assumes "plain_world g" and "dispatch_event e g = (Some (PopPoll task fut), g')"
  shows "plain_box fut \<and> ready g'"
proof -
  obtain slot where "btm_get (in_tasks g) task = Some slot" "ts_future slot = Some fut"
    and up: "in_current_task g' = Some task" "in_faults g' = in_faults g"
    using assms(2)
    by (auto simp: dispatch_event_def dispatch_nemesis_def dispatch_poll_def count_dispatch_def Let_def
        split: event_kind.splits nemesis_action.splits option.splits if_splits)
  then have "fut \<in> futures (in_tasks g)" using futures_get by blast
  then show ?thesis using assms(1) up by (simp add: plain_world_def ready_def)
qed

lemma spawn_plain:
  assumes "plain_world g" and "\<And>m. plain_fut (factory m)"
  shows "plain_world (spawn_registered_node n factory g)"
  using assms futures_insert [of "in_next_task_id g" "\<lparr>ts_node = n, ts_future = Some (NodeFut n (factory n))\<rparr>" "in_tasks g"]
  by (auto simp: spawn_registered_node_def add_task_def plain_world_def plain_box_def Let_def)

lemma restart_plain: "plain_world g \<Longrightarrow> plain_world (restart_node n g)"
proof -
  assume g: "plain_world g"
  then have "plain_world (g\<lparr>in_crashed := c\<rparr>)" for c by (rule same_world_plain [rotated]) (simp add: same_world_frame)
  then have "plain_world (spawn_registered_node n factory (g\<lparr>in_crashed := c\<rparr>))"
    if "btm_get (in_factories g) n = Some factory" for factory c
    using that g by (intro spawn_plain) (auto simp: plain_world_def)
  moreover have "plain_world (env_record s h)" if "plain_world h" for s and h :: "(('l, 'v) sut_future, 'v) inner"
    using that by (rule same_world_plain [rotated]) (simp add: env_record_def same_world_frame)
  ultimately show ?thesis using g by (auto simp: restart_node_def restart_node_outcome_def split: option.split)
qed

lemma finish_plain:
  assumes "plain_world g" and "\<And>fut. st = Some fut \<Longrightarrow> plain_box fut"
  shows "plain_world (finish_poll task st g)"
proof (cases st)
  case None
  then show ?thesis
    using assms(1) futures_fewer(1) [of task "in_tasks g"] by (auto simp: finish_poll_def plain_world_def Let_def)
next
  case (Some fut)
  have "futures (btm_insert task (slot\<lparr>ts_future := Some fut\<rparr>) (in_tasks g)) \<subseteq> insert fut (futures (in_tasks g))" for slot
    using futures_insert [of task "slot\<lparr>ts_future := Some fut\<rparr>" "in_tasks g"] by simp
  then show ?thesis
    using assms Some by (fastforce simp: finish_poll_def plain_world_def Let_def split: option.split)
qed

lemma box_returns:
  assumes "good_loops rank b body" and "plain_box fut" and "ready g" and "plain_world g"
  shows "\<exists>st g'. poll_box (sut_step body) fut g = Some (Inr (st, g')) \<and> plain_world (finish_poll task st g')"
proof -
  obtain n f where fut: "fut = NodeFut n f" "plain_fut f" using assms(2) by (auto simp: plain_box_def)
  obtain r g' where r: "poll_fut (sut_step body) n f g = Some (Inr (r, g'))" "keeps g g'"
    and f': "\<And>f'. r = PolledPending f' \<Longrightarrow> plain_fut f'"
    using future_returns [OF assms(1) fut(2) assms(3), of n] by (auto simp: poll_returns_def)
  have "plain_world g'"
    using assms(4) by (rule same_world_plain [rotated]) (use r(2) in \<open>simp add: keeps_def same_world_frame\<close>)
  then show ?thesis
    using f' by (cases r) (auto simp: poll_box_def fut r intro!: finish_plain simp: plain_box_def)
qed

lemma plain_step: "plain_world g \<Longrightarrow> plain_world (take_event e q g)"
  by (erule same_world_plain [rotated]) (simp add: take_event_def same_world_frame)

lemma pop_plain:
  assumes "plain_world g" and "pop_until_poll g = (r, g')"
  shows "plain_world g' \<and> (\<forall>task fut. r = PopPoll task fut \<longrightarrow> plain_box fut \<and> ready g')"
proof -
  have "plain_world g \<longrightarrow> plain_world (snd (pop_until_poll g))
      \<and> (\<forall>task fut. fst (pop_until_poll g) = PopPoll task fut \<longrightarrow> plain_box fut \<and> ready (snd (pop_until_poll g)))"
  proof (rule pop_until_poll_rule [where P = "\<lambda>g x. plain_world g \<longrightarrow> plain_world (snd x)
      \<and> (\<forall>task fut. fst x = PopPoll task fut \<longrightarrow> plain_box fut \<and> ready (snd x))"], goal_cases)
    case (3 g e q r)
    show ?case
      using plain_step [of g e q] same_world_plain [OF dispatch_same_world] dispatch_poll_plain
      by (metis "3"(3) fst_conv prod.collapse snd_conv)
  next
    case (4 g e q x)
    then show ?case using plain_step [of g e q] same_world_plain [OF dispatch_same_world] by blast
  qed (auto intro: plain_step)
  then show ?thesis using assms by simp
qed

lemma plain_run_returns:
  "good_loops rank b body \<Longrightarrow> plain_world g \<Longrightarrow> \<exists>g'. run_loop (sut_step body) g = Some (Inr g')"
proof (induction "sut_step body" g rule: run_loop.induct)
  case (1 g)
  obtain r g1 where p: "pop_until_poll g = (r, g1)" by (cases "pop_until_poll g")
  note plain = pop_plain [OF "1.prems"(2) p]
  show ?case
  proof (cases r)
    case (PopRestart n)
    then show ?thesis using "1.hyps"(1) [OF p [symmetric] PopRestart "1.prems"(1)] plain restart_plain p
      by (subst run_loop.simps) auto
  next
    case (PopPoll task fut)
    then obtain st g2 where b: "poll_box (sut_step body) fut g1 = Some (Inr (st, g2))" "plain_world (finish_poll task st g2)"
      using box_returns [OF "1.prems"(1)] plain by blast
    then show ?thesis using "1.hyps"(2) [OF p [symmetric] PopPoll b(1) refl refl "1.prems"(1)] p PopPoll
      by (subst run_loop.simps) simp
  qed (use p in \<open>subst run_loop.simps; auto\<close>)+
qed

subsection \<open>Scripts\<close>

definition plain_factory :: "(('l, 'v) sut_future) node_factory \<Rightarrow> bool" where
  "plain_factory factory \<longleftrightarrow> (\<forall>n. plain_fut (factory n))"

text \<open>The nodes a script registers have to be new; the run comes last.\<close>

primrec op_nodes :: "'f world_op \<Rightarrow> node_id set" where
  "op_nodes (OpAddNode n factory) = {n}"
| "op_nodes (OpAddNodes cnt factory) = {..<cnt}"
| "op_nodes (OpScheduleNemesis at_time action) = {}"
| "op_nodes (OpSchedulePlan p n) = {}"
| "op_nodes (OpPartition groups) = {}"
| "op_nodes OpHealAll = {}"
| "op_nodes (OpSetDropPercent percent) = {}"
| "op_nodes (OpSetDuplicatePercent percent) = {}"
| "op_nodes (OpSetExtraDelayMs ms) = {}"
| "op_nodes (OpSetClockSkew n offset_ns) = {}"
| "op_nodes (OpCrashNode n) = {}"
| "op_nodes (OpRestartNode n) = {}"
| "op_nodes OpRun = {}"

primrec plain_op :: "(('l, 'v) sut_future) world_op \<Rightarrow> bool" where
  "plain_op (OpAddNode n factory) = plain_factory factory"
| "plain_op (OpAddNodes cnt factory) = plain_factory factory"
| "plain_op (OpScheduleNemesis at_time action) = True"
| "plain_op (OpSchedulePlan p n) = True"
| "plain_op (OpPartition groups) = True"
| "plain_op OpHealAll = True"
| "plain_op (OpSetDropPercent percent) = True"
| "plain_op (OpSetDuplicatePercent percent) = True"
| "plain_op (OpSetExtraDelayMs ms) = (unat ms + 100 \<le> u64_max)"
| "plain_op (OpSetClockSkew n offset_ns) = True"
| "plain_op (OpCrashNode n) = True"
| "plain_op (OpRestartNode n) = True"
| "plain_op OpRun = False"

fun fresh_ops :: "node_id set \<Rightarrow> (('l, 'v) sut_future) world_op list \<Rightarrow> bool" where
  "fresh_ops nodes [] = True"
| "fresh_ops nodes (op # ops) = (nodes \<inter> op_nodes op = {} \<and> plain_op op \<and> fresh_ops (nodes \<union> op_nodes op) ops)"

lemma add_node_plain:
  assumes "n \<notin> in_nodes g" and "plain_factory factory" and "plain_world g"
  shows "\<exists>g'. add_node_factory n factory g = Inr g' \<and> plain_world g' \<and> in_nodes g' = insert n (in_nodes g)"
proof -
  have "plain_world (register_node n factory g)"
    using assms(2,3) by (auto simp: register_node_def with_connectivity_def with_faults_def plain_world_def plain_factory_def Let_def)
  then have "plain_world (spawn_registered_node n factory (register_node n factory g))"
    using assms(2) by (intro spawn_plain) (simp_all add: plain_factory_def)
  then show ?thesis
    using assms(1) by (simp add: add_node_factory_def spawn_registered_node_def register_node_def with_connectivity_def
        with_faults_def add_task_def enqueue_poll_now_def push_event_def Let_def)
qed

lemma add_node_list_plain:
  "distinct ns \<Longrightarrow> set ns \<inter> in_nodes g = {} \<Longrightarrow> plain_factory factory \<Longrightarrow> plain_world g \<Longrightarrow>
     \<exists>g'. add_node_list ns factory g = Inr g' \<and> plain_world g' \<and> in_nodes g' = in_nodes g \<union> set ns"
proof (induction ns arbitrary: g)
  case (Cons n ns)
  then obtain g1 where g1: "add_node_factory n factory g = Inr g1" "plain_world g1" "in_nodes g1 = insert n (in_nodes g)"
    using add_node_plain [of n g factory] by auto
  have "set ns \<inter> in_nodes g1 = {}" using Cons.prems(1,2) g1(3) by auto
  then obtain g' where "add_node_list ns factory g1 = Inr g'" "plain_world g'" "in_nodes g' = in_nodes g1 \<union> set ns"
    using Cons.IH [of g1] Cons.prems(1,3) g1(2) by auto
  then show ?case using g1 by auto
qed simp

lemma below_words: "distinct (map of_nat [0..<unat cnt] :: node_id list)" "set (map of_nat [0..<unat cnt]) = {..<cnt :: node_id}"
proof -
  have small: "unat (of_nat i :: node_id) = i" if "i < unat cnt" for i
    using that order_less_trans [OF that unsigned_less] by (simp add: unsigned_of_nat take_bit_nat_eq_self)
  show "distinct (map of_nat [0..<unat cnt] :: node_id list)"
    using small by (auto simp: distinct_map inj_on_def dest!: arg_cong [where f = unat])
  show "set (map of_nat [0..<unat cnt]) = {..<cnt}"
  proof (intro equalityI subsetI)
    fix n assume "n \<in> set (map of_nat [0..<unat cnt] :: node_id list)"
    then show "n \<in> {..<cnt}" using small by (auto simp: word_less_nat_alt)
  next
    fix n assume "n \<in> {..<cnt}"
    then have "unat n \<in> set [0..<unat cnt]" by (simp add: word_less_nat_alt)
    then have "of_nat (unat n) \<in> set (map of_nat [0..<unat cnt] :: node_id list)" by (metis image_eqI image_set)
    then show "n \<in> set (map of_nat [0..<unat cnt])" by simp
  qed
qed

lemma add_nodes_plain:
  assumes "in_nodes g \<inter> {..<cnt} = {}" and "plain_factory factory" and "plain_world g"
  shows "\<exists>g'. add_nodes cnt factory g = Inr g' \<and> plain_world g' \<and> in_nodes g' = in_nodes g \<union> {..<cnt}"
  using add_node_list_plain [OF below_words(1) _ assms(2,3), of cnt] assms(1) below_words(2) [of cnt]
  by (simp add: add_nodes_def Int_commute)

lemma nemesis_nodes: "in_nodes (snd (apply_nemesis a g)) = in_nodes g"
  by (cases a) (simp_all add: apply_nemesis_def with_connectivity_def with_faults_def bit_rot_storage_def log_nemesis_def
      crash_node_def crash_storage_def Let_def split: option.split)

lemma restart_nodes: "in_nodes (restart_node n g) = in_nodes g"
  by (auto simp: restart_node_def restart_node_outcome_def spawn_registered_node_def add_task_def enqueue_poll_now_def
      push_event_def env_record_def Let_def split: option.split)

lemma plan_same: "same_world g (snd (snd (schedule_nemesis_plan p n g))) \<and> in_nodes (snd (snd (schedule_nemesis_plan p n g))) = in_nodes g"
proof (induction p n g rule: schedule_nemesis_plan.induct)
  case (2 p n g)
  show ?case
  proof (cases "next_action nemesis_tape_draw (world_view_of g) p (in_tape g)")
    case (fields act p' tape)
    show ?thesis
    proof (cases act)
      case None
      then show ?thesis using fields by (simp add: same_world_frame)
    next
      case (Some ta)
      obtain t a where ta: "ta = (t, a)" by (cases ta)
      let ?g1 = "push_event t (NemesisEvent a) (g\<lparr>in_tape := tape\<rparr>)"
      have first: "same_world g ?g1" "in_nodes ?g1 = in_nodes g" by (simp_all add: push_event_def same_world_frame)
      have plan: "snd (snd (schedule_nemesis_plan p (Suc n) g)) = snd (snd (schedule_nemesis_plan p' n ?g1))"
        using fields Some ta by (simp add: Let_def split_beta)
      have rest: "same_world ?g1 (snd (snd (schedule_nemesis_plan p' n ?g1)))"
        "in_nodes (snd (snd (schedule_nemesis_plan p' n ?g1))) = in_nodes ?g1"
        using "2.IH" [OF fields [symmetric, unfolded Some ta] refl refl refl refl] fields Some ta by simp_all
      show ?thesis unfolding plan using same_world_trans [OF first(1) rest(1)] rest(2) first(2) by simp
    qed
  qed
qed (simp add: same_world_frame)

lemma op_returns:
  assumes "in_nodes g \<inter> op_nodes op = {}" and "plain_op op" and "plain_world g"
  shows "\<exists>g'. world_exec nx op g = Some (Inr g') \<and> plain_world g' \<and> in_nodes g' = in_nodes g \<union> op_nodes op"
proof -
  have nemesis: "plain_world (snd (apply_nemesis a g))" for a using same_world_plain [OF nemesis_same_world assms(3)] .
  have frame: "plain_world h" if "in_tasks h = in_tasks g" "in_factories h = in_factories g"
    "fc_extra_delay_ms (in_faults h) = fc_extra_delay_ms (in_faults g)" for h
    using same_world_plain [OF same_world_frame [OF that] assms(3)] .
  show ?thesis
  proof (cases op)
    case (OpAddNode n factory)
    then show ?thesis using add_node_plain [of n g factory] assms by auto
  next
    case (OpAddNodes cnt factory)
    then show ?thesis using add_nodes_plain [of g cnt factory] assms by auto
  next
    case (OpSchedulePlan p n)
    then show ?thesis using plan_same [of g p n] same_world_plain [OF _ assms(3)] by simp
  next
    case (OpSetExtraDelayMs ms)
    then show ?thesis using assms by (simp add: with_faults_def plain_world_def)
  next
    case (OpRestartNode n)
    then show ?thesis using restart_plain [OF assms(3), of n] by (simp add: restart_nodes)
  qed (use assms(2) nemesis in \<open>simp_all add: frame nemesis_nodes with_faults_def push_event_def\<close>)
qed

lemma script_returns:
  assumes "good_loops rank b body"
  shows "fresh_ops (in_nodes g) ops \<Longrightarrow> plain_world g \<Longrightarrow>
    \<exists>g'. world_script (sut_step body) (ops @ [OpRun]) g = Some (Inr g')"
proof (induction ops arbitrary: g)
  case Nil
  then obtain g' where "run_loop (sut_step body) g = Some (Inr g')" using plain_run_returns [OF assms] by blast
  then show ?case by simp
next
  case (Cons op ops)
  then obtain g1 where "world_exec (sut_step body) op g = Some (Inr g1)" "plain_world g1"
    "in_nodes g1 = in_nodes g \<union> op_nodes op"
    using op_returns [of g op "sut_step body"] by auto
  then show ?case using Cons.IH [of g1] Cons.prems(1) by simp
qed

lemma start_plain: "plain_world (world_from_tape seed config tape)" "in_nodes (world_from_tape seed config tape) = {}"
  by (simp_all add: plain_world_def world_from_tape_def futures_def fault_config_default_def u64_max_def)

lemma fresh_script_returns:
  assumes "good_loops rank b body" and "fresh_ops {} ops"
  shows "\<exists>g. world_script (sut_step body) (ops @ [OpRun]) (world_from_tape seed config tape) = Some (Inr g)"
  by (rule script_returns [OF assms(1)]) (simp_all only: start_plain assms(2))

text \<open>C13. A run returns: a script that registers new nodes, sets a clock, network or crash fault or a schedule of
  faults (with an extra delay that does not overflow), and runs, neither panics nor diverges, for every seed and every tape,
  if its nodes use clock, network and history and every loop receives before it goes round again. The hypothesis
  about the loops ranks them: a loop goes on without receiving only to loops of smaller rank.\<close>

theorem plain_script_returns:
  assumes "good_loops rank b body" and "fresh_ops {} ops"
  shows "\<exists>g. world_script (sut_step body) (ops @ [OpRun]) (world_from_tape seed config tape) = Some (Inr g)"
  using assms by (rule fresh_script_returns)

lemma plain_script_returns_witness:
  "\<exists>g. world_script (sut_step no_labels) ([OpSetDropPercent 50, OpAddNodes 3 (\<lambda>_. Running timeout_node)] @ [OpRun])
     (world_from_tape 7 world_config_default (tape_generate 7)) = Some (Inr g)"
  by (rule plain_script_returns [where rank = "\<lambda>_. 0" and b = 1])
    (simp_all add: good_loops_def no_labels_def plain_factory_def timeout_node_def split: option.split)

end
