(* ===== verification/Kv_Safety.thy ===== *)
theory Kv_Safety
  imports Network_Run Cli_Worlds
begin

section \<open>The correct replicated key-value store is never flagged\<close>

text \<open>
  The inductive invariant of the primary-backup store on the network of \<open>Async_Network\<close>: the phases
  the primary, the followers and the client go through together, and the messages that may be under way in each.
  It is kept by every step (\<open>kv_inv_step\<close>), and a history recorded under it holds a write, and a read
  of that write that began after the write ended.
\<close>

subsection \<open>Messages on their way\<close>

text \<open>How often a message is in flight or in its inbox, and that nothing on its way could arrive at \<open>i\<close>.\<close>

definition pending :: "('l, 'v) network \<Rightarrow> node_id \<Rightarrow> node_id \<Rightarrow> message \<Rightarrow> nat" where
  "pending N src dst m =
     count (image_mset snd (nt_flight N)) (src, dst, m) + count (mset (nt_inbox N dst)) (src, m)"

definition late :: "('l, 'v) network \<Rightarrow> sim_time \<Rightarrow> bool" where
  "late N i \<longleftrightarrow>
     i \<le> nt_clock N \<and> (\<forall>x \<in># nt_flight N. i < fst x) \<and> (nt_clock N = i \<longrightarrow> (\<forall>n. nt_inbox N n = []))"

lemma pending_frame [simp]:
  "pending (N\<lparr>nt_nodes := h\<rparr>) = pending N" "pending (N\<lparr>nt_clock := t\<rparr>) = pending N"
  "pending (N\<lparr>nt_history := hs\<rparr>) = pending N"
  by (simp_all add: pending_def fun_eq_iff)

lemma pending_send:
  "pending (N\<lparr>nt_flight := add_mset (t, src, dst, m) (nt_flight N)\<rparr>) src' dst' m'
     = (if src' = src \<and> dst' = dst \<and> m' = m then Suc (pending N src' dst' m') else pending N src' dst' m')"
  by (simp add: pending_def)

lemma pending_recv:
  "nt_inbox N n = (src, m) # rest \<Longrightarrow>
     0 < pending N src n m
     \<and> pending (N\<lparr>nt_inbox := (nt_inbox N)(n := rest)\<rparr>) src' dst' m'
       = (if src' = src \<and> dst' = n \<and> m' = m then pending N src' dst' m' - 1 else pending N src' dst' m')"
  by (auto simp: pending_def)

text \<open>The steps of the network itself: messages are delivered or lost, time passes.\<close>

definition weather :: "('l, 'v) network \<Rightarrow> ('l, 'v) network \<Rightarrow> bool" where
  "weather N N' \<longleftrightarrow>
     nt_nodes N' = nt_nodes N \<and> nt_history N' = nt_history N \<and> nt_clock N \<le> nt_clock N'
     \<and> (\<forall>src dst m. pending N' src dst m \<le> pending N src dst m) \<and> (\<forall>i. late N i \<longrightarrow> late N' i)"

lemma weather_tick: "nt_clock N \<le> t \<Longrightarrow> weather N (N\<lparr>nt_clock := t\<rparr>)"
  by (auto simp: weather_def late_def)

lemma weather_deliver:
  assumes "nt_flight N = add_mset (t, src, dst, m) F" and "t \<le> nt_clock N"
  shows "weather N (N\<lparr>nt_flight := F, nt_inbox := (nt_inbox N)(dst := nt_inbox N dst @ [(src, m)])\<rparr>)"
  using assms by (auto simp: weather_def late_def pending_def)

lemma weather_lose: "F \<subseteq># nt_flight N \<Longrightarrow> weather N (N\<lparr>nt_flight := F\<rparr>)"
  by (auto simp: weather_def late_def pending_def mset_subset_eqD intro!: mset_subset_eq_count image_mset_subseteq_mono)

lemma weather_forget: "weather N (N\<lparr>nt_inbox := (nt_inbox N)(n := [])\<rparr>)"
  by (auto simp: weather_def late_def pending_def)

lemma late_send: "late N i \<Longrightarrow> nt_clock N < t \<Longrightarrow> late ((at_node N n p)\<lparr>nt_flight := add_mset (t, x) (nt_flight N)\<rparr>) i"
  by (auto simp: late_def)

lemma late_frame [simp]: "late (N\<lparr>nt_nodes := h\<rparr>) i = late N i" "late (N\<lparr>nt_history := hs\<rparr>) i = late N i"
  by (simp_all add: late_def)

lemma late_recv:
  "late N i \<Longrightarrow> nt_inbox N n = x # rest \<Longrightarrow> i < nt_clock N \<and> late (N\<lparr>nt_inbox := (nt_inbox N)(n := rest)\<rparr>) i"
  by (auto simp: late_def le_less)

lemma nothing_pending:
  assumes "\<And>src dst m. pending N src dst m = 0"
  shows "nt_flight N = {#}" "nt_inbox N n = []" "late N (nt_clock N)"
proof -
  have "snd x \<notin># image_mset snd (nt_flight N)" for x
    using assms by (simp add: pending_def count_eq_zero_iff split: prod.split) (metis prod.collapse)
  then show flight: "nt_flight N = {#}" by (metis image_mset_is_empty_iff multiset_nonemptyE snd_conv)
  show inbox: "nt_inbox N n = []" for n
    using assms [of "fst (hd (nt_inbox N n))" n "snd (hd (nt_inbox N n))"]
    by (cases "nt_inbox N n") (auto simp: pending_def)
  show "late N (nt_clock N)" by (simp add: late_def flight inbox)
qed

text \<open>At most the messages of \<open>T\<close> are on their way, each at most once.\<close>

definition at_most :: "(node_id \<times> node_id \<times> message) set \<Rightarrow> ('l, 'v) network \<Rightarrow> bool" where
  "at_most T N \<longleftrightarrow> (\<forall>src dst m. pending N src dst m \<le> (if (src, dst, m) \<in> T then 1 else 0))"

lemma at_most_frame [simp]:
  "at_most T (N\<lparr>nt_nodes := h\<rparr>) = at_most T N" "at_most T (N\<lparr>nt_history := hs\<rparr>) = at_most T N"
  by (simp_all add: at_most_def)

lemma at_most_mono:
  assumes "at_most T N" and "T \<subseteq> T'"
  shows "at_most T' N"
proof -
  have "pending N src dst m \<le> (if (src, dst, m) \<in> T' then 1 else 0)" for src dst m
    using assms(1) [unfolded at_most_def, rule_format, of src dst m] assms(2) by (auto split: if_splits)
  then show ?thesis by (simp add: at_most_def)
qed

lemma at_most_weather: "at_most T N \<Longrightarrow> weather N N' \<Longrightarrow> at_most T N'"
  unfolding at_most_def weather_def by (meson le_trans)

lemma at_most_send:
  assumes "at_most T N" and "(src, dst, m) \<notin> T"
  shows "at_most (insert (src, dst, m) T) (N\<lparr>nt_flight := add_mset (t, src, dst, m) (nt_flight N)\<rparr>)"
  using assms by (auto simp: at_most_def pending_send split: if_splits)

lemma at_most_recv:
  assumes "at_most T N" and "nt_inbox N n = (src, m) # rest"
  shows "(src, n, m) \<in> T" and "at_most (T - {(src, n, m)}) (N\<lparr>nt_inbox := (nt_inbox N)(n := rest)\<rparr>)"
proof -
  have "0 < pending N src n m" using pending_recv [OF assms(2)] by blast
  then show "(src, n, m) \<in> T" using assms(1) [unfolded at_most_def, rule_format, of src n m] by (simp split: if_splits)
  have "pending (N\<lparr>nt_inbox := (nt_inbox N)(n := rest)\<rparr>) src' dst' m'
      \<le> (if (src', dst', m') \<in> T - {(src, n, m)} then 1 else 0)" for src' dst' m'
    using pending_recv [OF assms(2), of src' dst' m'] assms(1) [unfolded at_most_def, rule_format, of src' dst' m']
    by (auto split: if_splits)
  then show "at_most (T - {(src, n, m)}) (N\<lparr>nt_inbox := (nt_inbox N)(n := rest)\<rparr>)"
    by (simp add: at_most_def)
qed

subsection \<open>Steps of a node\<close>

text \<open>What node \<open>n\<close> can do, as a function of its program, when it uses neither storage nor timers.\<close>

definition node_step ::
  "('l \<Rightarrow> ('l, 'v) prog) \<Rightarrow> (node_id \<Rightarrow> ('l, 'v) prog option) \<Rightarrow> node_id \<Rightarrow> ('l, 'v) network \<Rightarrow> ('l, 'v) network \<Rightarrow> bool" where
  "node_step body progs n N N' \<longleftrightarrow>
     (case nt_nodes N n of
        None \<Rightarrow> \<exists>p. progs n = Some p \<and> N' = at_node N n p
      | Some p \<Rightarrow>
          (case p of
             Return v \<Rightarrow> False
           | Goto l \<Rightarrow> N' = at_node N n (body l)
           | Now k \<Rightarrow> N' = at_node N n (k (nt_clock N))
           | Send dst m q \<Rightarrow> \<exists>t > nt_clock N.
               N' = (at_node N n q)\<lparr>nt_flight := add_mset (t, n, dst, m) (nt_flight N)\<rparr>
           | Recv k \<Rightarrow> \<exists>src m rest. nt_inbox N n = (src, m) # rest
               \<and> N' = (at_node N n (k src m))\<lparr>nt_inbox := (nt_inbox N)(n := rest)\<rparr>
           | Record event q \<Rightarrow> N' = (at_node N n q)\<lparr>nt_history := nt_history N @ [event]\<rparr>
           | _ \<Rightarrow> \<forall>m. m \<noteq> n \<longrightarrow> nt_nodes N' m = nt_nodes N m))"

lemma node_step_others:
  assumes "node_step body progs n N N'" and "m \<noteq> n"
  shows "nt_nodes N' m = nt_nodes N m"
  using assms by (auto simp: node_step_def split: option.splits prog.splits)

lemma net_step_view:
  assumes "net_step body progs N N'"
  shows "weather N N' \<or> (\<exists>n. node_step body progs n N N')"
  using assms
proof (cases rule: net_step.cases)
  case (net_tick t)
  then show ?thesis using weather_tick by blast
next
  case (net_deliver t src dst m F)
  then show ?thesis using weather_deliver by blast
next
  case (net_lose F)
  then show ?thesis using weather_lose by blast
next
  case (net_forget n)
  then show ?thesis using weather_forget by blast
next
  case (net_begin n p)
  then show ?thesis by (intro disjI2 exI [of _ n]) (auto simp: node_step_def)
next
  case (net_goto n l)
  then show ?thesis by (intro disjI2 exI [of _ n]) (auto simp: node_step_def)
next
  case (net_now n k)
  then show ?thesis by (intro disjI2 exI [of _ n]) (auto simp: node_step_def)
next
  case (net_send n dst m q t)
  then show ?thesis by (intro disjI2 exI [of _ n]) (auto simp: node_step_def)
next
  case (net_recv n k src m rest)
  then show ?thesis by (intro disjI2 exI [of _ n]) (auto simp: node_step_def)
next
  case (net_timed_recv n d k src m rest)
  then show ?thesis by (intro disjI2 exI [of _ n]) (auto simp: node_step_def)
next
  case (net_timeout n d k)
  then show ?thesis by (intro disjI2 exI [of _ n]) (auto simp: node_step_def)
next
  case (net_sleep n d q)
  then show ?thesis by (intro disjI2 exI [of _ n]) (auto simp: node_step_def)
next
  case (net_write n off data q)
  then show ?thesis by (intro disjI2 exI [of _ n]) (auto simp: node_step_def)
next
  case (net_read n off buf k cnt out)
  then show ?thesis by (intro disjI2 exI [of _ n]) (auto simp: node_step_def)
next
  case (net_flush n q)
  then show ?thesis by (intro disjI2 exI [of _ n]) (auto simp: node_step_def)
next
  case (net_len n k cnt)
  then show ?thesis by (intro disjI2 exI [of _ n]) (auto simp: node_step_def)
next
  case (net_record n event q)
  then show ?thesis by (intro disjI2 exI [of _ n]) (auto simp: node_step_def)
qed

subsection \<open>Control states of the correct variant\<close>

definition kv_progs :: "node_id \<Rightarrow> kv_prog option" where
  "kv_progs me =
     (let config = kv_config_with_bug KvCorrect
      in if me < 3 then Some (run_primary_backup_kv config me)
         else if me = 4 then Some (kv_client_node config me) else None)"

abbreviation "msg_put \<equiv> bytes_of ''put:7''"
abbreviation "msg_rep \<equiv> bytes_of ''replicate:7''"
abbreviation "msg_ack \<equiv> bytes_of ''ack''"
abbreviation "msg_ok \<equiv> bytes_of ''ok''"
abbreviation "msg_get \<equiv> bytes_of ''get''"
abbreviation "msg_val \<equiv> bytes_of ''7''"

text \<open>The client, await by await.\<close>

definition cl_stop :: "recorded_op list \<Rightarrow> kv_prog" where
  "cl_stop ops = Send 1 (bytes_of ''stop'') (Send 2 (bytes_of ''stop'') (record_ops ops))"

definition cl_got :: "recorded_op list \<Rightarrow> sim_time \<Rightarrow> message \<Rightarrow> kv_prog" where
  "cl_got ops i msg = Now (\<lambda>c. cl_stop (ops @ [RecKvGet 2 4 (parse_optional_i32 (utf8_lossy msg)) i c]))"

definition cl_await :: "recorded_op list \<Rightarrow> sim_time \<Rightarrow> kv_prog" where
  "cl_await ops i = Recv (\<lambda>_ msg. cl_got ops i msg)"

definition cl_get :: "recorded_op list \<Rightarrow> sim_time \<Rightarrow> kv_prog" where
  "cl_get ops i = Send 1 msg_get (cl_await ops i)"

definition cl_read :: "recorded_op list \<Rightarrow> kv_prog" where
  "cl_read ops = Now (cl_get ops)"

definition cl_acked :: "sim_time \<Rightarrow> kv_prog" where
  "cl_acked i = Now (\<lambda>c. cl_read [RecKvPut 1 4 7 i c])"

definition cl_wait :: "sim_time \<Rightarrow> kv_prog" where
  "cl_wait i = Recv (\<lambda>_ ack. put_if_ok 1 4 7 i [] ack cl_read)"

definition cl_put :: "sim_time \<Rightarrow> kv_prog" where
  "cl_put i = Send 0 msg_put (cl_wait i)"

lemma client_start: "kv_progs 4 = Some (Now cl_put)"
  by (simp add: kv_progs_def kv_config_with_bug_def kv_client_node_def run_primary_backup_kv_client_def
      single_key_client_def single_key_read_def cl_put_def [abs_def] cl_wait_def cl_read_def [abs_def] cl_get_def [abs_def]
      cl_await_def cl_got_def cl_stop_def Let_def)

lemma server_start:
  "kv_progs 0 = Some (Goto ServePrimary)" "kv_progs 1 = Some (Goto (ServeFollower None))"
  "kv_progs 2 = Some (Goto (ServeFollower None))"
  by (simp_all add: kv_progs_def kv_config_with_bug_def run_primary_backup_kv_def run_primary_def)

text \<open>The servers: the primary's stages, and a follower's by how far the replication to it has come
  (0 not sent, 1 sent, 2 applied, 3 acknowledged, 4 counted).\<close>

datatype primary_stage = PrimaryFresh | SendingFirst | SendingSecond | Counting | Answering | Finished

abbreviation "after_put \<equiv> AckThenStop 4"

definition counted :: "(node_id \<Rightarrow> nat) \<Rightarrow> nat" where
  "counted k = (if k 1 = 4 then 1 else 0) + (if k 2 = 4 then 1 else 0)"

fun primary_at :: "primary_stage \<Rightarrow> (node_id \<Rightarrow> nat) \<Rightarrow> kv_prog option \<Rightarrow> bool" where
  "primary_at PrimaryFresh k P \<longleftrightarrow>
     (P = None \<or> P = Some (Goto ServePrimary) \<or> P = Some (Recv (primary_handle KvCorrect))) \<and> k 1 = 0 \<and> k 2 = 0"
| "primary_at SendingFirst k P \<longleftrightarrow>
     P = Some (Send 1 msg_rep (Send 2 msg_rep (Goto (WaitAcks 0 2 after_put)))) \<and> k 1 = 0 \<and> k 2 = 0"
| "primary_at SendingSecond k P \<longleftrightarrow>
     P = Some (Send 2 msg_rep (Goto (WaitAcks 0 2 after_put))) \<and> k 1 \<in> {1, 2, 3} \<and> k 2 = 0"
| "primary_at Counting k P \<longleftrightarrow>
     (P = Some (Goto (WaitAcks (counted k) 2 after_put))
      \<or> P = Some (kv_body KvCorrect (WaitAcks (counted k) 2 after_put)) \<and> counted k < 2)
     \<and> k 1 \<in> {1, 2, 3, 4} \<and> k 2 \<in> {1, 2, 3, 4}"
| "primary_at Answering k P \<longleftrightarrow> P = Some (Send 4 msg_ok (Return ())) \<and> k 1 = 4 \<and> k 2 = 4"
| "primary_at Finished k P \<longleftrightarrow> P = Some (Return ()) \<and> k 1 = 4 \<and> k 2 = 4"

definition fresh_follower :: "kv_prog option \<Rightarrow> bool" where
  "fresh_follower F \<longleftrightarrow> F = None \<or> F = Some (Goto (ServeFollower None)) \<or> F = Some (Recv (follower_handle None))"

definition loaded :: "kv_prog option \<Rightarrow> bool" where
  "loaded F \<longleftrightarrow> F = Some (Goto (ServeFollower (Some 7))) \<or> F = Some (Recv (follower_handle (Some 7)))"

definition follower_at :: "nat \<Rightarrow> kv_prog option \<Rightarrow> bool" where
  "follower_at k F \<longleftrightarrow>
     (if k < 2 then fresh_follower F
      else if k = 2 then F = Some (Send 0 msg_ack (Goto (ServeFollower (Some 7)))) else loaded F)"

definition primary_msgs :: "primary_stage \<Rightarrow> (node_id \<times> node_id \<times> message) set" where
  "primary_msgs s = (case s of PrimaryFresh \<Rightarrow> {(4, 0, msg_put)} | Finished \<Rightarrow> {(0, 4, msg_ok)} | _ \<Rightarrow> {})"

definition follower_msgs :: "nat \<Rightarrow> node_id \<Rightarrow> (node_id \<times> node_id \<times> message) set" where
  "follower_msgs k f = (if k = 1 then {(0, f, msg_rep)} else if k = 3 then {(f, 0, msg_ack)} else {})"

text \<open>The phases of a run, by what the client has done.\<close>

definition phase_idle :: "(kv_label, unit) network \<Rightarrow> bool" where
  "phase_idle N \<longleftrightarrow>
     (nt_nodes N 4 = None \<or> nt_nodes N 4 = Some (Now cl_put) \<or> (\<exists>i \<le> nt_clock N. nt_nodes N 4 = Some (cl_put i)))
     \<and> primary_at PrimaryFresh (\<lambda>_. 0) (nt_nodes N 0) \<and> fresh_follower (nt_nodes N 1) \<and> fresh_follower (nt_nodes N 2)
     \<and> at_most {} N \<and> nt_history N = []"

definition write_msgs :: "primary_stage \<Rightarrow> (node_id \<Rightarrow> nat) \<Rightarrow> (node_id \<times> node_id \<times> message) set" where
  "write_msgs s k = primary_msgs s \<union> follower_msgs (k 1) 1 \<union> follower_msgs (k 2) 2"

definition phase_writing :: "sim_time \<Rightarrow> primary_stage \<Rightarrow> (node_id \<Rightarrow> nat) \<Rightarrow> (kv_label, unit) network \<Rightarrow> bool" where
  "phase_writing i s k N \<longleftrightarrow>
     nt_nodes N 4 = Some (cl_wait i) \<and> late N i
     \<and> primary_at s k (nt_nodes N 0) \<and> follower_at (k 1) (nt_nodes N 1) \<and> follower_at (k 2) (nt_nodes N 2)
     \<and> at_most (write_msgs s k) N \<and> nt_history N = []"

definition phase_written :: "(kv_label, unit) network \<Rightarrow> bool" where
  "phase_written N \<longleftrightarrow>
     (\<exists>i. (i < nt_clock N \<and> nt_nodes N 4 = Some (cl_acked i))
        \<or> (\<exists>c. i < c \<and> c \<le> nt_clock N \<and> (nt_nodes N 4 = Some (cl_read [RecKvPut 1 4 7 i c])
             \<or> (\<exists>i' \<ge> c. i' \<le> nt_clock N \<and> nt_nodes N 4 = Some (cl_get [RecKvPut 1 4 7 i c] i')))))
     \<and> nt_nodes N 0 = Some (Return ()) \<and> loaded (nt_nodes N 1) \<and> loaded (nt_nodes N 2)
     \<and> at_most {} N \<and> nt_history N = []"

definition phase_reading :: "(kv_label, unit) network \<Rightarrow> bool" where
  "phase_reading N \<longleftrightarrow>
     (\<exists>i c i'. i < c \<and> c \<le> i' \<and> i' \<le> nt_clock N \<and> nt_nodes N 4 = Some (cl_await [RecKvPut 1 4 7 i c] i'))
     \<and> nt_nodes N 0 = Some (Return ()) \<and> loaded (nt_nodes N 2)
     \<and> (loaded (nt_nodes N 1) \<and> at_most {(4, 1, msg_get)} N
        \<or> nt_nodes N 1 = Some (Send 4 msg_val (Return ())) \<and> at_most {} N
        \<or> nt_nodes N 1 = Some (Return ()) \<and> at_most {(1, 4, msg_val)} N)
     \<and> nt_history N = []"

definition kv_ops :: "sim_time \<Rightarrow> sim_time \<Rightarrow> sim_time \<Rightarrow> sim_time \<Rightarrow> recorded_op list" where
  "kv_ops i c i' c' = [RecKvPut 1 4 7 i c, RecKvGet 2 4 (Some 7) i' c']"

definition client_ending :: "recorded_op list \<Rightarrow> kv_prog \<Rightarrow> string list \<Rightarrow> bool" where
  "client_ending ops P history \<longleftrightarrow>
     P = cl_stop ops \<and> history = []
     \<or> P = Send 2 (bytes_of ''stop'') (record_ops ops) \<and> history = []
     \<or> (\<exists>k. P = record_ops (drop k ops) \<and> history = map to_history_line (take k ops))"

text \<open>A server that has answered no longer matters: it records nothing.\<close>

definition retired :: "kv_prog option \<Rightarrow> bool" where
  "retired F \<longleftrightarrow> (\<exists>v dst m. F \<in> Some ` {Return (), Goto (ServeFollower v), Recv (follower_handle v),
     Send dst m (Goto (ServeFollower v)), Send dst m (Return ())})"

definition phase_done :: "(kv_label, unit) network \<Rightarrow> bool" where
  "phase_done N \<longleftrightarrow> retired (nt_nodes N 0) \<and> retired (nt_nodes N 1) \<and> retired (nt_nodes N 2) \<and>
     (\<exists>i c i'. i < c \<and> c \<le> i' \<and> i' \<le> nt_clock N \<and>
        (nt_nodes N 4 = Some (cl_got [RecKvPut 1 4 7 i c] i' msg_val) \<and> nt_history N = []
         \<or> (\<exists>c'. i' \<le> c' \<and> (\<exists>P. nt_nodes N 4 = Some P \<and>
              client_ending (kv_ops i c i' c') P (nt_history N)))))"

definition kv_inv :: "(kv_label, unit) network \<Rightarrow> bool" where
  "kv_inv N \<longleftrightarrow>
     (\<forall>n. n \<noteq> 0 \<longrightarrow> n \<noteq> 1 \<longrightarrow> n \<noteq> 2 \<longrightarrow> n \<noteq> 4 \<longrightarrow> nt_nodes N n = None)
     \<and> (phase_idle N \<or> (\<exists>i s k. phase_writing i s k N) \<or> phase_written N \<or> phase_reading N \<or> phase_done N)"

subsection \<open>The phases follow each other\<close>

lemma weather_phases:
  assumes "weather N N'"
  shows "phase_idle N \<Longrightarrow> phase_idle N'" "phase_writing i s k N \<Longrightarrow> phase_writing i s k N'"
    "phase_written N \<Longrightarrow> phase_written N'" "phase_reading N \<Longrightarrow> phase_reading N'" "phase_done N \<Longrightarrow> phase_done N'"
proof -
  have same: "nt_nodes N' = nt_nodes N" "nt_history N' = nt_history N" and clock: "nt_clock N \<le> nt_clock N'"
    and late: "\<And>i. late N i \<Longrightarrow> late N' i" and most: "\<And>T. at_most T N \<Longrightarrow> at_most T N'"
    using assms at_most_weather by (auto simp: weather_def)
  note le = order_trans [OF _ clock] and less = less_le_trans [OF _ clock]
  show "phase_idle N \<Longrightarrow> phase_idle N'"
    unfolding phase_idle_def same using most le by blast
  show "phase_writing i s k N \<Longrightarrow> phase_writing i s k N'"
    unfolding phase_writing_def same using most late by blast
  show "phase_written N \<Longrightarrow> phase_written N'"
    unfolding phase_written_def same using most le less by blast
  show "phase_reading N \<Longrightarrow> phase_reading N'"
    unfolding phase_reading_def same using most le by blast
  show "phase_done N \<Longrightarrow> phase_done N'"
    unfolding phase_done_def same using le by blast
qed

abbreviation "kv_step \<equiv> node_step (kv_body KvCorrect) kv_progs"

lemma no_recv: "at_most {} N \<Longrightarrow> nt_inbox N n \<noteq> (src, m) # rest"
  using at_most_recv(1) by blast

text \<open>A server that has received nothing stays in its first loop; with a value, in its serving loop.\<close>

lemma fresh_primary_step:
  assumes "primary_at PrimaryFresh k (nt_nodes N 0)" and "kv_step 0 N N'" and "nt_inbox N 0 = []"
  shows "\<exists>p. N' = at_node N 0 p \<and> primary_at PrimaryFresh k (Some p)"
  using assms server_start by (auto simp: node_step_def)

lemma fresh_follower_step:
  assumes "fresh_follower (nt_nodes N f)" and "kv_step f N N'" and "nt_inbox N f = []" and "f = 1 \<or> f = 2"
  shows "\<exists>p. N' = at_node N f p \<and> fresh_follower (Some p)"
  using assms server_start by (auto simp: node_step_def fresh_follower_def)

lemma loaded_step:
  assumes "loaded (nt_nodes N f)" and "kv_step f N N'" and "nt_inbox N f = []"
  shows "\<exists>p. N' = at_node N f p \<and> loaded (Some p)"
  using assms by (auto simp: node_step_def loaded_def)

lemma no_messages:
  assumes "at_most {} N"
  shows "nt_flight N = {#}" "nt_inbox N n = []"
  using assms nothing_pending [of N] by (auto simp: at_most_def)

lemma idle_step:
  assumes idle: "phase_idle N" and step: "kv_step n N N'" and "n \<in> {0, 1, 2, 4}"
  shows "phase_idle N' \<or> (\<exists>i. phase_writing i PrimaryFresh (\<lambda>_. 0) N')"
proof -
  have most: "at_most {} N" and servers: "primary_at PrimaryFresh (\<lambda>_. 0) (nt_nodes N 0)"
    "fresh_follower (nt_nodes N 1)" "fresh_follower (nt_nodes N 2)"
    using idle by (simp_all add: phase_idle_def)
  note none = no_messages [OF most]
  consider "n = 0" | "n = 1" | "n = 2" | "n = 4" using assms(3) by blast
  then show ?thesis
  proof cases
    case 1
    obtain p where "N' = at_node N 0 p" "primary_at PrimaryFresh (\<lambda>_. 0) (Some p)"
      using fresh_primary_step [OF servers(1) step [unfolded 1] none(2)] by blast
    then have "phase_idle N'" using idle unfolding phase_idle_def by simp
    then show ?thesis ..
  next
    case 2
    obtain p where "N' = at_node N 1 p" "fresh_follower (Some p)"
      using fresh_follower_step [OF servers(2) step [unfolded 2] none(2)] by blast
    then have "phase_idle N'" using idle unfolding phase_idle_def by simp
    then show ?thesis ..
  next
    case 3
    obtain p where "N' = at_node N 2 p" "fresh_follower (Some p)"
      using fresh_follower_step [OF servers(3) step [unfolded 3] none(2)] by blast
    then have "phase_idle N'" using idle unfolding phase_idle_def by simp
    then show ?thesis ..
  next
    case 4
    consider "nt_nodes N 4 = None" | "nt_nodes N 4 = Some (Now cl_put)"
      | i where "i \<le> nt_clock N" "nt_nodes N 4 = Some (cl_put i)"
      using idle by (auto simp: phase_idle_def)
    then show ?thesis
    proof cases
      case 1
      then have "N' = at_node N 4 (Now cl_put)" using step 4 client_start by (simp add: node_step_def)
      then have "phase_idle N'" using idle unfolding phase_idle_def by simp
      then show ?thesis ..
    next
      case 2
      then have N': "N' = at_node N 4 (cl_put (nt_clock N))" using step 4 by (simp add: node_step_def)
      then have "\<exists>i \<le> nt_clock N'. nt_nodes N' 4 = Some (cl_put i)" by auto
      then have "phase_idle N'" using idle unfolding phase_idle_def by (simp add: N')
      then show ?thesis ..
    next
      case (3 i)
      then obtain t where t: "nt_clock N < t"
        and N': "N' = (at_node N 4 (cl_wait i))\<lparr>nt_flight := add_mset (t, 4, 0, msg_put) (nt_flight N)\<rparr>"
        using step 4 by (auto simp: node_step_def cl_put_def)
      have "late N' i" using 3(1) t none by (auto simp: N' late_def)
      moreover have "at_most {(4, 0, msg_put)} N'"
        using most at_most_send [of "{}" "at_node N 4 (cl_wait i)" 4 0 msg_put t] by (simp add: N')
      ultimately have "phase_writing i PrimaryFresh (\<lambda>_. 0) N'"
        using idle servers by (simp add: phase_idle_def phase_writing_def N' write_msgs_def primary_msgs_def follower_msgs_def follower_at_def)
      then show ?thesis by blast
    qed
  qed
qed

text \<open>The replication to one follower: it applies the value, then acknowledges.\<close>

lemma follower_step:
  assumes "follower_at k (nt_nodes N f)" and "kv_step f N N'" and "f = 1 \<or> f = 2" and "at_most T N"
    and "\<And>src m. (src, f, m) \<in> T \<Longrightarrow> k = 1 \<and> src = 0 \<and> m = msg_rep"
  shows "(\<exists>p. N' = at_node N f p \<and> follower_at k (Some p))
    \<or> k = 1 \<and> (\<exists>p rest. nt_inbox N f = (0, msg_rep) # rest \<and> follower_at 2 (Some p)
        \<and> N' = (at_node N f p)\<lparr>nt_inbox := (nt_inbox N)(f := rest)\<rparr>)
    \<or> k = 2 \<and> (\<exists>p t. nt_clock N < t \<and> follower_at 3 (Some p)
        \<and> N' = (at_node N f p)\<lparr>nt_flight := add_mset (t, f, 0, msg_ack) (nt_flight N)\<rparr>)"
proof -
  have recv: "k = 1 \<and> src = 0 \<and> m = msg_rep" if "nt_inbox N f = (src, m) # rest" for src m rest
    using at_most_recv(1) [OF assms(4) that] assms(5) by blast
  consider "k < 2" "fresh_follower (nt_nodes N f)" | "k = 2" | "2 < k" "loaded (nt_nodes N f)"
    using assms(1) by (auto simp: follower_at_def split: if_splits)
  then show ?thesis
  proof cases
    case 1
    show ?thesis
    proof (cases "nt_inbox N f")
      case Nil
      then show ?thesis using fresh_follower_step [OF 1(2) assms(2) _ assms(3)] 1(1) by (auto simp: follower_at_def)
    next
      case (Cons am rest)
      obtain src m where am: "am = (src, m)" by (cases am)
      have am': "k = 1" "src = 0" "m = msg_rep" using recv [of src m rest] Cons am by simp_all
      have "follower_handle None 0 msg_rep = Send 0 msg_ack (Goto (ServeFollower (Some 7)))"
        by (simp add: follower_handle_def)
      then show ?thesis
        using 1(2) assms(2,3) Cons am am' server_start
        by (auto simp: node_step_def fresh_follower_def follower_at_def)
    qed
  next
    case 2
    then show ?thesis using assms(1,2) by (auto simp: follower_at_def node_step_def loaded_def)
  next
    case 3
    then have "nt_inbox N f = []" using recv by (cases "nt_inbox N f") auto
    then show ?thesis using loaded_step [OF 3(2) assms(2)] 3(1) by (auto simp: follower_at_def)
  qed
qed

lemma msgs_simps [simp]:
  "primary_msgs PrimaryFresh = {(4, 0, msg_put)}" "primary_msgs SendingFirst = {}" "primary_msgs SendingSecond = {}"
  "primary_msgs Counting = {}" "primary_msgs Answering = {}" "primary_msgs Finished = {(0, 4, msg_ok)}"
  "follower_msgs 0 f = {}" "follower_msgs (Suc 0) f = {(0, f, msg_rep)}" "follower_msgs 2 f = {}"
  "follower_msgs 3 f = {(f, 0, msg_ack)}" "follower_msgs 4 f = {}"
  by (simp_all add: primary_msgs_def follower_msgs_def)

text \<open>The primary does not see how far a follower is before its acknowledgement.\<close>

lemma primary_at_follower:
  assumes "primary_at s k P" and "n = 1 \<or> n = 2" and "k n = 1 \<or> k n = 2"
  shows "primary_at s (k(n := Suc (k n))) P"
proof -
  have "counted (k(n := Suc (k n))) = counted k" using assms(2,3) by (auto simp: counted_def)
  then show ?thesis using assms by (cases s) (auto simp del: kv_body.simps)
qed

lemma writing_follower_step:
  assumes phase: "phase_writing i s k N" and step: "kv_step n N N'" and n: "n = 1 \<or> n = 2"
  shows "\<exists>k'. phase_writing i s k' N'"
proof -
  let ?T = "write_msgs s k" and ?k = "k(n := Suc (k n))"
  have most: "at_most ?T N" and late: "late N i" and at: "follower_at (k n) (nt_nodes N n)"
    using phase n by (auto simp: phase_writing_def)
  have only: "k n = 1 \<and> src = 0 \<and> m = msg_rep" if "(src, n, m) \<in> ?T" for src m
    using that n by (cases s) (auto simp: write_msgs_def follower_msgs_def split: if_splits)
  have moved: "phase_writing i s ?k N'"
    if "nt_nodes N' = (nt_nodes N)(n \<mapsto> p)" "k n = 1 \<or> k n = 2" "follower_at (Suc (k n)) (Some p)" "late N' i" "at_most (write_msgs s ?k) N'"
      "nt_history N' = []" for p
    using phase n primary_at_follower [where s = s and k = k and n = n] that unfolding phase_writing_def by auto
  have outcome: "(\<exists>p. N' = at_node N n p \<and> follower_at (k n) (Some p))
    \<or> k n = 1 \<and> (\<exists>p rest. nt_inbox N n = (0, msg_rep) # rest \<and> follower_at 2 (Some p)
        \<and> N' = (at_node N n p)\<lparr>nt_inbox := (nt_inbox N)(n := rest)\<rparr>)
    \<or> k n = 2 \<and> (\<exists>p t. nt_clock N < t \<and> follower_at 3 (Some p)
        \<and> N' = (at_node N n p)\<lparr>nt_flight := add_mset (t, n, 0, msg_ack) (nt_flight N)\<rparr>)"
    using only by (rule follower_step [OF at step n most])
  then show ?thesis
  proof (elim disjE conjE exE)
    fix p
    assume "N' = at_node N n p" "follower_at (k n) (Some p)"
    then have "phase_writing i s k N'" using phase n by (auto simp: phase_writing_def)
    then show ?thesis by blast
  next
    fix p rest
    assume k: "k n = 1" and inbox: "nt_inbox N n = (0, msg_rep) # rest" and p: "follower_at 2 (Some p)"
      and N': "N' = (at_node N n p)\<lparr>nt_inbox := (nt_inbox N)(n := rest)\<rparr>"
    have "?T - {(0, n, msg_rep)} \<subseteq> write_msgs s ?k"
      using n k by (auto simp: write_msgs_def follower_msgs_def)
    then have "at_most (write_msgs s ?k) (N\<lparr>nt_inbox := (nt_inbox N)(n := rest)\<rparr>)"
      using at_most_recv(2) [OF most inbox] by (rule at_most_mono [rotated])
    then have "at_most (write_msgs s ?k) N'" unfolding N' at_most_def by (simp add: pending_def)
    moreover have "late N' i" using late_recv [OF late inbox] by (simp add: N' late_def)
    ultimately have "phase_writing i s ?k N'"
      using k p phase by (intro moved [of p]) (simp_all add: N' phase_writing_def numeral_2_eq_2)
    then show ?thesis by blast
  next
    fix p t
    assume k: "k n = 2" and t: "nt_clock N < t" and p: "follower_at 3 (Some p)"
      and N': "N' = (at_node N n p)\<lparr>nt_flight := add_mset (t, n, 0, msg_ack) (nt_flight N)\<rparr>"
    have "(n, 0, msg_ack) \<notin> ?T"
      using n k by (elim disjE; cases s) (simp_all add: write_msgs_def follower_msgs_def)
    moreover have "insert (n, 0, msg_ack) ?T \<subseteq> write_msgs s ?k"
      using n k by (elim disjE) (simp_all add: write_msgs_def follower_msgs_def)
    ultimately have "at_most (write_msgs s ?k) (N\<lparr>nt_flight := add_mset (t, n, 0, msg_ack) (nt_flight N)\<rparr>)"
      by (rule at_most_mono [OF at_most_send [OF most]])
    then have "at_most (write_msgs s ?k) N'" unfolding N' at_most_def by (simp add: pending_def)
    moreover have "late N' i" using late_send [OF late t] by (simp add: N')
    ultimately have "phase_writing i s ?k N'"
      using k p phase by (intro moved [of p]) (simp_all add: N' phase_writing_def numeral_3_eq_3)
    then show ?thesis by blast
  qed
qed

lemma writing_client_step:
  assumes phase: "phase_writing i s k N" and step: "kv_step 4 N N'"
  shows "phase_written N'"
proof -
  have most: "at_most (write_msgs s k) N" and late: "late N i" using phase by (simp_all add: phase_writing_def)
  obtain src m rest where inbox: "nt_inbox N 4 = (src, m) # rest"
    and N': "N' = (at_node N 4 (put_if_ok 1 4 7 i [] m cl_read))\<lparr>nt_inbox := (nt_inbox N)(4 := rest)\<rparr>"
    using phase step by (auto simp: phase_writing_def node_step_def cl_wait_def)
  have "(src, 4, m) \<in> write_msgs s k" using at_most_recv(1) [OF most inbox] .
  then have s: "s = Finished" "src = 0" "m = msg_ok"
    by (cases s; auto simp: write_msgs_def follower_msgs_def split: if_splits)+
  then have k: "k 1 = 4" "k 2 = 4" "nt_nodes N 0 = Some (Return ())" using phase by (simp_all add: phase_writing_def)
  then have servers: "loaded (nt_nodes N 1)" "loaded (nt_nodes N 2)"
    using phase by (simp_all add: phase_writing_def follower_at_def)
  have "write_msgs s k - {(src, 4, m)} \<subseteq> {}" using s k by (simp add: write_msgs_def)
  then have "at_most {} (N\<lparr>nt_inbox := (nt_inbox N)(4 := rest)\<rparr>)"
    by (rule at_most_mono [OF at_most_recv(2) [OF most inbox]])
  then have "at_most {} N'" unfolding N' at_most_def by (simp add: pending_def)
  moreover have "nt_nodes N' 4 = Some (cl_acked i)" using s by (simp add: N' put_if_ok_def cl_acked_def)
  moreover have "i < nt_clock N'" using late_recv [OF late inbox] by (simp add: N')
  ultimately show ?thesis
    using phase k(3) servers unfolding phase_written_def by (auto simp: N' phase_writing_def)
qed

lemma writing_primary_step:
  assumes phase: "phase_writing i s k N" and step: "kv_step 0 N N'"
  shows "\<exists>s' k'. phase_writing i s' k' N'"
proof -
  let ?T = "write_msgs s k"
  have most: "at_most ?T N" and late: "late N i" and at: "primary_at s k (nt_nodes N 0)"
    using phase by (simp_all add: phase_writing_def)
  have quiet: ?thesis if "N' = at_node N 0 p" "primary_at s' k (Some p)" "write_msgs s' k = ?T" for p s'
    using phase that by (intro exI [of _ s'] exI [of _ k]) (simp add: phase_writing_def)
  have sent: ?thesis if N': "N' = (at_node N 0 p)\<lparr>nt_flight := add_mset (t, 0, dst, m) (nt_flight N)\<rparr>" and "nt_clock N < t"
    "primary_at s' k' (Some p)" "(0, dst, m) \<notin> ?T" "insert (0, dst, m) ?T \<subseteq> write_msgs s' k'"
    "follower_at (k' 1) (nt_nodes N 1)" "follower_at (k' 2) (nt_nodes N 2)" for p t dst m s' k'
  proof -
    have "at_most (write_msgs s' k') (N\<lparr>nt_flight := add_mset (t, 0, dst, m) (nt_flight N)\<rparr>)"
      using at_most_send [OF most that(4)] that(5) by (rule at_most_mono)
    then have "at_most (write_msgs s' k') N'" unfolding N' at_most_def by (simp add: pending_def)
    then show ?thesis
      using phase that(3,6,7) late_send [OF late that(2)]
      by (intro exI [of _ s'] exI [of _ k']) (simp add: N' phase_writing_def)
  qed
  have received: ?thesis if inbox: "nt_inbox N 0 = (src, m) # rest"
    and N': "N' = (at_node N 0 p)\<lparr>nt_inbox := (nt_inbox N)(0 := rest)\<rparr>"
    and "primary_at s' k' (Some p)" "?T - {(src, 0, m)} \<subseteq> write_msgs s' k'"
    "follower_at (k' 1) (nt_nodes N 1)" "follower_at (k' 2) (nt_nodes N 2)" for p src m rest s' k'
  proof -
    have "at_most (write_msgs s' k') (N\<lparr>nt_inbox := (nt_inbox N)(0 := rest)\<rparr>)"
      using at_most_recv(2) [OF most inbox] that(4) by (rule at_most_mono)
    then have "at_most (write_msgs s' k') N'" unfolding N' at_most_def by (simp add: pending_def)
    then show ?thesis
      using phase that(3,5,6) late_recv [OF late inbox]
      by (intro exI [of _ s'] exI [of _ k']) (simp add: N' phase_writing_def late_def)
  qed
  have fs: "follower_at (k 1) (nt_nodes N 1)" "follower_at (k 2) (nt_nodes N 2)"
    using phase by (simp_all add: phase_writing_def)
  have to_primary: "(src, m) = (4, msg_put) \<and> s = PrimaryFresh \<or> src \<in> {1, 2} \<and> m = msg_ack \<and> k src = 3"
    if "nt_inbox N 0 = (src, m) # rest" for src m rest
    using at_most_recv(1) [OF most that]
    by (cases s) (auto simp: write_msgs_def follower_msgs_def split: if_splits)
  show ?thesis
  proof (cases s)
    case PrimaryFresh
    then have k: "k 1 = 0" "k 2 = 0" using at by simp_all
    consider "nt_nodes N 0 = None" | "nt_nodes N 0 = Some (Goto ServePrimary)"
      | "nt_nodes N 0 = Some (Recv (primary_handle KvCorrect))"
      using at PrimaryFresh by auto
    then show ?thesis
    proof cases
      case 1
      then show ?thesis using step k PrimaryFresh server_start by (intro quiet [of "Goto ServePrimary" s]) (simp_all add: node_step_def)
    next
      case 2
      then show ?thesis using step k PrimaryFresh
        by (intro quiet [of "Recv (primary_handle KvCorrect)" s]) (simp_all add: node_step_def)
    next
      case 3
      then obtain src m rest where inbox: "nt_inbox N 0 = (src, m) # rest"
        and N': "N' = (at_node N 0 (primary_handle KvCorrect src m))\<lparr>nt_inbox := (nt_inbox N)(0 := rest)\<rparr>"
        using step by (auto simp: node_step_def)
      have "src = 4 \<and> m = msg_put" using to_primary [OF inbox] k by auto
      then show ?thesis using k fs PrimaryFresh
        by (intro received [OF inbox N', of SendingFirst k])
          (auto simp: primary_handle_def primary_put_def replicate_to_quorum_def replicate_msg_def kv_texts write_msgs_def)
    qed
  next
    case SendingFirst
    then obtain t where t: "nt_clock N < t" and N': "N' = (at_node N 0 (Send 2 msg_rep (Goto (WaitAcks 0 2 after_put))))
        \<lparr>nt_flight := add_mset (t, 0, 1, msg_rep) (nt_flight N)\<rparr>"
      using step at by (auto simp: node_step_def)
    show ?thesis using SendingFirst at fs
      by (intro sent [OF N' t, of SendingSecond "k(1 := 1)"]) (auto simp: write_msgs_def follower_at_def)
  next
    case SendingSecond
    then obtain t where t: "nt_clock N < t" and N': "N' = (at_node N 0 (Goto (WaitAcks 0 2 after_put)))
        \<lparr>nt_flight := add_mset (t, 0, 2, msg_rep) (nt_flight N)\<rparr>"
      using step at by (auto simp: node_step_def)
    show ?thesis using SendingSecond at fs
      by (intro sent [OF N' t, of Counting "k(2 := 1)"]) (auto simp: write_msgs_def follower_at_def counted_def follower_msgs_def)
  next
    case Counting
    consider "nt_nodes N 0 = Some (Goto (WaitAcks (counted k) 2 after_put))" "counted k < 2"
      | "nt_nodes N 0 = Some (Goto (WaitAcks (counted k) 2 after_put))" "counted k = 2"
      | "nt_nodes N 0 = Some (kv_body KvCorrect (WaitAcks (counted k) 2 after_put))" "counted k < 2"
      using at Counting by (fastforce simp: counted_def split: if_splits)
    then show ?thesis
    proof cases
      case 1
      then show ?thesis using step at Counting
        by (intro quiet [of "kv_body KvCorrect (WaitAcks (counted k) 2 after_put)" Counting]) (auto simp: node_step_def simp del: kv_body.simps)
    next
      case 2
      then have "k 1 = 4" "k 2 = 4" by (auto simp: counted_def split: if_splits)
      then show ?thesis using step 2 Counting
        by (intro quiet [of "Send 4 msg_ok (Return ())" Answering]) (auto simp: node_step_def kv_ok_def write_msgs_def)
    next
      case 3
      then obtain src m rest where inbox: "nt_inbox N 0 = (src, m) # rest"
        and N': "N' = (at_node N 0 (Goto (WaitAcks (if m = msg_ack then counted k + 1 else counted k) 2 after_put)))
          \<lparr>nt_inbox := (nt_inbox N)(0 := rest)\<rparr>"
        using step by (auto simp: node_step_def)
      have from_follower: "src = 1 \<or> src = 2" "m = msg_ack" "k src = 3" using to_primary [OF inbox] Counting by auto
      then have "counted (k(src := 4)) = counted k + 1" by (auto simp: counted_def)
      then show ?thesis using at Counting from_follower fs
        by (intro received [OF inbox N', of Counting "k(src := 4)"]) (auto simp: write_msgs_def follower_at_def)
    qed
  next
    case Answering
    then obtain t where t: "nt_clock N < t" and N': "N' = (at_node N 0 (Return ()))
        \<lparr>nt_flight := add_mset (t, 0, 4, msg_ok) (nt_flight N)\<rparr>"
      using step at by (auto simp: node_step_def)
    show ?thesis using Answering at fs
      by (intro sent [OF N' t, of Finished k]) (auto simp: write_msgs_def)
  next
    case Finished
    then show ?thesis using step at by (simp add: node_step_def)
  qed
qed

lemma written_step:
  assumes phase: "phase_written N" and step: "kv_step n N N'" and "n \<in> {0, 1, 2, 4}"
  shows "phase_written N' \<or> phase_reading N'"
proof -
  have most: "at_most {} N" and servers: "nt_nodes N 0 = Some (Return ())" "loaded (nt_nodes N 1)" "loaded (nt_nodes N 2)"
    and history: "nt_history N = []"
    using phase by (simp_all add: phase_written_def)
  note none = no_messages [OF most]
  consider "n = 0" | "n = 1" | "n = 2" | "n = 4" using assms(3) by blast
  then show ?thesis
  proof cases
    case 1
    then show ?thesis using step servers by (simp add: node_step_def)
  next
    case 2
    obtain p where "N' = at_node N 1 p" "loaded (Some p)"
      using loaded_step [OF servers(2) step [unfolded 2] none(2)] by blast
    then have "phase_written N'" using phase by (simp add: phase_written_def)
    then show ?thesis ..
  next
    case 3
    obtain p where "N' = at_node N 2 p" "loaded (Some p)"
      using loaded_step [OF servers(3) step [unfolded 3] none(2)] by blast
    then have "phase_written N'" using phase by (simp add: phase_written_def)
    then show ?thesis ..
  next
    case 4
    have quiet: "phase_written N'" if "N' = at_node N 4 p" "i < c" "c \<le> nt_clock N"
      "p = cl_read [RecKvPut 1 4 7 i c] \<or> (\<exists>i' \<ge> c. i' \<le> nt_clock N \<and> p = cl_get [RecKvPut 1 4 7 i c] i')" for p i c
      using that most servers history unfolding phase_written_def by auto
    consider i where "i < nt_clock N" "nt_nodes N 4 = Some (cl_acked i)"
      | i c where "i < c" "c \<le> nt_clock N" "nt_nodes N 4 = Some (cl_read [RecKvPut 1 4 7 i c])"
      | i c i' where "i < c" "c \<le> i'" "i' \<le> nt_clock N" "nt_nodes N 4 = Some (cl_get [RecKvPut 1 4 7 i c] i')"
      using phase by (auto simp: phase_written_def)
    then show ?thesis
    proof cases
      case (1 i)
      then have "N' = at_node N 4 (cl_read [RecKvPut 1 4 7 i (nt_clock N)])"
        using step 4 by (simp add: node_step_def cl_acked_def)
      then show ?thesis using quiet [of _ i "nt_clock N"] 1(1) by simp
    next
      case (2 i c)
      then have "N' = at_node N 4 (cl_get [RecKvPut 1 4 7 i c] (nt_clock N))"
        using step 4 by (simp add: node_step_def cl_read_def)
      then show ?thesis using quiet [of _ i c] 2(1,2) by auto
    next
      case (3 i c i')
      then obtain t where t: "nt_clock N < t" and N': "N' = (at_node N 4 (cl_await [RecKvPut 1 4 7 i c] i'))
          \<lparr>nt_flight := add_mset (t, 4, 1, msg_get) (nt_flight N)\<rparr>"
        using step 4 by (auto simp: node_step_def cl_get_def)
      have "at_most {(4, 1, msg_get)} N'"
        using most at_most_send [of "{}" "at_node N 4 (cl_await [RecKvPut 1 4 7 i c] i')" 4 1 msg_get t] by (simp add: N')
      then have "phase_reading N'"
        using 3(1-3) servers history unfolding phase_reading_def by (auto simp: N')
      then show ?thesis ..
    qed
  qed
qed

lemma reading_step:
  assumes phase: "phase_reading N" and step: "kv_step n N N'" and "n \<in> {0, 1, 2, 4}"
  shows "phase_reading N' \<or> phase_done N'"
proof -
  obtain i c i' where times: "i < c" "c \<le> i'" "i' \<le> nt_clock N" and client: "nt_nodes N 4 = Some (cl_await [RecKvPut 1 4 7 i c] i')"
    and servers: "nt_nodes N 0 = Some (Return ())" "loaded (nt_nodes N 2)" and history: "nt_history N = []"
    using phase by (auto simp: phase_reading_def)
  consider (asked) "loaded (nt_nodes N 1)" "at_most {(4, 1, msg_get)} N"
    | (answering) "nt_nodes N 1 = Some (Send 4 msg_val (Return ()))" "at_most {} N"
    | (answered) "nt_nodes N 1 = Some (Return ())" "at_most {(1, 4, msg_val)} N"
    using phase by (auto simp: phase_reading_def)
  note stages = this
  have moved: "phase_reading N'" if "nt_nodes N' 4 = nt_nodes N 4" "nt_clock N' = nt_clock N" "nt_history N' = []"
    "nt_nodes N' 0 = Some (Return ())" "loaded (nt_nodes N' 2)"
    "loaded (nt_nodes N' 1) \<and> at_most {(4, 1, msg_get)} N'
        \<or> nt_nodes N' 1 = Some (Send 4 msg_val (Return ())) \<and> at_most {} N'
        \<or> nt_nodes N' 1 = Some (Return ()) \<and> at_most {(1, 4, msg_val)} N'"
    using that times client unfolding phase_reading_def by auto
  consider "n = 0" | "n = 1" | "n = 2" | "n = 4" using assms(3) by blast
  then show ?thesis
  proof cases
    case 1
    then show ?thesis using step servers by (simp add: node_step_def)
  next
    case 2
    from stages have "phase_reading N'"
    proof cases
      case asked
      then consider "nt_nodes N 1 = Some (Goto (ServeFollower (Some 7)))"
        | "nt_nodes N 1 = Some (Recv (follower_handle (Some 7)))"
        by (auto simp: loaded_def)
      then show ?thesis
      proof cases
        case 1
        then have "N' = at_node N 1 (Recv (follower_handle (Some 7)))" using step 2 by (simp add: node_step_def)
        then show ?thesis using asked servers history by (intro moved) (simp_all add: loaded_def)
      next
        case loading: 2
        then obtain src m rest where inbox: "nt_inbox N 1 = (src, m) # rest"
          and N': "N' = (at_node N 1 (follower_handle (Some 7) src m))\<lparr>nt_inbox := (nt_inbox N)(1 := rest)\<rparr>"
          using step 2 by (auto simp: node_step_def)
        have m: "src = 4" "m = msg_get" using at_most_recv(1) [OF asked(2) inbox] by simp_all
        have "at_most {} (N\<lparr>nt_inbox := (nt_inbox N)(1 := rest)\<rparr>)"
          using at_most_recv(2) [OF asked(2) inbox] by (rule at_most_mono) (simp add: m)
        then have "at_most {} N'" unfolding N' at_most_def by (simp add: pending_def)
        then show ?thesis using servers history
          by (intro moved) (simp_all add: N' m follower_handle_def kv_texts)
      qed
    next
      case answering
      then obtain t where N': "N' = (at_node N 1 (Return ()))\<lparr>nt_flight := add_mset (t, 1, 4, msg_val) (nt_flight N)\<rparr>"
        using step 2 by (auto simp: node_step_def)
      have "at_most {(1, 4, msg_val)} N'"
        using answering at_most_send [of "{}" "at_node N 1 (Return ())" 1 4 msg_val t] by (simp add: N')
      then show ?thesis using servers history by (intro moved) (simp_all add: N')
    next
      case answered
      then show ?thesis using step 2 by (simp add: node_step_def)
    qed
    then show ?thesis ..
  next
    case 3
    have "nt_inbox N 2 = []"
    proof (rule ccontr)
      assume "nt_inbox N 2 \<noteq> []"
      then obtain src m rest where "nt_inbox N 2 = (src, m) # rest" by (cases "nt_inbox N 2") auto
      note received = at_most_recv(1) [OF _ this]
      from stages show False by cases (auto dest: received)
    qed
    then obtain p where N': "N' = at_node N 2 p" "loaded (Some p)"
      using loaded_step [OF servers(2) step [unfolded 3]] by blast
    then have "phase_reading N'" using stages servers history by (intro moved) auto
    then show ?thesis ..
  next
    case 4
    then obtain src m rest where inbox: "nt_inbox N 4 = (src, m) # rest"
      and N': "N' = (at_node N 4 (cl_got [RecKvPut 1 4 7 i c] i' m))\<lparr>nt_inbox := (nt_inbox N)(4 := rest)\<rparr>"
      using step client by (auto simp: node_step_def cl_await_def)
    have "nt_nodes N 1 = Some (Return ()) \<and> m = msg_val"
      using stages
    proof cases
      case asked
      then show ?thesis using at_most_recv(1) [OF asked(2) inbox] by simp
    next
      case answering
      then show ?thesis using at_most_recv(1) [OF answering(2) inbox] by simp
    next
      case answered
      then show ?thesis using at_most_recv(1) [OF answered(2) inbox] by simp
    qed
    then have "phase_done N'"
      using times history servers unfolding phase_done_def by (auto simp: N' retired_def loaded_def)
    then show ?thesis ..
  qed
qed

lemma retired_step:
  assumes "retired (nt_nodes N f)" and "kv_step f N N'"
  shows "retired (nt_nodes N' f) \<and> nt_history N' = nt_history N \<and> nt_clock N' = nt_clock N
    \<and> (\<forall>n. n \<noteq> f \<longrightarrow> nt_nodes N' n = nt_nodes N n)"
proof -
  have handled: "retired (Some (follower_handle v src m))" for v src m
    by (auto simp: retired_def follower_handle_def)
  from assms show ?thesis
    unfolding retired_def [of "nt_nodes N f"]
    by (auto simp: node_step_def handled) (auto simp: retired_def)
qed

lemma done_step:
  assumes phase: "phase_done N" and step: "kv_step n N N'" and "n \<in> {0, 1, 2, 4}"
  shows "phase_done N'"
proof (cases "n = 4")
  case False
  then have "retired (nt_nodes N n)" using phase assms(3) by (auto simp: phase_done_def)
  note same = retired_step [OF this step]
  have "retired (nt_nodes N' f)" if "f = 0 \<or> f = 1 \<or> f = 2" for f
    using same that phase by (cases "f = n") (auto simp: phase_done_def)
  moreover have "nt_nodes N' 4 = nt_nodes N 4" using same False by simp
  ultimately show ?thesis using phase same unfolding phase_done_def by simp
next
  case True
  from phase obtain i c i' where times: "i < c" "c \<le> i'" "i' \<le> nt_clock N"
    and client: "nt_nodes N 4 = Some (cl_got [RecKvPut 1 4 7 i c] i' msg_val) \<and> nt_history N = []
       \<or> (\<exists>c'. i' \<le> c' \<and> (\<exists>P. nt_nodes N 4 = Some P \<and> client_ending (kv_ops i c i' c') P (nt_history N)))"
    unfolding phase_done_def by blast
  have moved: "phase_done N'" if "nt_nodes N' = (nt_nodes N)(4 \<mapsto> p)" "nt_clock N' = nt_clock N" "i' \<le> c'"
    "client_ending (kv_ops i c i' c') p (nt_history N')" for p c'
    using that times phase unfolding phase_done_def by auto
  from client show ?thesis
  proof (elim disjE conjE exE)
    assume "nt_nodes N 4 = Some (cl_got [RecKvPut 1 4 7 i c] i' msg_val)" "nt_history N = []"
    then have "N' = at_node N 4 (cl_stop (kv_ops i c i' (nt_clock N)))"
      using step True by (simp add: node_step_def cl_got_def kv_texts kv_ops_def)
    then show ?thesis using times \<open>nt_history N = []\<close>
      by (intro moved [of "cl_stop (kv_ops i c i' (nt_clock N))" "nt_clock N"]) (simp_all add: client_ending_def)
  next
    fix c' P
    let ?ops = "kv_ops i c i' c'"
    assume c': "i' \<le> c'" and P: "nt_nodes N 4 = Some P" and "client_ending ?ops P (nt_history N)"
    then consider "P = cl_stop ?ops" "nt_history N = []"
      | "P = Send 2 (bytes_of ''stop'') (record_ops ?ops)" "nt_history N = []"
      | k where "P = record_ops (drop k ?ops)" "nt_history N = map to_history_line (take k ?ops)"
      by (auto simp: client_ending_def)
    then show ?thesis
    proof cases
      case 1
      then obtain t where "N' = (at_node N 4 (Send 2 (bytes_of ''stop'') (record_ops ?ops)))
          \<lparr>nt_flight := add_mset (t, 4, 1, bytes_of ''stop'') (nt_flight N)\<rparr>"
        using step True P by (auto simp: node_step_def cl_stop_def)
      then show ?thesis using 1(2) c'
        by (intro moved [of "Send 2 (bytes_of ''stop'') (record_ops ?ops)" c']) (auto simp: client_ending_def)
    next
      case 2
      then obtain t where "N' = (at_node N 4 (record_ops ?ops))\<lparr>nt_flight := add_mset (t, 4, 2, bytes_of ''stop'') (nt_flight N)\<rparr>"
        using step True P by (auto simp: node_step_def)
      then show ?thesis using 2(2) c'
        by (intro moved [of "record_ops ?ops" c']) (auto simp: client_ending_def intro!: exI [of _ 0])
    next
      case (3 k)
      show ?thesis
      proof (cases "k < length ?ops")
        case True
        then have "record_ops (drop k ?ops) = Record (to_history_line (?ops ! k)) (record_ops (drop (Suc k) ?ops))"
          by (simp add: record_ops_def Cons_nth_drop_Suc [symmetric])
        then have "nt_nodes N 4 = Some (Record (to_history_line (?ops ! k)) (record_ops (drop (Suc k) ?ops)))"
          using P 3(1) by simp
        then have "N' = (at_node N 4 (record_ops (drop (Suc k) ?ops)))
            \<lparr>nt_history := nt_history N @ [to_history_line (?ops ! k)]\<rparr>"
          using step \<open>n = 4\<close> by (simp add: node_step_def)
        then show ?thesis using 3(2) c' True
          by (intro moved [of "record_ops (drop (Suc k) ?ops)" c'])
            (auto simp: client_ending_def take_Suc_conv_app_nth intro!: exI [of _ "Suc k"])
      next
        case False
        then show ?thesis using step \<open>n = 4\<close> P 3 by (simp add: node_step_def record_ops_def)
      qed
    qed
  qed
qed

lemma word_less_3: "(m :: u32) < 3 \<Longrightarrow> m = 0 \<or> m = 1 \<or> m = 2"
proof -
  assume "m < 3"
  then have "unat m < 3" by (simp add: word_less_nat_alt)
  then consider "unat m = unat (0 :: u32)" | "unat m = unat (1 :: u32)" | "unat m = unat (2 :: u32)" by fastforce
  then show ?thesis by cases (auto simp: word_unat_eq_iff)
qed

lemma kv_inv_start: "kv_inv net_start"
  by (simp add: kv_inv_def phase_idle_def net_start_def fresh_follower_def at_most_def pending_def)

lemma kv_inv_step:
  assumes "net_step (kv_body KvCorrect) kv_progs N N'" and inv: "kv_inv N"
  shows "kv_inv N'"
proof -
  consider (weather) "weather N N'" | (node) n where "kv_step n N N'" using net_step_view [OF assms(1)] by blast
  then show ?thesis
  proof cases
    case weather
    then show ?thesis using inv weather_phases [OF weather] unfolding kv_inv_def weather_def by metis
  next
    case (node n)
    have others: "nt_nodes N m = None" if "m \<notin> {0, 1, 2, 4}" for m using inv that by (simp add: kv_inv_def)
    have n: "n \<in> {0, 1, 2, 4}"
    proof (rule ccontr)
      assume "n \<notin> {0, 1, 2, 4}"
      then have "kv_progs n = None" using word_less_3 [of n] by (auto simp: kv_progs_def Let_def)
      then show False using node others \<open>n \<notin> {0, 1, 2, 4}\<close> by (simp add: node_step_def)
    qed
    have "nt_nodes N' m = None" if "m \<notin> {0, 1, 2, 4}" for m
    proof -
      have "m \<noteq> n" using n that by blast
      then show ?thesis using node_step_others [OF node] others that by simp
    qed
    moreover have "phase_idle N' \<or> (\<exists>i s k. phase_writing i s k N') \<or> phase_written N' \<or> phase_reading N' \<or> phase_done N'"
    proof -
      consider "phase_idle N" | i s k where "phase_writing i s k N" | "phase_written N" | "phase_reading N" | "phase_done N"
        using inv by (auto simp: kv_inv_def)
      then show ?thesis
      proof cases
        case 1
        then show ?thesis using idle_step [OF _ node n] by blast
      next
        case (2 i s k)
        consider "n = 0" | "n = 1 \<or> n = 2" | "n = 4" using n by blast
        then show ?thesis
        proof cases
          case 1
          then show ?thesis using writing_primary_step [OF 2] node by blast
        next
          case 2
          then show ?thesis using writing_follower_step [OF \<open>phase_writing i s k N\<close> node] by blast
        next
          case 3
          then show ?thesis using writing_client_step [OF 2] node by blast
        qed
      next
        case 3
        then show ?thesis using written_step [OF _ node n] by blast
      next
        case 4
        then show ?thesis using reading_step [OF _ node n] by blast
      next
        case 5
        then show ?thesis using done_step [OF _ node n] by blast
      qed
    qed
    ultimately show ?thesis by (simp add: kv_inv_def)
  qed
qed

end
