(* ===== verification/Kv_Linearizable.thy ===== *)
theory Kv_Linearizable
  imports World_Returns Kv_Safety
begin

section \<open>The correct replicated store is linearizable\<close>

text \<open>
  The invariant \<open>kv_inv\<close> of the network gives, through the interpretation of \<open>network_invariant\<close>, the
  histories of all runs under the faults that \<open>calm_op\<close> admits (no duplication, restart, clock skew or plan); \<open>plain_script_returns\<close> gives that the runs return. Together they say that the negative
  control of the command line's suite \<^verbatim>\<open>replicated-kv\<close> cannot be flagged.
\<close>

subsection \<open>Its histories are linearizable\<close>

definition kv_history_ok :: "string list \<Rightarrow> bool" where
  "kv_history_ok history \<longleftrightarrow>
     (\<exists>k i c i' c'. i < c \<and> c \<le> i' \<and> i' \<le> c' \<and> history = map to_history_line (take k (kv_ops i c i' c')))"

lemma kv_history_prefix:
  assumes "kv_inv N"
  shows "kv_history_ok (nt_history N)"
proof -
  have ok: "kv_history_ok (map to_history_line (take k (kv_ops i c i' c')))"
    if "i < c" "c \<le> i'" "i' \<le> c'" for k i c i' c'
    using that unfolding kv_history_ok_def by blast
  have "kv_history_ok []" using ok [of 0 1 1 1 0] by simp
  moreover have "kv_history_ok (nt_history N)" if "phase_done N" "nt_history N \<noteq> []"
  proof -
    obtain i c i' c' P where "i < c" "c \<le> i'" "i' \<le> c'" "client_ending (kv_ops i c i' c') P (nt_history N)"
      using \<open>phase_done N\<close> \<open>nt_history N \<noteq> []\<close> unfolding phase_done_def by blast
    then show ?thesis using \<open>nt_history N \<noteq> []\<close> ok by (auto simp: client_ending_def)
  qed
  ultimately show ?thesis
    using assms by (cases "nt_history N = []")
      (auto simp: kv_inv_def phase_idle_def phase_writing_def phase_written_def phase_reading_def)
qed

lemma kv_prefix_linearization:
  assumes "i < c" "c \<le> i'" "i' \<le> c'"
  shows "\<exists>is. linearization (single_key_kv None)
    (filter is_complete (single_key_kv_history (map to_history_line (take k (kv_ops i c i' c'))))) is"
proof -
  let ?put = "op_completed_at 1 3 (SkPut (7 :: i32)) SkOk i c" and ?get = "op_completed_at 2 3 SkGet (SkValue (Some (7 :: i32))) i' c'"
  have "take k (kv_ops i c i' c') = [] \<or> take k (kv_ops i c i' c') = [RecKvPut 1 4 7 i c]
      \<or> take k (kv_ops i c i' c') = kv_ops i c i' c'"
    by (cases k; cases "k - 1") (auto simp: kv_ops_def)
  moreover have "linearization (single_key_kv None) [] []" by (simp add: linearization_def)
  moreover have "linearization (single_key_kv None) [?put] [0]"
    by (auto simp: linearization_def op_completed_at_def)
  moreover have "linearization (single_key_kv None) [?put, ?get] [0, 1]"
    using assms by (auto simp: linearization_def op_completed_at_def precedes_def)
  ultimately show ?thesis
    by (auto simp: kv_history_of kv_ops_def map_filter_simps is_complete_def op_completed_at_def)
qed

lemma unflagged:
  assumes "\<exists>is. linearization (single_key_kv None) (filter is_complete (single_key_kv_history (rp_history r))) is"
  shows "single_key_signature r = None"
proof -
  have "lr_inconclusive s \<or> lr_linearizable s"
    if "s = run_search (single_key_kv None) (filter is_complete (single_key_kv_history (rp_history r))) 10000" for s
    using run_search_complete assms that by blast
  then show ?thesis
    by (auto simp: single_key_signature_def check_linearizable_with_budget_def linearizability_signature_def Let_def)
qed

lemma kv_spawn_free:
  "spawn_free (kv_body KvCorrect l)" "spawn_free_progs kv_progs"
proof -
  show "spawn_free (kv_body KvCorrect l)"
    by (cases l rule: kv_label.exhaust)
      (auto simp: primary_handle_def primary_put_def replicate_to_quorum_def follower_handle_def log_handle_def Let_def
        split: kv_after_acks.split)
  show "spawn_free_progs kv_progs"
    using client_start
    by (auto simp: spawn_free_progs_def kv_progs_def run_primary_backup_kv_def run_primary_def Let_def kv_config_with_bug_def
        cl_put_def cl_wait_def put_if_ok_def cl_read_def cl_get_def cl_await_def cl_got_def cl_stop_def record_ops_def
        split: if_splits)
qed

interpretation kv: network_invariant "kv_body KvCorrect" kv_progs kv_inv
  by unfold_locales (simp_all add: kv_inv_start kv_inv_step kv_spawn_free)

lemma unflagged_run:
  assumes "world_script (sut_step (kv_body KvCorrect)) (setup_ops @ [OpRun]) (world_from_tape seed config tape) = Some (Inr g)"
    and "\<forall>op \<in> set setup_ops. calm_op kv_progs op" and "wc_horizon_ns config < - 1"
  shows "(\<exists>is. linearization (single_key_kv None) (filter is_complete (single_key_kv_history (in_history g))) is)
    \<and> single_key_signature (text_report_of dbg (run_report_of g)) = None"
proof -
  obtain N where N: "kv_inv N" "nt_history N = in_history g" by (rule kv.run_history [OF assms])
  then have "kv_history_ok (in_history g)" using kv_history_prefix by metis
  then have lin: "\<exists>is. linearization (single_key_kv None) (filter is_complete (single_key_kv_history (in_history g))) is"
    using kv_prefix_linearization by (auto simp: kv_history_ok_def)
  moreover have "rp_history (text_report_of dbg (run_report_of g)) = in_history g"
    by (simp add: text_report_of_def run_report_of_def Let_def)
  ultimately show ?thesis using unflagged [of "text_report_of dbg (run_report_of g)"] by simp
qed

subsection \<open>The runs return\<close>

text \<open>Only the loop that waits for acknowledgements goes on to another one without receiving.\<close>

fun kv_rank :: "kv_label \<Rightarrow> nat" where
  "kv_rank (WaitAcks acks needed after) = 1"
| "kv_rank _ = 0"

lemma kv_good_loops: "good_loops kv_rank 2 (kv_body bug)"
proof -
  have "kv_rank l < 2 \<and> plain_prog (kv_body bug l) \<and> guarded kv_rank (kv_rank l) (kv_body bug l)" for l
    by (cases l; cases bug)
      (auto simp: primary_handle_def primary_put_def replicate_to_quorum_def replicate_to_node_def follower_handle_def
        log_handle_def Let_def split: kv_after_acks.split)
  then show ?thesis by (simp add: good_loops_def)
qed

lemma kv_variant_plain:
  "plain_prog (run_primary_backup_kv (kv_config_with_bug bug) n)" "plain_prog (kv_client_node (kv_config_with_bug bug) n)"
  by (auto simp: run_primary_backup_kv_def run_primary_def kv_client_node_def run_primary_backup_kv_client_def
      kv_config_with_bug_def single_key_client_def single_key_read_def put_if_ok_def record_ops_def Let_def
      append_log_client_def uncommitted_follower_client_def split: kv_bug_variant.split)

text \<open>What the command line sets up before it runs a variant.\<close>

definition kv_setup :: "kv_bug_variant \<Rightarrow> (kv_label, unit) sut_future world_op list" where
  "kv_setup bug = butlast (run_replicated_kv_variant bug)"

lemma kv_setup: "run_replicated_kv_variant bug = kv_setup bug @ [OpRun]" "fresh_ops {} (kv_setup bug)"
  by (simp_all add: kv_setup_def run_replicated_kv_variant_def Let_def plain_factory_def kv_variant_plain butlast_append)

lemma kv_setup_calm: "\<forall>op \<in> set (kv_setup KvCorrect). calm_op kv_progs op"
  by (auto simp: kv_setup_def run_replicated_kv_variant_def Let_def adds_def kv_progs_def)

lemma kv_world_returns:
  "\<exists>r. script_generate (sut_step (kv_body bug)) (run_replicated_kv_variant bug) config dbg seed = Some r"
proof -
  obtain g where "world_script (sut_step (kv_body bug)) (kv_setup bug @ [OpRun]) (world_from_tape seed config (tape_generate seed))
      = Some (Inr g)"
    using fresh_script_returns [OF kv_good_loops kv_setup(2)] by blast
  then show ?thesis by (simp add: script_generate_def report_of_script_def kv_setup(1) world_with_config_def)
qed

lemma negative_control:
  "\<exists>r. script_generate (sut_step (kv_body KvCorrect)) (run_replicated_kv_variant KvCorrect) protocol_config dbg seed = Some r
     \<and> single_key_signature r = None"
proof -
  obtain r where r: "script_generate (sut_step (kv_body KvCorrect)) (run_replicated_kv_variant KvCorrect) protocol_config dbg seed = Some r"
    using kv_world_returns by blast
  then obtain g where "world_script (sut_step (kv_body KvCorrect)) (kv_setup KvCorrect @ [OpRun])
      (world_from_tape seed protocol_config (tape_generate seed)) = Some (Inr g)" "r = text_report_of dbg (run_report_of g)"
    by (auto simp: script_generate_def report_of_script_def kv_setup(1) world_with_config_def split: option.splits sum.splits)
  then show ?thesis using r unflagged_run [OF _ kv_setup_calm] by (simp add: protocol_config_def)
qed

text \<open>C3. The correct primary-backup key-value store is linearizable under loss, delay, partitions and crashes.
  Take a world that holds any of the protocol's nodes 0 to 2 and its client at node 4, each added once, with any of
  these faults set up or scheduled: message loss, an extra delay (that does not overflow), partitions and link cuts,
  crashes, and storage faults, but no message duplication, no restart, no clock skew and no nemesis plan; and let its
  horizon lie below the last instant. Then one run of it returns for every seed and every tape, the completed
  operations of the recorded history have a linearization, and the oracle reports nothing. Duplication has to be
  excluded because the primary counts acknowledgements, not followers.\<close>

theorem replicated_kv_correct_linearizable:
  assumes "\<forall>op \<in> set setup_ops. calm_op kv_progs op" and "fresh_ops {} setup_ops" and "wc_horizon_ns config < - 1"
  shows "\<exists>g. world_script (sut_step (kv_body KvCorrect)) (setup_ops @ [OpRun]) (world_from_tape seed config tape) = Some (Inr g)
    \<and> (\<exists>is. linearization (single_key_kv None) (filter is_complete (single_key_kv_history (in_history g))) is)
    \<and> single_key_signature (text_report_of dbg (run_report_of g)) = None"
proof -
  obtain g where g: "world_script (sut_step (kv_body KvCorrect)) (setup_ops @ [OpRun]) (world_from_tape seed config tape) = Some (Inr g)"
    using fresh_script_returns [OF kv_good_loops assms(2)] by blast
  then show ?thesis using unflagged_run [OF g assms(1,3)] by blast
qed

lemma replicated_kv_correct_linearizable_witness:
  "\<exists>g. world_script (sut_step (kv_body KvCorrect)) ((kv_setup KvCorrect @ [OpSetDropPercent 20, OpScheduleNemesis 5000000 (Crash 2)]) @ [OpRun])
      (world_from_tape 3 protocol_config (tape_generate 3)) = Some (Inr g)
    \<and> (\<exists>is. linearization (single_key_kv None) (filter is_complete (single_key_kv_history (in_history g))) is)
    \<and> single_key_signature (text_report_of (\<lambda>_. []) (run_report_of g)) = None"
proof -
  have "fresh_ops nodes (ops @ ops') = (fresh_ops nodes ops \<and> fresh_ops (nodes \<union> \<Union> (op_nodes ` set ops)) ops')"
    for nodes and ops ops' :: "(kv_label, unit) sut_future world_op list"
    by (induction ops arbitrary: nodes) (auto simp: Un_assoc)
  then have "fresh_ops {} (kv_setup KvCorrect @ [OpSetDropPercent 20, OpScheduleNemesis 5000000 (Crash 2)])"
    using kv_setup(2) [of KvCorrect] by simp
  then show ?thesis
    by (intro replicated_kv_correct_linearizable) (use kv_setup_calm in \<open>auto simp: protocol_config_def\<close>)
qed

end
