(* ===== verification/Cli_Suites.thy ===== *)
theory Cli_Suites
  imports Kv_Recall Raft_Recall Kv_Linearizable
begin

section \<open>The suites of the command line\<close>

text \<open>
  What \<^verbatim>\<open>detersim run-suite\<close> reports: each of the four suites keeps every policy of its cases.
\<close>

lemma negative_control_unflagged: "\<not> policy_violated (replicated_kv_correct_case dbg) MustNotRecall"
proof -
  have "\<not> failing (replicated_kv_correct_case dbg) seed" for seed
    using negative_control [of dbg seed] by (auto simp: failing_def case_scripts script_case_def)
  then show ?thesis by (simp add: policy_violated_def)
qed

lemma replicated_kv_suite_passes: "es_policy_failures (run_experiment_suite (replicated_kv_suite dbg)) = 0"
  by (simp add: suite_policy_failures replicated_kv_suite_def negative_control_unflagged kv_recalled)

lemma passed_policy:
  assumes "\<not> policy_violated c policy" "policy \<noteq> Informational"
  shows "is_recalled (run_experiment_case c) \<longleftrightarrow> policy = MustRecall"
proof (cases policy)
  case MustRecall
  then show ?thesis using assms run_case_report [of c] by (auto simp: policy_violated_def)
next
  case MustNotRecall
  then show ?thesis using assms run_case_report [of c] by (auto simp: policy_violated_def first_failing_def)
qed (use assms in simp)

lemma suites_named:
  assumes "suite_by_name dbg name = Some suite"
  shows "suite \<in> {smoke_suite dbg, replicated_kv_suite dbg, mini_raft_smoke_suite dbg, storage_faults_suite dbg}"
  using assms by (auto simp: suite_by_name_def split: if_splits)

lemma suites_not_informational:
  assumes "suite_by_name dbg name = Some suite" "(c, policy) \<in> set (su_cases suite)"
  shows "policy \<noteq> Informational"
  using suites_named [OF assms(1)] assms(2)
  by (auto simp: smoke_suite_def replicated_kv_suite_def mini_raft_smoke_suite_def storage_faults_suite_def)

lemma suites_have_no_failures:
  assumes "suite_by_name dbg name = Some suite"
  shows "es_policy_failures (run_experiment_suite suite) = 0"
  using suites_named [OF assms] smoke_and_storage_suites_pass replicated_kv_suite_passes mini_raft_smoke_suite_passes
  by auto

text \<open>C4. The suites of the command line pass: in each of them no policy is violated, that is, a case is recalled
  exactly if it must be. Every planted bug fails for one of its seeds, its recorded tape reproduces the failure with the
  same trace and history and so does the shrunk tape, and the correct protocol fails for none of its seeds.\<close>

theorem cli_suites_pass:
  assumes "suite_by_name dbg name = Some suite"
  shows "es_policy_failures (run_experiment_suite suite) = 0
     \<and> (\<forall>(c, policy) \<in> set (su_cases suite). is_recalled (run_experiment_case c) \<longleftrightarrow> policy = MustRecall)"
proof -
  have none: "es_policy_failures (run_experiment_suite suite) = 0" using assms by (rule suites_have_no_failures)
  then have "\<not> policy_violated c policy" if "(c, policy) \<in> set (su_cases suite)" for c policy
    using that by (auto simp: suite_policy_failures filter_empty_conv)
  then show ?thesis using none passed_policy suites_not_informational [OF assms] by fast
qed

theorem cli_suites_pass_witness:
  "es_policy_failures (run_experiment_suite (replicated_kv_suite (\<lambda>_. []))) = 0
   \<and> is_recalled (run_experiment_case (replicated_kv_lost_update_case (\<lambda>_. [])))
   \<and> \<not> is_recalled (run_experiment_case (replicated_kv_correct_case (\<lambda>_. [])))"
proof -
  have "suite_by_name (\<lambda>_. []) ''replicated-kv'' = Some (replicated_kv_suite (\<lambda>_. []))"
    by (simp add: suite_by_name_def)
  from cli_suites_pass [OF this] show ?thesis by (simp add: replicated_kv_suite_def)
qed

end
