(* ===== verification/Cli_Commands.thy ===== *)
theory Cli_Commands
  imports Cli_Text Cli_Suites
begin

section \<open>The commands of the command line\<close>

text \<open>
  \<^verbatim>\<open>main\<close> of \<^verbatim>\<open>crates/detersim-cli/src/main.rs\<close> and its commands, as functions on
  what the process has printed and on the file system. The properties are about \<^verbatim>\<open>doctor\<close> and
  \<^verbatim>\<open>replay\<close>.
\<close>

subsection \<open>Artifacts\<close>

definition smoke_search :: "(message \<Rightarrow> string) \<Rightarrow> search_report" where
  "smoke_search dbg =
     run_seed_search (smoke_case dbg) CoverageGuided \<lparr>sb_seed_count = 10, sb_retain_candidates = 8\<rparr>"

definition missing_message_v3_artifact :: "'w cli_env \<Rightarrow> string \<Rightarrow> u64 \<Rightarrow> debug_artifact_v3" where
  \<open>missing_message_v3_artifact env title seed =
     (let summary = run_experiment_suite (smoke_suite (ce_debug env));
          search = smoke_search (ce_debug env);
          run = dropped_message_world (ce_debug env) seed
      in \<lparr>d3_title = title, d3_run = run,
          d3_experiment_json = Some (experiment_summary_to_json (ce_show_f64 env) summary),
          d3_search_json = Some (search_report_to_json search), d3_checker_json = None,
          d3_shrink_json = Some ''{"kind":"signature-preserving"}'',
          d3_failure_signature_json = Some ''{"type":"InvariantViolated","name":"missing-message"}'',
          d3_coverage_json = None, d3_causal_graph_json = Some (causal_graph_json (causal_from_run run)),
          d3_environment_json = Some ''{"schema":"v3","determinism":"same-binary-same-platform"}''\<rparr>)\<close>

text \<open>The common text of the two protocol artifacts: the checker's verdict on the history of a run.\<close>

definition single_key_checker_json :: "text_report \<Rightarrow> string" where
  "single_key_checker_json run =
     checker_artifact_json (lin_checker_artifact
       (check_linearizable_with_budget (single_key_kv None) (single_key_kv_history (rp_history run)) 10000)
       ''single-key-kv'')"

definition replicated_kv_artifact :: "'w cli_env \<Rightarrow> debug_artifact_v3" where
  \<open>replicated_kv_artifact env =
     (let run = replicated_kv_world (ce_debug env) 0;
          checker = single_key_checker_json run;
          shrink = ''{"kind":"signature-preserving"}''
      in \<lparr>d3_title = ''replicated-kv stale read'', d3_run = run,
          d3_experiment_json = Some (experiment_summary_to_json (ce_show_f64 env)
            (run_experiment_suite (replicated_kv_suite (ce_debug env)))),
          d3_search_json = None, d3_checker_json = Some checker, d3_shrink_json = Some shrink,
          d3_failure_signature_json = Some ''{"type":"NotLinearizable","model":"single-key-kv"}'',
          d3_coverage_json = None,
          d3_causal_graph_json = Some (causal_graph_json (causal_from_sections run (Some checker) (Some shrink))),
          d3_environment_json = Some ''{"kind":"cli-replicated-kv-example"}''\<rparr>)\<close>

definition mini_raft_artifact :: "'w cli_env \<Rightarrow> debug_artifact_v3" where
  \<open>mini_raft_artifact env =
     (let run = mini_raft_smoke_world (ce_debug env) 0;
          checker = single_key_checker_json run;
          shrink = ''{"kind":"signature-preserving"}''
      in \<lparr>d3_title = ''mini-raft stale read'', d3_run = run,
          d3_experiment_json = Some (experiment_summary_to_json (ce_show_f64 env)
            (run_experiment_suite (mini_raft_smoke_suite (ce_debug env)))),
          d3_search_json = None, d3_checker_json = Some checker, d3_shrink_json = Some shrink,
          d3_failure_signature_json = Some ''{"type":"NotLinearizable","model":"single-key-kv"}'',
          d3_coverage_json = None,
          d3_causal_graph_json = Some (causal_graph_json (causal_from_sections run (Some checker) (Some shrink))),
          d3_environment_json = Some ''{"kind":"cli-mini-raft-example"}''\<rparr>)\<close>

definition storage_fault_artifact :: "'w cli_env \<Rightarrow> debug_artifact_v3" where
  \<open>storage_fault_artifact env =
     (let run = storage_fault_world (ce_debug env) 0;
          shrink = ''{"kind":"storage-fault"}''
      in \<lparr>d3_title = ''storage bitrot'', d3_run = run,
          d3_experiment_json = Some (experiment_summary_to_json (ce_show_f64 env)
            (run_experiment_suite (storage_faults_suite (ce_debug env)))),
          d3_search_json = None, d3_checker_json = None, d3_shrink_json = Some shrink,
          d3_failure_signature_json = Some ''{"type":"StorageCorruption","label":"bitrot"}'',
          d3_coverage_json = None,
          d3_causal_graph_json = Some (causal_graph_json (causal_from_sections run None (Some shrink))),
          d3_environment_json = Some ''{"kind":"cli-storage-example"}''\<rparr>)\<close>

definition stream_transcript_report :: "u64 \<Rightarrow> text_report" where
  "stream_transcript_report seed =
     (let stream = stream_send (bytes_of ''hello'') [] (connect_pair 0 1 1);
          stream = stream_send (bytes_of ''again'') [FaultDuplicate 1] stream;
          transcript = into_transcript stream;
          history = to_history_lines transcript
      in \<lparr>rp_seed = seed, rp_trace = history, rp_nemesis_trace = [], rp_history = history,
          rp_coverage_signals = [''stream:enqueue'', ''stream:duplicate'', ''stream:deliver''],
          rp_tape_log = [], rp_tape_events = [], rp_tape_replaying = False, rp_tape_input_len = None,
          rp_tape_cursor = 0, rp_tape_consumed_all = True, rp_tape_exhausted = False,
          rp_dispatched = length (tr_delivered transcript), rp_aborted = False, rp_deadlocked = False,
          rp_parked_tasks = 0, rp_tape_log_len = 0\<rparr>)"

definition stream_transcript_artifact :: debug_artifact_v3 where
  \<open>stream_transcript_artifact =
     (let report = stream_transcript_report 0
      in \<lparr>d3_title = ''stream-transcript example'', d3_run = report, d3_experiment_json = None,
          d3_search_json = None, d3_checker_json = None, d3_shrink_json = Some ''{"example":"stream"}'',
          d3_failure_signature_json = Some ''{"type":"InvariantViolated","name":"stream-transcript"}'',
          d3_coverage_json = Some ''["stream:deliver","stream:duplicate"]'',
          d3_causal_graph_json = Some (causal_graph_json (causal_from_run report)),
          d3_environment_json = Some ''{"kind":"cli-stream-example"}''\<rparr>)\<close>

subsection \<open>doctor\<close>

definition template_generation_smoke :: "'w cli_env \<Rightarrow> bool" where
  "template_generation_smoke env \<longleftrightarrow>
     (let workspace = path_for_toml (workspace_root env);
          cargo = template_cargo ''doctor-template'' workspace ''message'';
          lib = message_template_lib;
          test = template_test ''doctor_template'' ''message''
      in contains_str cargo ''detersim-testkit'' \<and> contains_str cargo ''detersim-viz''
         \<and> contains_str lib ''plant_bug_case'' \<and> contains_str lib ''ExperimentCase''
         \<and> contains_str test ''artifact_render_test'')"

definition doctor :: "'w cli_env \<Rightarrow> 'w command" where
  \<open>doctor env st =
     (let report = dropped_message_world (ce_debug env) 0;
          summary = run_experiment_suite (smoke_suite (ce_debug env));
          sample_suite_ok = (es_policy_failures summary = 0);
          artifact = missing_message_v3_artifact env ''doctor artifact'' 0;
          artifact_render_ok = (contains_str (debug_artifact_v3_to_json artifact) ''"schema_version":3''
            \<and> contains_str (debug_artifact_v3_html artifact) ''<!doctype html>'');
          template_smoke_ok = template_generation_smoke env;
          rustc = (case command_output env ''rustc'' [''--version''] of None \<Rightarrow> ''unavailable'' | Some v \<Rightarrow> v);
          ok = (\<not> rp_deadlocked report \<and> sample_suite_ok \<and> artifact_render_ok \<and> template_smoke_ok)
      in exit_with (if ok then 0 else 1) (println
           (''{"schema_version":3,"ok":'' @ show_bool ok
            @ '',"workspace":"'' @ escape_json_cli (workspace_root env)
            @ ''","rustc":"'' @ escape_json_cli rustc
            @ ''","sample_suite_ok":'' @ show_bool sample_suite_ok
            @ '',"artifact_render_ok":'' @ show_bool artifact_render_ok
            @ '',"template_smoke_ok":'' @ show_bool template_smoke_ok
            @ '',"sample_deadlocked":'' @ show_bool (rp_deadlocked report)
            @ '',"sample_policy_failures":'' @ show_nat (es_policy_failures summary)
            @ '',"determinism_lint_hint":"bash scripts/lint_determinism.sh","commands":["run-suite","search","replay","shrink","render","explain"]}'') st))\<close>

subsection \<open>init-sut\<close>

definition init_sut :: "'w cli_env \<Rightarrow> string list \<Rightarrow> 'w command" where
  \<open>init_sut env args =
     (let (name, template, out) = arg_loop (\<lambda>a. a \<in> {''--name'', ''--template''})
            (\<lambda>a v (name, template, out).
               if a = ''--name'' then (case v of Some value \<Rightarrow> (value, template, out) | None \<Rightarrow> (name, template, out))
               else if a = ''--template'' then (case v of Some value \<Rightarrow> (name, value, out) | None \<Rightarrow> (name, template, out))
               else (name, template, Some a))
            args (''detersim-sut-template'', ''message'', None)
      in case out of
           None \<Rightarrow> (\<lambda>st. exit_with 2
             (eprintln ''usage: detersim init-sut [--name name] [--template message|stream] <directory>'' st))
         | Some base \<Rightarrow>
             if template \<noteq> ''message'' \<and> template \<noteq> ''stream''
             then (\<lambda>st. exit_with 2
               (eprintln (''unsupported template '' @ [CHR 0x27] @ template @ [CHR 0x27] @ '', expected message or stream'') st))
             else let src = path_join base ''src'';
                      tests = path_join base ''tests'';
                      make_dir = (\<lambda>dir. or_fail ''failed to create template directory: '' (ce_create_dir_all env dir));
                      workspace = path_for_toml (workspace_root env);
                      files = [(path_join base ''Cargo.toml'', template_cargo name workspace template),
                               (path_join src ''lib.rs'',
                                 if template = ''stream'' then stream_template_lib else message_template_lib),
                               (path_join tests ''detersim_sut.rs'', template_test (crate_ident name) template),
                               (path_join base ''README.md'', template_readme name template)]
                  in make_dir src (make_dir tests
                       (or_fail ''failed to write template: '' (write_all env files) (\<lambda>st.
                         exit_with 0 (println
                           (''{"schema_version":3,"created":"'' @ escape_json_cli base
                            @ ''","name":"'' @ escape_json_cli name @ ''","template":"'' @ escape_json_cli template
                            @ ''","files":["Cargo.toml","README.md","src/lib.rs","tests/detersim_sut.rs"]}'') st)))))\<close>

subsection \<open>run-suite and search\<close>

definition run_suite :: "'w cli_env \<Rightarrow> string list \<Rightarrow> 'w command" where
  \<open>run_suite env args =
     (let (suite_name, out) = parse_suite_and_out args ''smoke''
      in case suite_by_name (ce_debug env) suite_name of
           None \<Rightarrow> unsupported_suite env out suite_name
         | Some suite \<Rightarrow>
             let summary_json = experiment_summary_to_json (ce_show_f64 env) (run_experiment_suite suite)
             in write_or_print env out
                  (case suite_manifest_by_name (ce_debug env) suite_name of
                     Some manifest \<Rightarrow>
                       ''{"schema_version":3,"suite":'' @ experiment_suite_manifest_to_json manifest
                       @ '',"summary":'' @ summary_json @ ''}''
                   | None \<Rightarrow> summary_json))\<close>

record search_args =
  sa_budget :: u64
  sa_strategy :: search_strategy
  sa_suite :: string
  sa_compare :: bool
  sa_out :: "string option"

definition search_arg :: "string \<Rightarrow> string option \<Rightarrow> search_args \<Rightarrow> search_args" where
  "search_arg a v st =
     (if a = ''--budget'' then
        (case v \<bind> parse_u64 of Some n \<Rightarrow> st\<lparr>sa_budget := n\<rparr> | None \<Rightarrow> st)
      else if a = ''--strategy'' then
        st\<lparr>sa_strategy := (if v = Some ''random'' then RandomOrder
                           else if v = Some ''failure-directed'' then FailureDirected else CoverageGuided)\<rparr>
      else if a = ''--suite'' then (case v of Some value \<Rightarrow> st\<lparr>sa_suite := value\<rparr> | None \<Rightarrow> st)
      else if a = ''--compare'' then st\<lparr>sa_compare := True\<rparr>
      else if a = ''--out'' then (case v of Some value \<Rightarrow> st\<lparr>sa_out := Some value\<rparr> | None \<Rightarrow> st)
      else st\<lparr>sa_out := Some a\<rparr>)"

definition search :: "'w cli_env \<Rightarrow> string list \<Rightarrow> 'w command" where
  "search env args =
     (let parsed = arg_loop (\<lambda>a. a \<in> {''--budget'', ''--strategy'', ''--suite'', ''--out''}) search_arg args
            \<lparr>sa_budget = 10, sa_strategy = CoverageGuided, sa_suite = ''smoke'', sa_compare = False, sa_out = None\<rparr>;
          budget = \<lparr>sb_seed_count = sa_budget parsed, sb_retain_candidates = 16\<rparr>
      in if sa_compare parsed
         then case suite_by_name (ce_debug env) (sa_suite parsed) of
                None \<Rightarrow> unsupported_suite env (sa_out parsed) (sa_suite parsed)
              | Some suite \<Rightarrow> write_or_print env (sa_out parsed)
                  (suite_search_comparison_report_to_json
                    (compare_search_suite suite [RandomOrder, CoverageGuided, FailureDirected] budget))
         else case case_by_suite_name (ce_debug env) (sa_suite parsed) of
                None \<Rightarrow> unsupported_suite env (sa_out parsed) (sa_suite parsed)
              | Some c \<Rightarrow> write_or_print env (sa_out parsed)
                  (search_report_to_json (run_seed_search c (sa_strategy parsed) budget)))"

subsection \<open>replay and shrink\<close>

definition replay_usage :: "'w command" where
  "replay_usage st = exit_with 2 (eprintln ''usage: detersim replay <seed> <comma-separated-tape>'' st)"

definition replay :: "'w cli_env \<Rightarrow> string option \<Rightarrow> string option \<Rightarrow> 'w command" where
  "replay env seed tape =
     (case seed \<bind> parse_u64 of
        None \<Rightarrow> replay_usage
      | Some seed \<Rightarrow>
          (case tape of
             None \<Rightarrow> replay_usage
           | Some tape \<Rightarrow> (\<lambda>st. exit_with 0 (println (run_report_to_json
               (dropped_message_world_replay (ce_debug env) seed (parse_tape tape))) st))))"

definition shrink_json_cli :: "failure_debug_artifact \<Rightarrow> string" where
  \<open>shrink_json_cli artifact =
     ''{"original_len":'' @ show_nat (sr_original_len (fd_shrink artifact))
     @ '',"minimized_len":'' @ show_nat (length (sr_minimized (fd_shrink artifact)))
     @ '',"attempts":'' @ show_nat (sr_attempts (fd_shrink artifact))
     @ '',"accepted_removals":'' @ show_nat (sr_accepted_removals (fd_shrink artifact))
     @ '',"signature_preserved":true,"removed_labels":'' @ removed_labels_json_cli (fd_removed_labels artifact) @ ''}''\<close>

definition shrink_artifact ::
  "experiment_case \<Rightarrow> u64 \<Rightarrow> failure_signature \<Rightarrow> failure_debug_artifact \<Rightarrow> debug_artifact_v3" where
  \<open>shrink_artifact c seed signature artifact =
     (let shrink_json = shrink_json_cli artifact;
          run = fd_minimized_replay artifact
      in \<lparr>d3_title = ec_name c @ '' shrink seed '' @ show_u64 seed, d3_run = run, d3_experiment_json = None,
          d3_search_json = None, d3_checker_json = None, d3_shrink_json = Some shrink_json,
          d3_failure_signature_json = Some (failure_signature_json_cli signature), d3_coverage_json = None,
          d3_causal_graph_json = Some (causal_graph_json (causal_from_sections run None (Some shrink_json))),
          d3_environment_json = Some ''{"schema":"v3.2","workflow":"signature-preserving-shrink"}''\<rparr>)\<close>

definition shrink_args :: "string list \<Rightarrow> string \<times> u64 \<times> string option" where
  "shrink_args args =
     arg_loop (\<lambda>a. a \<in> {''--case'', ''--seed'', ''--out''})
       (\<lambda>a v (case_name, seed, out).
          if a = ''--case'' then (case v of Some value \<Rightarrow> (value, seed, out) | None \<Rightarrow> (case_name, seed, out))
          else if a = ''--seed'' then
            (case_name, case v \<bind> parse_u64 of Some n \<Rightarrow> n | None \<Rightarrow> seed, out)
          else if a = ''--out'' then (case v of Some value \<Rightarrow> (case_name, seed, Some value) | None \<Rightarrow> (case_name, seed, out))
          else (case_name, seed, Some a))
       args (''missing-message'', 0, None)"

definition shrink :: "'w cli_env \<Rightarrow> string list \<Rightarrow> 'w command" where
  \<open>shrink env args =
     (let (case_name, seed, out) = shrink_args args
      in case case_by_name (ce_debug env) case_name of
           None \<Rightarrow> write_or_print env out
             (''{"schema_version":3,"ok":false,"unsupported_case":"'' @ escape_json_cli case_name
              @ ''","supported_cases":'' @ supported_cases_json (ce_debug env) @ ''}'')
         | Some c \<Rightarrow>
             (case ec_oracle c (ec_generate c seed) of
                None \<Rightarrow> write_or_print env out
                  (''{"schema_version":3,"ok":false,"case":"'' @ escape_json_cli (ec_name c)
                   @ ''","seed":'' @ show_u64 seed @ '',"reason":"case_did_not_fail"}'')
              | Some signature \<Rightarrow>
                  (case shrink_replay_failure seed (ec_generate c) (ec_replay c)
                          (\<lambda>report. ec_oracle c report = Some signature) (eb_shrink (ec_budget c)) of
                     Inl panic \<Rightarrow> (\<lambda>st. (Inl panic, st))
                   | Inr artifact \<Rightarrow>
                       write_or_print env out
                         (debug_artifact_v3_to_json (shrink_artifact c seed signature artifact)))))\<close>

subsection \<open>render and explain\<close>

definition example_artifacts :: "'w cli_env \<Rightarrow> (string \<times> debug_artifact_v3) list" where
  "example_artifacts env =
     [(''missing-message'', missing_message_v3_artifact env ''missing-message example'' 0),
      (''replicated-kv-stale-read'', replicated_kv_artifact env),
      (''mini-raft-stale-read'', mini_raft_artifact env),
      (''storage-bitrot'', storage_fault_artifact env),
      (''stream-transcript'', stream_transcript_artifact)]"

fun write_examples ::
  "'w cli_env \<Rightarrow> string \<Rightarrow> (string \<times> debug_artifact_v3) list \<Rightarrow> string list \<Rightarrow> (string list \<Rightarrow> 'w command) \<Rightarrow> 'w command" where
  "write_examples env base [] written k = k written"
| \<open>write_examples env base ((name, artifact) # artifacts) written k =
     (let json_path = path_join base (name @ ''.json'');
          html_path = path_join base (name @ ''.html'')
      in or_fail ''failed to write v3 examples: ''
           (write_all env [(json_path, debug_artifact_v3_to_json artifact), (html_path, debug_artifact_v3_html artifact)])
           (write_examples env base artifacts
             (written @ [''{"json":"'' @ escape_json_cli json_path @ ''","html":"'' @ escape_json_cli html_path @ ''"}'']) k))\<close>

definition render_examples :: "'w cli_env \<Rightarrow> string \<Rightarrow> 'w command" where
  \<open>render_examples env dir =
     or_fail ''failed to create examples directory: '' (ce_create_dir_all env dir)
       (write_examples env dir (example_artifacts env) [] (\<lambda>written.
          let index_path = path_join dir ''index.json''
          in or_fail ''failed to write v3 example index: ''
               (ce_write env index_path
                 (''{"schema_version":3,"artifact_count":'' @ show_nat (length written)
                  @ '',"artifacts":['' @ join_with '','' written @ '']}''))
               (\<lambda>st. exit_with 0 (println
                  (''{"schema_version":3,"index":"'' @ escape_json_cli index_path
                   @ ''","artifacts":['' @ join_with '','' written @ '']}'') st))))\<close>

record render_args =
  ra_seed :: "u64 option"
  ra_examples :: "string option"
  ra_artifact :: "string option"
  ra_out :: "string option"

definition render_arg :: "string \<Rightarrow> string option \<Rightarrow> render_args \<Rightarrow> render_args" where
  "render_arg a v st =
     (if a = ''--examples'' then
        st\<lparr>ra_examples := Some (case v of Some value \<Rightarrow> value | None \<Rightarrow> ''target/detersim-artifacts/v3'')\<rparr>
      else if a = ''--artifact'' then (case v of Some value \<Rightarrow> st\<lparr>ra_artifact := Some value\<rparr> | None \<Rightarrow> st)
      else if a = ''--out'' then (case v of Some value \<Rightarrow> st\<lparr>ra_out := Some value\<rparr> | None \<Rightarrow> st)
      else if ra_seed st = None then st\<lparr>ra_seed := parse_u64 a\<rparr>
      else st\<lparr>ra_out := Some a\<rparr>)"

definition render_parse :: "string list \<Rightarrow> render_args" where
  "render_parse args =
     arg_loop (\<lambda>a. a \<in> {''--examples'', ''--artifact'', ''--out''}) render_arg args
       \<lparr>ra_seed = None, ra_examples = None, ra_artifact = None, ra_out = None\<rparr>"

definition render_cmd :: "'w cli_env \<Rightarrow> string list \<Rightarrow> 'w command" where
  "render_cmd env args =
     (let parsed = render_parse args
      in case ra_examples parsed of
           Some dir \<Rightarrow> render_examples env dir
         | None \<Rightarrow>
             (case ra_artifact parsed of
                Some path \<Rightarrow> (\<lambda>st.
                  (case ce_read env path (cs_world st) of
                     None \<Rightarrow> exit_with 1 (eprintln (''failed to read artifact: '' @ path) st)
                   | Some json \<Rightarrow>
                       let version = (case debug_artifact_schema_version json of None \<Rightarrow> 0 | Some v \<Rightarrow> v)
                       in write_or_print env (ra_out parsed)
                            (raw_debug_artifact_html (''DeterSim artifact schema '' @ show_nat version) json) st))
              | None \<Rightarrow>
                  let seed = (case ra_seed parsed of None \<Rightarrow> 0 | Some seed \<Rightarrow> seed);
                      report = dropped_message_world (ce_debug env) seed
                  in write_or_print env (ra_out parsed) (debug_artifact_html
                       \<lparr>da_title = ''missing-message seed '' @ show_u64 seed, da_run = report,
                        da_experiment_json = None, da_checker_json = None, da_shrink_json = None,
                        da_failure_signature_json =
                          map_option failure_signature_json_cli (missing_message_signature report)\<rparr>)))"

definition explain :: "'w cli_env \<Rightarrow> string option \<Rightarrow> 'w command" where
  \<open>explain env out =
     write_or_print env out (debug_artifact_v3_to_json
       \<lparr>d3_title = ''missing-message explanation'', d3_run = dropped_message_world (ce_debug env) 0,
        d3_experiment_json = Some (experiment_summary_to_json (ce_show_f64 env)
          (run_experiment_suite (smoke_suite (ce_debug env)))),
        d3_search_json = Some (search_report_to_json (smoke_search (ce_debug env))), d3_checker_json = None,
        d3_shrink_json = Some ''{"kind":"signature-preserving"}'',
        d3_failure_signature_json = Some ''{"type":"InvariantViolated","name":"missing-message"}'',
        d3_coverage_json = None,
        d3_causal_graph_json =
          Some ''{"nodes":["send","drop","timeout"],"edges":[["send","drop"],["drop","timeout"]]}'',
        d3_environment_json = Some ''{"schema":"v3","determinism":"same-binary-same-platform"}''\<rparr>)\<close>

subsection \<open>main\<close>

definition print_help :: "'w command" where
  "print_help st = exit_with 0 (eprintln (join_with nl
     [''usage:'',
      ''  detersim doctor'',
      ''  detersim init-sut <directory>'',
      ''  detersim run-suite [--suite smoke|replicated-kv|mini-raft-smoke|storage-faults] [out.json]'',
      ''  detersim search [--suite smoke|replicated-kv|mini-raft-smoke|storage-faults] [--budget n] [--strategy random|coverage-guided|failure-directed] [--compare] [out.json]'',
      ''  detersim replay <seed> <comma-separated-tape>'',
      ''  detersim shrink [out.json]'',
      ''  detersim render [seed] [out.html]'',
      ''  detersim render --examples <directory>'',
      ''  detersim explain [out.json]'']) st)"

definition cli_main :: "'w cli_env \<Rightarrow> string list \<Rightarrow> 'w command" where
  "cli_main env args =
     (let arg = get_part args; rest = drop 2 args
      in if arg 1 = Some ''doctor'' then doctor env
         else if arg 1 = Some ''init-sut'' then init_sut env rest
         else if arg 1 = Some ''run-suite'' then run_suite env rest
         else if arg 1 = Some ''search'' then search env rest
         else if arg 1 = Some ''replay'' then replay env (arg 2) (arg 3)
         else if arg 1 = Some ''shrink'' then shrink env rest
         else if arg 1 = Some ''render'' then render_cmd env rest
         else if arg 1 = Some ''explain'' then explain env (arg 2)
         else print_help)"

subsection \<open>The sample world\<close>

lemma contains_append: "contains_str a pat \<Longrightarrow> contains_str (a @ b) pat"
  by (auto simp: contains_str_def sublist_append)

lemma dropped_message_returns:
  "script_generate (sut_step no_labels) run_dropped_message cli_config dbg seed = Some (dropped_message_world dbg seed)"
  "rp_history (dropped_message_world dbg seed) = [''missing-message'']" "\<not> rp_deadlocked (dropped_message_world dbg seed)"
proof -
  have "quiesces_with no_labels run_dropped_message (world_with_config seed cli_config) [''missing-message'']"
    by (simp add: world_with_config_def dropped_message_quiesces)
  then obtain r where r: "script_generate (sut_step no_labels) run_dropped_message cli_config dbg seed = Some r"
      "rp_history r = [''missing-message'']" "\<not> rp_deadlocked r"
    by (rule quiesced_report)
  then show "script_generate (sut_step no_labels) run_dropped_message cli_config dbg seed = Some (dropped_message_world dbg seed)"
    "rp_history (dropped_message_world dbg seed) = [''missing-message'']" "\<not> rp_deadlocked (dropped_message_world dbg seed)"
    by (simp_all add: dropped_message_world_def)
qed

lemma dropped_message_replays:
  "dropped_message_world_replay dbg seed (rp_tape_log (dropped_message_world dbg seed))
     = as_replay (dropped_message_world dbg seed)"
  using script_replay_of_generate [OF dropped_message_returns(1)] by (simp add: dropped_message_world_replay_def)

subsection \<open>The commands\<close>

lemma cli_main_commands:
  "cli_main env (exe # ''doctor'' # rest) = doctor env"
  "cli_main env [exe, ''replay'', seed, tape] = replay env (Some seed) (Some tape)"
  "cli_main env (exe # ''render'' # rest) = render_cmd env rest"
  by (simp_all add: cli_main_def get_part_def Let_def)

text \<open>C24. \<^verbatim>\<open>detersim replay\<close> reproduces the run of the sample world: given a seed and the tape that run
  recorded, as text, it prints the run's report, marked as a replay that read the whole tape and no more, and exits
  with 0. This holds for every seed.\<close>

theorem cli_replay_reproduces:
  "let generated = dropped_message_world (ce_debug env) seed
   in cli_main env [exe, ''replay'', show_u64 seed, join_with '','' (map show_u64 (rp_tape_log generated))] st
        = (Inr 0, println (run_report_to_json (as_replay generated)) st)"
  unfolding Let_def cli_main_commands
  by (simp add: replay_def parse_u64_show parse_tape_text dropped_message_replays)

lemma template_generation_smoke_ok: "template_generation_smoke env"
proof -
  have "contains_str (template_cargo n w ''message'') ''detersim-testkit''" for n w
    unfolding template_cargo_def Let_def
    by (rule contains_append, rule contains_unlines [of "''detersim-testkit = { path = \"'' @ w @ ''/crates/detersim-testkit\", version = \"0.1.0\" }''"])
      (simp_all add: contains_str_def sublist_Cons_right)
  moreover have "contains_str (template_cargo n w ''message'') ''detersim-viz''" for n w
    unfolding template_cargo_def Let_def
    by (rule contains_append, rule contains_unlines [of "''detersim-viz = { path = \"'' @ w @ ''/crates/detersim-viz\", version = \"0.1.0\" }''"])
      (simp_all add: contains_str_def sublist_Cons_right)
  moreover have "contains_str message_template_lib ''plant_bug_case''" "contains_str message_template_lib ''ExperimentCase''"
    unfolding message_template_lib_def
    by (rule contains_unlines [of "''pub fn plant_bug_case() -> ExperimentCase {''"];
        simp add: contains_str_def sublist_Cons_right)+
  moreover have "contains_str (template_test c ''message'') ''artifact_render_test''" for c
  proof -
    have "''fn artifact_render_test() {'' \<in> set ls \<Longrightarrow> contains_str (unlines ls) ''artifact_render_test''" for ls
      by (erule contains_unlines) (simp add: contains_str_def sublist_Cons_right)
    then show ?thesis unfolding template_test_def by simp
  qed
  ultimately show ?thesis by (simp add: template_generation_smoke_def Let_def)
qed

text \<open>C23. \<^verbatim>\<open>detersim doctor\<close> succeeds: whatever the compiler's version, the package's directory and
  the file system are, it finds the sample world not deadlocked, the sample suite without policy failures, the artifact
  rendered and the template complete, prints so and exits with 0.\<close>

theorem doctor_succeeds:
  \<open>\<exists>text. cli_main env (exe # ''doctor'' # rest) st = (Inr 0, println text st)
     \<and> prefix (''{"schema_version":3,"ok":true,"workspace":"'' @ escape_json (workspace_root env)) text\<close>
proof -
  have suite: "es_policy_failures (run_experiment_suite (smoke_suite (ce_debug env))) = 0"
    by (rule suites_have_no_failures [where name = "''smoke''"]) (simp add: suite_by_name_def)
  have json: "contains_str (debug_artifact_v3_to_json a) ''\"schema_version\":3''" for a
    by (simp add: debug_artifact_v3_to_json_def contains_str_def sublist_Cons_right)
  have html: "contains_str (debug_artifact_v3_html a) ''<!doctype html>''" for a
    by (simp add: debug_artifact_v3_html_def contains_str_def sublist_Cons_right)
  show ?thesis
    unfolding cli_main_commands doctor_def Let_def
    by (simp only: suite json html template_generation_smoke_ok dropped_message_returns(3) simp_thms if_True)
      (intro exI conjI, rule refl, simp add: show_bool_def)
qed




end
