(* ===== verification/Spec2Isabelle.thy ===== *)
theory Spec2Isabelle
  imports Ordered_Map Entropy_Tape Nemesis Page_Store Sim_Order Sim_Crash Sim_Replay Check_Models
    Shrink Net_Stream Protocol_History Sim_Text Seed_Search Testkit_World Scenarios
    Cli_Commands
begin

text \<open>
  A verification library for \<^verbatim>\<open>detersim\<close>, a deterministic simulation tester for distributed
  programs written in Rust.

  The program. A \<^verbatim>\<open>World\<close> (\<^verbatim>\<open>crates/detersim-sim/src/lib.rs\<close>) runs nodes, which
  are async functions over the capabilities of \<^verbatim>\<open>Env\<close> (\<^verbatim>\<open>detersim-core\<close>), in
  logical time: it pops the events of one queue in the order of (time, sequence number), delivers messages, fires
  timers, applies faults and polls tasks. Every random choice is a labelled draw from an
  \<^verbatim>\<open>EntropyTape\<close> (\<^verbatim>\<open>tape.rs\<close>), so a run can be replayed from the draws it made.
  Faults come from \<^verbatim>\<open>detersim-nemesis\<close> (connectivity and plans) and from each node's
  \<^verbatim>\<open>PageStore\<close>. What a run leaves, a report with trace and history, is judged by an oracle, mostly one
  of the checkers of \<^verbatim>\<open>detersim-check\<close>. \<^verbatim>\<open>detersim-testkit\<close> runs experiments
  over seeds, \<^verbatim>\<open>detersim-search\<close> orders and scores seeds, \<^verbatim>\<open>detersim-shrink\<close>
  shortens failing tapes, \<^verbatim>\<open>detersim-viz\<close> writes artifacts, \<^verbatim>\<open>detersim-net\<close>
  offers ordered streams, \<^verbatim>\<open>detersim-protocols\<close> holds two reference protocols with planted bugs,
  and \<^verbatim>\<open>detersim-cli\<close> puts all of it behind commands.

  Foundations.
  \<^item> \<open>Prelude\<close>: Rust's integer types as words, saturating arithmetic, the collections of rules.
  \<^item> \<open>Ordered_Map\<close>: \<^verbatim>\<open>BTreeMap\<close> as its association list in key order; the laws it is
    used by are the locale \<open>finite_map_laws\<close>.
  \<^item> \<open>Text_Format\<close>, \<open>Json_Text\<close>: decimal numbers, splitting, escaping, and readers that are
    proved against the writers.
  \<^item> \<open>Core_Rng\<close>: \<^verbatim>\<open>rng.rs\<close> and \<^verbatim>\<open>time.rs\<close> of
    \<^verbatim>\<open>detersim-core\<close>; the generator does not repeat a value in its first \<open>2 ^ 64\<close> draws.

  The simulator.
  \<^item> \<open>Entropy_Tape\<close>: the tape in both modes; a replay reads back what was recorded.
  \<^item> \<open>Nemesis\<close>: \<^verbatim>\<open>ConnectivityMatrix\<close> and the fault plans, one constructor per
    implementation of \<^verbatim>\<open>NemesisPlan\<close>.
  \<^item> \<open>Page_Store\<close>: the storage device of a node with torn writes, reordered flushes, bit rot and the panics
    of its slices.
  \<^item> \<open>Event_Queue\<close>: the heap of events as the list of its pops, with the laws \<open>event_queue_laws\<close>.
  \<^item> \<open>Sim_State\<close> (\<^verbatim>\<open>Inner\<close> and its operations), \<open>Sim_Env\<close> (the handles and
    futures a node polls), \<open>Sim_World\<close> (\<^verbatim>\<open>pop_until_poll\<close>, \<^verbatim>\<open>run\<close>, the
    calls on a world as the datatype \<open>world_op\<close>, a test's calls as a script).
  \<^item> \<open>Sim_Steps\<close>: the simulator as a transition system, with the locales \<open>world_invariant\<close> and
    \<open>world_system_invariant\<close> for invariants of all reachable states; \<open>Sim_Order\<close> and
    \<open>Sim_Crash\<close> interpret them (dispatch is strictly ordered; crashed nodes are silent, and a crash leaves
    of a storage device what its faults allow).
  \<^item> \<open>Sim_Replay\<close>: the relation between a generating and a replaying simulator, kept by every operation, so
    that the recorded tape of any script reproduces its report.
  \<^item> \<open>Run_Report\<close>, \<open>Sim_Text\<close>: reports as text, the trace lines, and the semantic coverage read
    off them.

  Programs under test.
  \<^item> \<open>Async_Program\<close>: async functions as trees of awaits (\<open>prog\<close>); a loop is a label whose body is
    looked up, so programs that never end are first-class. \<open>Scenarios\<close> holds the worlds of
    \<^verbatim>\<open>scenarios.rs\<close>.
  \<^item> \<open>Async_Network\<close>, \<open>Network_Run\<close>: a specification of the simulator as an asynchronous network
    (nodes, inboxes, messages in flight, no queue and no tape), and the simulation between the two: one run of a world
    whose programs spawn no tasks is a run of that network, if the faults set up before it are message loss, delays,
    partitions, link cuts, crashes without restart and storage faults. Message duplication, restarts, clock skew and
    nemesis plans are outside this specification, and the horizon lies below the last instant. The locale \<open>network_invariant\<close> carries an invariant of the network to the history of a
    run.
  \<^item> \<open>World_Returns\<close>: scripts return. A run is bounded by \<^verbatim>\<open>max_events\<close>, one poll by the
    size of the program up to its next await; loops need a rank that falls on every turn that does not receive.
  \<^item> \<open>Kv_Protocol\<close>, \<open>Mini_Raft\<close>: the two protocols of \<^verbatim>\<open>detersim-protocols\<close> with
    all their planted bugs and their clients. \<open>Protocol_History\<close>: their history lines and parsers; the lines omit the process of an operation, which
    no verdict of the checker depends on.
  \<^item> \<open>Kv_Safety\<close>, \<open>Kv_Linearizable\<close>: under these faults a run of the correct primary-backup
    store with its client returns and its history is linearizable; its invariant interprets
    \<open>network_invariant\<close>. With message duplication the quorum does not hold, because the primary counts
    acknowledgements and not followers.

  Judging and reducing runs.
  \<^item> \<open>Check_Search\<close>: the search for an order both checkers make, in the locale \<open>order_search\<close>
    (sound, complete, bounded); \<open>Check_Linear\<close> and \<open>Check_Txn\<close> interpret it for
    linearizability and for strict serializability, which is what \<^verbatim>\<open>check_serializable\<close> decides: it
    keeps the real-time order of the transactions, so it agrees with serializability on pairwise concurrent transactions
    and on a sequential history accepts at most the order in which it ran. \<open>Check_Models\<close> holds the sequential models.
  \<^item> \<open>Shrink\<close>: both shrinkers; the locale \<open>shrink_phase\<close> is what a phase must keep.
  \<^item> \<open>Testkit\<close>, \<open>Testkit_World\<close>: experiments, replay assertions, suites and summaries; over a script of
    calls on a world an experiment loses no failure.
  \<^item> \<open>Seed_Search\<close>: the search strategies and the corpus. \<open>Viz_Artifact\<close>: artifacts and the causal
    graph. \<open>Net_Stream\<close>: streams deliver exactly the frames before the first gap.

  The command line (\<^verbatim>\<open>crates/detersim-cli/src/main.rs\<close>).
  \<^item> \<open>Cli_Worlds\<close>: its worlds, oracles, cases and suites. \<open>Cli_Runs\<close>, \<open>Seed_Zero\<close>,
    \<open>Kv_Recall\<close>, \<open>Raft_Recall\<close>: the runs of the cases, event by event; the worlds of the smoke and storage
    suites leave the same history for every tape, the planted protocol bugs show at seed 0.
    \<open>Cli_Suites\<close>: all suites pass.
  \<^item> \<open>Cli_Text\<close>, \<open>Cli_Commands\<close>: templates, arguments, output and the commands, as functions on the
    printed text and the file system.

  Bounds and partiality. The checkers' budget is a natural number; \<open>search_bound n\<close> steps are enough for \<open>n\<close>
  operations and \<open>txn_bound n\<close> for \<open>n\<close> transactions, and both bounds are proved. Recursion that the code
  bounds by a counter (the shrinkers' attempts, the run's events) is a terminating function. A run of a world is a
  \<open>partial_function\<close>: \<open>None\<close> is a run that does not return, \<open>Inl\<close> one that panics;
  \<open>plain_script_returns\<close> says when neither happens. A world function of the command line returns a report, so it is
  \<open>the\<close> of the run; nothing is claimed of it before the run is proved to return.

  Modelling decisions. \<^verbatim>\<open>f64\<close> values are reals, and their formatting is a parameter. A
  \<^verbatim>\<open>char\<close> is a character below U+0100. \<^verbatim>\<open>usize\<close> counters are natural numbers where
  memory bounds them. The debug form of a message in a trace line is a parameter of every text. Futures are polled
  as the executor polls them; wakers are the identifiers of tasks.

  Not modelled. \<^verbatim>\<open>spawn_demo_world\<close>, whose node may panic in an assertion; the example programs and tests
  of the crates, which only call the library; the file system, the environment and the child process behind the command
  line, which are parameters with no hypotheses on them.
\<close>

end
